(* ===== verification/Prelude.thy ===== *)
theory Prelude
  imports Main "HOL-Library.Word" "HOL-Library.Sublist"
begin

section \<open>Shared vocabulary of the development\<close>

text \<open>
  Bytes, the ways a C function of the program can leave defined behaviour, results that
  carry such a failure, and the lemmas on lists and results that the components share.
  A C function that may run into undefined behaviour returns a value of \<open>'a res\<close>:
  \<open>Inl\<close> names the first undefined operation on the executed path and \<open>Inr\<close>
  carries the ordinary outcome.
\<close>

unbundle bit_operations_syntax

type_synonym byte = "8 word"

datatype ub = NullDeref | OutOfBounds | UseAfterFree | DoubleFree | IntOverflow

type_synonym 'a res = "ub + 'a"

fun res_bind :: "'a res \<Rightarrow> ('a \<Rightarrow> 'b res) \<Rightarrow> 'b res" where
  "res_bind (Inl e) f = Inl e"
| "res_bind (Inr x) f = f x"

named_theorems frame
named_theorems wf_keep

subsection \<open>Results\<close>

lemma res_bind_assoc: "res_bind (res_bind m f) g = res_bind m (\<lambda>x. res_bind (f x) g)"
  by (cases m) simp_all

lemma res_bind_cong [fundef_cong]:
  "\<lbrakk>m = m'; \<And>x. m' = Inr x \<Longrightarrow> f x = g x\<rbrakk> \<Longrightarrow> res_bind m f = res_bind m' g"
  by (cases m') simp_all

lemma res_bind_eq_Inr [simp]:
  "res_bind m f = Inr y \<longleftrightarrow> (\<exists>x. m = Inr x \<and> f x = Inr y)"
  by (cases m) simp_all

lemma res_bind_eq_Inl:
  "res_bind m f = Inl e \<longleftrightarrow> m = Inl e \<or> (\<exists>x. m = Inr x \<and> f x = Inl e)"
  by (cases m) simp_all

text \<open>\<open>res_all P m\<close>: if \<open>m\<close> returns, what it returns satisfies \<open>P\<close>.\<close>

definition res_all :: "('a \<Rightarrow> bool) \<Rightarrow> 'a res \<Rightarrow> bool" where
  "res_all P m \<longleftrightarrow> (\<forall>x. m = Inr x \<longrightarrow> P x)"

lemma res_all_simps [simp]: "res_all P (Inl e)" "res_all P (Inr x) = P x"
  by (simp_all add: res_all_def)

lemma res_all_If: "\<lbrakk>res_all P m; res_all P n\<rbrakk> \<Longrightarrow> res_all P (if b then m else n)"
  by simp

lemma res_all_bind: "(\<And>x. m = Inr x \<Longrightarrow> res_all P (f x)) \<Longrightarrow> res_all P (res_bind m f)"
  by (cases m) simp_all

lemma res_all_option:
  "\<lbrakk>res_all P m; \<And>x. t = Some x \<Longrightarrow> res_all P (f x)\<rbrakk> \<Longrightarrow> res_all P (case t of None \<Rightarrow> m | Some x \<Rightarrow> f x)"
  by (cases t) simp_all

lemma res_allD: "\<lbrakk>res_all P m; m = Inr x\<rbrakk> \<Longrightarrow> P x"
  by simp

subsection \<open>Lists\<close>

lemma takeWhile_append_stop:
  "\<lbrakk>\<forall>x\<in>set xs. P x; ys = [] \<or> \<not> P (hd ys)\<rbrakk> \<Longrightarrow> takeWhile P (xs @ ys) = xs"
  by (cases ys) (auto simp: takeWhile_append)

lemma dropWhile_append_stop:
  "\<lbrakk>\<forall>x\<in>set xs. P x; ys = [] \<or> \<not> P (hd ys)\<rbrakk> \<Longrightarrow> dropWhile P (xs @ ys) = ys"
  by (cases ys) (auto simp: dropWhile_append)

end
