(* ===== verification/CString.thy ===== *)
theory CString
  imports Prelude
begin

section \<open>The C string functions the program calls\<close>

text \<open>
  A character array is a \<open>char list\<close> of the array's size; the C string it holds is
  what stands before its first NUL (\<open>c_str\<close>). A string value passed around by the code
  (a token, a line) is a \<open>string\<close> without NUL, and a pointer that may be NULL is an
  option of it. These are the functions of the C library (glibc, on Linux) that
  \<open>parser.c\<close>, \<open>globals.c\<close> and \<open>main.c\<close> use:
  \<open>strncpy\<close>, \<open>strncmp\<close> compared with 0, \<open>strtok\<close> with a single
  delimiter, \<open>atoi\<close> (glibc: \<open>strtol\<close> clamped to a 64-bit long, then cut to
  32 bits) and \<open>fgets\<close>.
\<close>

abbreviation NUL :: char where
  "NUL \<equiv> CHR 0x00"

abbreviation NL :: char where
  "NL \<equiv> CHR 0x0A"

abbreviation SPC :: char where
  "SPC \<equiv> CHR 0x20"

definition c_str :: "char list \<Rightarrow> string" where
  "c_str b = takeWhile (\<lambda>c. c \<noteq> NUL) b"

definition strncpy :: "char list \<Rightarrow> string option \<Rightarrow> nat \<Rightarrow> char list res" where
  "strncpy dst src n =
     (case src of
        None \<Rightarrow> Inl NullDeref
      | Some s \<Rightarrow>
          if n \<le> length dst then Inr (take n (s @ replicate n NUL) @ drop n dst)
          else Inl OutOfBounds)"

fun strncmp_eq :: "string \<Rightarrow> string \<Rightarrow> nat \<Rightarrow> bool" where
  "strncmp_eq a b 0 = True"
| "strncmp_eq [] [] (Suc n) = True"
| "strncmp_eq [] (y # ys) (Suc n) = False"
| "strncmp_eq (x # xs) [] (Suc n) = False"
| "strncmp_eq (x # xs) (y # ys) (Suc n) = (x = y \<and> strncmp_eq xs ys n)"

definition strtok :: "char \<Rightarrow> string \<Rightarrow> (string \<times> string) option" where
  "strtok d s =
     (let t = dropWhile (\<lambda>c. c = d) s
      in if t = [] then None
         else Some (takeWhile (\<lambda>c. c \<noteq> d) t, tl (dropWhile (\<lambda>c. c \<noteq> d) t)))"

definition isspace :: "char \<Rightarrow> bool" where
  "isspace c \<longleftrightarrow> c \<in> {SPC, CHR 0x09, CHR 0x0A, CHR 0x0B, CHR 0x0C, CHR 0x0D}"

definition isdigit :: "char \<Rightarrow> bool" where
  "isdigit c \<longleftrightarrow> 48 \<le> (of_char c :: nat) \<and> (of_char c :: nat) \<le> 57"

fun strtol_digits :: "int \<Rightarrow> string \<Rightarrow> int" where
  "strtol_digits acc [] = acc"
| "strtol_digits acc (c # cs) =
     (if isdigit c then strtol_digits (acc * 10 + (of_char c - 48)) cs else acc)"

definition strtol10 :: "string \<Rightarrow> int" where
  "strtol10 s =
     (case dropWhile isspace s of
        [] \<Rightarrow> 0
      | c # cs \<Rightarrow>
          if c = CHR ''-'' then - strtol_digits 0 cs
          else if c = CHR ''+'' then strtol_digits 0 cs
          else strtol_digits 0 (c # cs))"

definition clamp_long :: "int \<Rightarrow> int" where
  "clamp_long v = max (- (2 ^ 63)) (min (2 ^ 63 - 1) v)"

definition atoi :: "string option \<Rightarrow> 32 word res" where
  "atoi s = (case s of None \<Rightarrow> Inl NullDeref
                     | Some t \<Rightarrow> Inr (word_of_int (clamp_long (strtol10 t))))"

definition fgets :: "nat \<Rightarrow> string \<Rightarrow> (string \<times> string) option" where
  "fgets n s =
     (if s = [] then None
      else let m = take (n - 1) s;
               line = takeWhile (\<lambda>c. c \<noteq> NL) m @ (if NL \<in> set m then [NL] else [])
           in Some (line, drop (length line) s))"

subsection \<open>strncmp as a prefix test\<close>

lemma strncmp_eq_take: "strncmp_eq a b n \<longleftrightarrow> take n a = take n b"
  by (induction a b n rule: strncmp_eq.induct) auto

lemma strncmp_eq_prefix: "strncmp_eq a b (length b) \<longleftrightarrow> prefix b a"
  by (auto simp: strncmp_eq_take prefix_def) (metis append_take_drop_id)

subsection \<open>Character arrays\<close>

text \<open>
  The arrays of the program have 256 elements, start as zeros and are written by
  \<open>strncpy\<close> with a fixed limit; \<open>buf_ok lim b\<close> says that nothing at or after
  index \<open>lim\<close> was ever written, so the array holds a terminated string of at most
  \<open>lim\<close> characters.
\<close>

definition buf_ok :: "nat \<Rightarrow> char list \<Rightarrow> bool" where
  "buf_ok lim b \<longleftrightarrow> lim < 256 \<and> length b = 256 \<and> drop lim b = replicate (256 - lim) NUL"

definition terminated :: "char list \<Rightarrow> bool" where
  "terminated b \<longleftrightarrow> NUL \<in> set b"

lemma buf_ok_terminated: "buf_ok lim b \<Longrightarrow> terminated b"
proof -
  assume b: "buf_ok lim b"
  then have "NUL \<in> set (drop lim b)"
    by (simp add: buf_ok_def)
  then show ?thesis
    by (auto simp: terminated_def dest: in_set_dropD)
qed

lemma buf_ok_zero: "lim < 256 \<Longrightarrow> buf_ok lim (replicate 256 NUL)"
  by (simp add: buf_ok_def)

lemma buf_ok_padded:
  "\<lbrakk>length s \<le> lim; lim < 256\<rbrakk> \<Longrightarrow> buf_ok lim (s @ replicate (256 - length s) NUL)"
  by (simp add: buf_ok_def)

lemma takeWhile_append_replicate:
  "0 < k \<Longrightarrow> takeWhile (\<lambda>c. c \<noteq> x) (xs @ replicate k x) = takeWhile (\<lambda>c. c \<noteq> x) xs"
  by (induction xs) (cases k, simp_all)

lemma buf_ok_split: "buf_ok lim b \<Longrightarrow> b = take lim b @ replicate (256 - lim) NUL"
  using append_take_drop_id [of lim b] by (simp add: buf_ok_def)

lemma buf_ok_c_str: "buf_ok lim b \<Longrightarrow> c_str b = takeWhile (\<lambda>c. c \<noteq> NUL) (take lim b)"
proof -
  assume b: "buf_ok lim b"
  then have "0 < 256 - lim"
    by (simp add: buf_ok_def)
  then have "takeWhile (\<lambda>c. c \<noteq> NUL) (take lim b @ replicate (256 - lim) NUL)
      = takeWhile (\<lambda>c. c \<noteq> NUL) (take lim b)"
    by (rule takeWhile_append_replicate)
  then show ?thesis
    using buf_ok_split [OF b] by (simp add: c_str_def)
qed

lemma strncpy_None [simp]: "strncpy dst None n = Inl NullDeref"
  by (simp add: strncpy_def)

lemma strncpy_buf_ok:
  assumes "buf_ok lim dst" and "n \<le> lim" and "strncpy dst src n = Inr b"
  shows "buf_ok lim b"
proof -
  from assms(3) obtain s where b: "b = take n (s @ replicate n NUL) @ drop n dst" "n \<le> length dst"
    by (auto simp: strncpy_def split: option.splits if_splits)
  have "length (take n (s @ replicate n NUL)) = n"
    by simp
  then have "drop lim b = drop lim dst"
    using b assms(2) by (simp del: take_append)
  moreover have "length b = length dst"
    using b by simp
  ultimately show ?thesis
    using assms(1) by (simp add: buf_ok_def)
qed

lemma c_str_strncpy:
  assumes "NUL \<notin> set s" and "buf_ok n dst" and "strncpy dst (Some s) n = Inr b"
  shows "c_str b = take n s"
proof -
  have ok: "n < 256" "drop n dst = replicate (256 - n) NUL"
    using assms(2) by (simp_all add: buf_ok_def)
  have b: "b = take n s @ replicate (n - length s) NUL @ replicate (256 - n) NUL"
    using assms(2,3) ok by (auto simp: strncpy_def buf_ok_def split: if_splits)
  have "\<forall>c\<in>set (take n s). c \<noteq> NUL"
    using assms(1) by (metis in_set_takeD)
  moreover have "replicate (n - length s) NUL @ replicate (256 - n) NUL = []
      \<or> hd (replicate (n - length s) NUL @ replicate (256 - n) NUL) = NUL"
    using ok by (simp add: hd_append)
  ultimately show ?thesis
    unfolding c_str_def b by (intro takeWhile_append_stop) auto
qed

lemma strncpy_total:
  "\<lbrakk>buf_ok lim dst; n \<le> lim\<rbrakk> \<Longrightarrow> \<exists>b. strncpy dst (Some s) n = Inr b"
  by (simp add: strncpy_def buf_ok_def)

subsection \<open>Tokens\<close>

text \<open>The words of a line: its maximal runs of characters other than the delimiter.\<close>

function tokens :: "char \<Rightarrow> string \<Rightarrow> string list" where
  "tokens d s =
     (case strtok d s of None \<Rightarrow> [] | Some (t, r) \<Rightarrow> t # tokens d r)"
  by pat_completeness auto
termination
proof (relation "measure (\<lambda>(d, s). length s)")
  fix d :: char and s :: string and x t r
  assume x: "strtok d s = Some x" "(t, r) = x"
  let ?t = "dropWhile (\<lambda>c. c = d) s"
  have ne: "?t \<noteq> []" and r: "r = tl (dropWhile (\<lambda>c. c \<noteq> d) ?t)"
    using x by (auto simp: strtok_def Let_def split: if_splits)
  have "length r \<le> length (dropWhile (\<lambda>c. c \<noteq> d) ?t) - 1"
    using r by simp
  also have "\<dots> < length ?t"
    using ne length_dropWhile_le [of "\<lambda>c. c \<noteq> d" ?t] by (cases ?t) auto
  also have "length ?t \<le> length s"
    by (rule length_dropWhile_le)
  finally show "((d, r), (d, s)) \<in> measure (\<lambda>(d, s). length s)"
    by simp
qed simp

declare tokens.simps [simp del]

lemma tokens_None: "strtok d s = None \<Longrightarrow> tokens d s = []"
  by (subst tokens.simps) simp

lemma tokens_Some: "strtok d s = Some (t, r) \<Longrightarrow> tokens d s = t # tokens d r"
  by (subst tokens.simps) simp

lemma strtok_set: "strtok d s = Some (t, r) \<Longrightarrow> set t \<subseteq> set s \<and> set r \<subseteq> set s"
  by (auto simp: strtok_def Let_def dest!: set_takeWhileD in_set_dropD list.set_sel(2)
      set_dropWhileD split: if_splits)
    (metis list.sel(2) list.set_sel(2) set_dropWhileD)+

lemma strtok_word:
  assumes "w \<noteq> []" and "d \<notin> set w"
  shows "strtok d (w @ d # r) = Some (w, r)" and "strtok d w = Some (w, [])"
proof -
  obtain x xs where w: "w = x # xs" "x \<noteq> d"
    using assms by (cases w) auto
  have all: "\<forall>c\<in>set w. c \<noteq> d"
    using assms(2) by auto
  have t: "takeWhile (\<lambda>c. c \<noteq> d) (w @ d # r) = w" "dropWhile (\<lambda>c. c \<noteq> d) (w @ d # r) = d # r"
    using all by (auto intro: takeWhile_append_stop dropWhile_append_stop)
  have u: "takeWhile (\<lambda>c. c \<noteq> d) w = w" "dropWhile (\<lambda>c. c \<noteq> d) w = []"
    using all by (auto simp: dropWhile_eq_Nil_conv takeWhile_eq_all_conv)
  have v: "dropWhile (\<lambda>c. c = d) (w @ d # r) = w @ d # r" "dropWhile (\<lambda>c. c = d) w = w"
    using w by simp_all
  show "strtok d (w @ d # r) = Some (w, r)"
    using t v(1) w(1) by (simp add: strtok_def Let_def)
  show "strtok d w = Some (w, [])"
    using u v(2) w(1) by (simp add: strtok_def Let_def)
qed

subsection \<open>Reading lines\<close>

lemma fgets_shorter:
  "\<lbrakk>fgets n s = Some (l, r); 1 < n\<rbrakk> \<Longrightarrow> length r < length s"
  by (cases s) (auto simp: fgets_def Let_def take_Cons' split: if_splits)

lemma line_prefix: "prefix (takeWhile (\<lambda>c. c \<noteq> x) m @ (if x \<in> set m then [x] else [])) m"
  by (induction m) auto

lemma fgets_line_prefix: "fgets n s = Some (l, r) \<Longrightarrow> prefix l (take (n - 1) s) \<and> r = drop (length l) s"
  by (auto simp: fgets_def Let_def line_prefix split: if_splits
      simp del: prefix_snoc) (metis line_prefix append_Nil2)+

lemma fgets_partition: "fgets n s = Some (l, r) \<Longrightarrow> l @ r = s"
proof -
  assume "fgets n s = Some (l, r)"
  then have l: "prefix l (take (n - 1) s)" and r: "r = drop (length l) s"
    by (auto dest: fgets_line_prefix)
  have "prefix l s"
    using l take_is_prefix prefix_order.trans by blast
  then show ?thesis
    using r by (auto simp: prefix_def)
qed

lemma fgets_bound: "\<lbrakk>fgets n s = Some (l, r); 0 < n\<rbrakk> \<Longrightarrow> length l < n"
  by (drule fgets_line_prefix) (auto dest!: prefix_length_le)

lemma fgets_line:
  assumes "NL \<notin> set l" and "Suc (length l) < n"
  shows "fgets n (l @ NL # r) = Some (l @ [NL], r)"
proof -
  have "take (n - 1) (l @ NL # r) = l @ NL # take (n - 1 - Suc (length l)) r"
    using assms(2) by (simp add: take_Cons' not_less)
  moreover have "takeWhile (\<lambda>c. c \<noteq> NL) (l @ NL # q) = l" for q
    using assms(1) by (auto intro: takeWhile_append_stop)
  ultimately show ?thesis
    by (simp add: fgets_def Let_def)
qed

end
