(* ===== verification/Globals.thy ===== *)
theory Globals
  imports CString
begin

section \<open>Global resources: globals.h, globals.c, debug.c\<close>

text \<open>
  The configuration record \<open>t_global_v\<close>, its initialisation \<open>Globals_Init\<close> and the
  two message functions of \<open>debug.c\<close>. Each \<open>char x[256]\<close> of the struct is a list of
  256 characters; \<open>unsigned int\<close> is a 32-bit word, so the code's \<open>-1\<close> for "not
  set" is the largest word; the two pipe arrays are pairs of descriptors. The invariant
  \<open>wf_globals\<close> says how far each array can have been written, and so that each holds a
  terminated string.
\<close>

subsection \<open>Data\<close>

definition MAX_IN_CONNECTIONS :: nat where "MAX_IN_CONNECTIONS = 50"

definition NUMBER_PLUGINS :: nat where "NUMBER_PLUGINS = 1"

definition TCP_PLUGIN :: int where "TCP_PLUGIN = 0"

definition SIP_PLUGIN :: int where "SIP_PLUGIN = 1"

definition SERVER_MODE :: int where "SERVER_MODE = 0"

definition CLIENT_MODE :: int where "CLIENT_MODE = 1"

definition BLOCK_SIZE :: nat where "BLOCK_SIZE = 1505"

lemmas global_consts =
  MAX_IN_CONNECTIONS_def NUMBER_PLUGINS_def TCP_PLUGIN_def SIP_PLUGIN_def
  SERVER_MODE_def CLIENT_MODE_def BLOCK_SIZE_def

record t_global_v =
  g_verbose :: int
  g_debug :: int
  g_mode :: int
  g_configfile :: "char list"
  g_remote_host :: "char list"
  g_plugin :: int
  g_plugin_name :: "char list"
  g_local_ip :: "char list"
  g_local_netmask :: "char list"
  g_remote_ip :: "char list"
  g_remote_port :: "32 word"
  g_local_port :: "32 word"
  g_sip_port :: "32 word"
  g_sip_transport :: "char list"
  g_sip_remoteuri :: "char list"
  g_sip_fromuri :: "char list"
  g_sip_proxy :: "char list"
  g_pipe_from_plugin :: "int \<times> int"
  g_pipe_to_plugin :: "int \<times> int"

text \<open>The object has static storage duration, so it starts as zeros.\<close>

definition global_v_zero :: t_global_v where
  "global_v_zero =
     \<lparr>g_verbose = 0, g_debug = 0, g_mode = 0,
      g_configfile = replicate 256 NUL, g_remote_host = replicate 256 NUL,
      g_plugin = 0, g_plugin_name = replicate 256 NUL,
      g_local_ip = replicate 256 NUL, g_local_netmask = replicate 256 NUL,
      g_remote_ip = replicate 256 NUL, g_remote_port = 0, g_local_port = 0,
      g_sip_port = 0, g_sip_transport = replicate 256 NUL,
      g_sip_remoteuri = replicate 256 NUL, g_sip_fromuri = replicate 256 NUL,
      g_sip_proxy = replicate 256 NUL,
      g_pipe_from_plugin = (0, 0), g_pipe_to_plugin = (0, 0)\<rparr>"

subsection \<open>Operations\<close>

definition Globals_Init :: "t_global_v \<Rightarrow> t_global_v res" where
  "Globals_Init g =
     (let g = g\<lparr>g_verbose := 0, g_debug := 10, g_mode := - 1\<rparr>;
          none = Some ''none''; n = length ''none'' in
      res_bind (strncpy (g_configfile g) none n) (\<lambda>b.
        let g = g\<lparr>g_configfile := b\<rparr> in
      res_bind (strncpy (g_remote_host g) none n) (\<lambda>b.
        let g = g\<lparr>g_remote_host := b, g_plugin := - 1\<rparr> in
      res_bind (strncpy (g_plugin_name g) none n) (\<lambda>b.
        let g = g\<lparr>g_plugin_name := b\<rparr> in
      res_bind (strncpy (g_local_ip g) none n) (\<lambda>b.
        let g = g\<lparr>g_local_ip := b\<rparr> in
      res_bind (strncpy (g_remote_ip g) none n) (\<lambda>b.
        Inr (g\<lparr>g_remote_ip := b, g_remote_port := - 1, g_local_port := - 1\<rparr>)))))))"

text \<open>
  The message functions: \<open>msg\<close> is the text that \<open>vfprintf\<close> makes of the format and
  its arguments, and the result is what has been written to the stream so far.
\<close>

definition debug_msg :: "t_global_v \<Rightarrow> int \<Rightarrow> string \<Rightarrow> string \<Rightarrow> string" where
  "debug_msg g level msg out =
     (if g_debug g > level then out @ ''Debug INFO:  '' @ msg @ [NL] else out)"

definition debug_error :: "string \<Rightarrow> string \<Rightarrow> string" where
  "debug_error msg err = err @ ''Error:  '' @ msg @ [NL]"

subsection \<open>The invariant of the configuration\<close>

text \<open>
  Configuration values are copied with a limit of 50 characters, the name of the
  configuration file with 200.
\<close>

definition wf_globals :: "t_global_v \<Rightarrow> bool" where
  "wf_globals g \<longleftrightarrow>
     buf_ok 200 (g_configfile g) \<and> buf_ok 50 (g_remote_host g) \<and> buf_ok 50 (g_plugin_name g) \<and>
     buf_ok 50 (g_local_ip g) \<and> buf_ok 50 (g_local_netmask g) \<and> buf_ok 50 (g_remote_ip g) \<and>
     buf_ok 50 (g_sip_transport g) \<and> buf_ok 50 (g_sip_remoteuri g) \<and>
     buf_ok 50 (g_sip_fromuri g) \<and> buf_ok 50 (g_sip_proxy g)"

lemma wf_global_v_zero: "wf_globals global_v_zero"
  by (simp add: wf_globals_def global_v_zero_def buf_ok_zero)

text \<open>
  \<open>Globals_Init\<close> copies the four characters of "none" without their terminator: the
  arrays are strings afterwards because they were zero before.
\<close>

definition none_buf :: "char list" where
  "none_buf = ''none'' @ replicate 252 NUL"

lemma strncpy_none_zero:
  "strncpy (replicate 256 NUL) (Some ''none'') (length ''none'') = Inr none_buf"
  by (simp add: strncpy_def none_buf_def)

lemma c_str_none_buf [simp]: "c_str none_buf = ''none''"
  by (simp add: c_str_def none_buf_def)

lemma c_str_zero [simp]: "c_str (replicate 256 NUL) = []"
  by (simp add: c_str_def)

lemma buf_ok_none: "4 \<le> lim \<Longrightarrow> lim < 256 \<Longrightarrow> buf_ok lim none_buf"
  using buf_ok_padded [of "''none''" lim] by (simp add: none_buf_def)

definition globals_init :: t_global_v where
  "globals_init = global_v_zero
     \<lparr>g_debug := 10, g_mode := - 1, g_configfile := none_buf, g_remote_host := none_buf,
      g_plugin := - 1, g_plugin_name := none_buf, g_local_ip := none_buf, g_remote_ip := none_buf,
      g_remote_port := - 1, g_local_port := - 1\<rparr>"

lemma Globals_Init_zero: "Globals_Init global_v_zero = Inr globals_init"
  by (simp add: Globals_Init_def globals_init_def global_v_zero_def strncpy_none_zero Let_def
      del: list.size)

lemma wf_globals_init [wf_keep]: "wf_globals globals_init"
  by (simp add: globals_init_def wf_globals_def global_v_zero_def buf_ok_zero buf_ok_none)

definition string_fields :: "t_global_v \<Rightarrow> char list list" where
  "string_fields g =
     [g_configfile g, g_remote_host g, g_plugin_name g, g_local_ip g, g_local_netmask g,
      g_remote_ip g, g_sip_transport g, g_sip_remoteuri g, g_sip_fromuri g, g_sip_proxy g]"

lemma wf_globals_terminated: "wf_globals g \<Longrightarrow> list_all terminated (string_fields g)"
  by (auto simp: wf_globals_def string_fields_def intro: buf_ok_terminated)

end
