(* ===== verification/Parser.thy ===== *)
theory Parser
  imports Globals
begin

section \<open>The configuration parser: parser.c\<close>

text \<open>
  \<open>ParseOption\<close> is the chain of \<open>strncmp\<close> tests of \<open>parser.c\<close>, test for test
  and in its order, over the line as a C string; \<open>ParseConfigFile\<close> is the loop over
  \<open>fgets\<close>. Both return the C result (0 or -1) with the new configuration, or the
  undefined behaviour they run into: a line whose option has no value passes the NULL of
  \<open>strtok\<close> on. The parameter \<open>nline\<close> of \<open>ParseOption\<close> only appears in messages
  and is left out.
\<close>

subsection \<open>The code\<close>

definition MAX_LINE :: nat where "MAX_LINE = 4096"

text \<open>\<open>strtok(NULL," ")\<close>, its saved pointer being \<open>rest\<close>.\<close>

definition next_token :: "string \<Rightarrow> string option" where
  "next_token rest = map_option fst (strtok SPC rest)"

definition ParseOption :: "string \<Rightarrow> t_global_v \<Rightarrow> (int \<times> t_global_v) res" where
  "ParseOption option g =
    (if CHR ''#'' \<in> set option then Inr (0, g)
     else if option = [] then Inr (0, g)
     else case strtok SPC option of None \<Rightarrow> Inl NullDeref | Some (command, rest) \<Rightarrow>
     if strncmp_eq command ''remote_host'' (length ''remote_host'') then
       res_bind (strncpy (g_remote_host g) (next_token rest) 50)
         (\<lambda>b. Inr (0, g\<lparr>g_remote_host := b\<rparr>))
     else if strncmp_eq command ''remote_port'' (length ''remote_port'') then
       res_bind (atoi (next_token rest)) (\<lambda>n.
         if n = 0 then Inr (- 1, g) else Inr (0, g\<lparr>g_remote_port := n\<rparr>))
     else if strncmp_eq command ''local_port'' (length ''local_port'') then
       res_bind (atoi (next_token rest)) (\<lambda>n.
         if n = 0 then Inr (- 1, g) else Inr (0, g\<lparr>g_local_port := n\<rparr>))
     else if strncmp_eq command ''local_ip'' (length ''local_ip'') then
       res_bind (strncpy (g_local_ip g) (next_token rest) 50)
         (\<lambda>b. Inr (0, g\<lparr>g_local_ip := b\<rparr>))
     else if strncmp_eq command ''local_netmask'' (length ''local_nemask'') then
       res_bind (strncpy (g_local_netmask g) (next_token rest) 50)
         (\<lambda>b. Inr (0, g\<lparr>g_local_netmask := b\<rparr>))
     else if strncmp_eq command ''remote_ip'' (length ''remote_ip'') then
       res_bind (strncpy (g_remote_ip g) (next_token rest) 50)
         (\<lambda>b. Inr (0, g\<lparr>g_remote_ip := b\<rparr>))
     else if strncmp_eq command ''plugin'' (length ''plugin'') then
       res_bind (strncpy (g_plugin_name g) (next_token rest) 50)
         (\<lambda>b. Inr (0, g\<lparr>g_plugin_name := b\<rparr>))
     else if strncmp_eq command ''mode'' (length ''mode'') then
       (case next_token rest of None \<Rightarrow> Inl NullDeref | Some command \<Rightarrow>
        if strncmp_eq command ''server'' (length ''server'') then
          Inr (0, g\<lparr>g_mode := SERVER_MODE\<rparr>)
        else if strncmp_eq command ''client'' (length ''client'') then
          Inr (0, g\<lparr>g_mode := CLIENT_MODE\<rparr>)
        else Inr (0, g))
     else if strncmp_eq command ''sip_port'' (length ''sip_port'') then
       res_bind (atoi (next_token rest)) (\<lambda>n.
         if n = 0 then Inr (- 1, g) else Inr (0, g\<lparr>g_sip_port := n\<rparr>))
     else if strncmp_eq command ''sip_transport'' (length ''sip_transport'') then
       res_bind (strncpy (g_sip_transport g) (next_token rest) 50)
         (\<lambda>b. Inr (0, g\<lparr>g_sip_transport := b\<rparr>))
     else if strncmp_eq command ''sip_proxy'' (length ''sip_proxy'') then
       res_bind (strncpy (g_sip_proxy g) (next_token rest) 50)
         (\<lambda>b. Inr (0, g\<lparr>g_sip_proxy := b\<rparr>))
     else if strncmp_eq command ''sip_remoteuri'' (length ''sip_remoteuri'') then
       res_bind (strncpy (g_sip_remoteuri g) (next_token rest) 50)
         (\<lambda>b. Inr (0, g\<lparr>g_sip_remoteuri := b\<rparr>))
     else if strncmp_eq command ''sip_fromuri'' (length ''sip_fromuri'') then
       res_bind (strncpy (g_sip_fromuri g) (next_token rest) 50)
         (\<lambda>b. Inr (0, g\<lparr>g_sip_fromuri := b\<rparr>))
     else Inr (0, g))"

text \<open>
  One pass of the loop works on the C string of the line buffer, cut at its first newline.
\<close>

definition line_of :: "string \<Rightarrow> string" where
  "line_of chunk = takeWhile (\<lambda>c. c \<noteq> NL) (c_str chunk)"

function parse_lines :: "string \<Rightarrow> t_global_v \<Rightarrow> (int \<times> t_global_v) res" where
  "parse_lines content g =
     (case fgets MAX_LINE content of
        None \<Rightarrow> Inr (0, g)
      | Some (chunk, rest) \<Rightarrow>
          (case ParseOption (line_of chunk) g of
             Inl e \<Rightarrow> Inl e
           | Inr (rc, g') \<Rightarrow> if rc \<noteq> 0 then Inr (- 1, g') else parse_lines rest g'))"
  by pat_completeness auto
termination
  by (relation "measure (\<lambda>(content, g). length content)")
    (auto dest: fgets_shorter simp: MAX_LINE_def)

declare parse_lines.simps [simp del]

text \<open>The file is \<open>None\<close> when \<open>fopen\<close> fails, else its bytes.\<close>

definition ParseConfigFile :: "string option \<Rightarrow> t_global_v \<Rightarrow> (int \<times> t_global_v) res" where
  "ParseConfigFile file g =
     (case file of None \<Rightarrow> Inr (- 1, g) | Some content \<Rightarrow> parse_lines content g)"

end
