(* ===== verification/Parser_Spec.thy ===== *)
theory Parser_Spec
  imports Parser
begin

section \<open>The abstract parser\<close>

text \<open>
  Settings by keyword: the parser as a table of keywords and a map from settings to values, and the
  proof that the chain of tests of the code, and the loop over a file, implement it.
\<close>

subsection \<open>What the parser promises: settings by keyword\<close>

text \<open>
  Seen from outside, the configuration is a value per setting, and a line is a keyword and
  a value separated by spaces. \<open>spec_line\<close> looks the keyword up in a table; the keyword
  of \<open>local_netmask\<close> is the 12 characters that the code compares.
\<close>

datatype setting =
  RemoteHost | RemotePort | LocalPort | LocalIp | LocalNetmask | RemoteIp | PluginName | Mode
  | SipPort | SipTransport | SipProxy | SipRemoteuri | SipFromuri

datatype setting_value = Text string | Port "32 word" | ModeNo int

definition view :: "t_global_v \<Rightarrow> setting \<Rightarrow> setting_value" where
  "view g k =
     (case k of
        RemoteHost \<Rightarrow> Text (c_str (g_remote_host g)) | RemotePort \<Rightarrow> Port (g_remote_port g)
      | LocalPort \<Rightarrow> Port (g_local_port g) | LocalIp \<Rightarrow> Text (c_str (g_local_ip g))
      | LocalNetmask \<Rightarrow> Text (c_str (g_local_netmask g))
      | RemoteIp \<Rightarrow> Text (c_str (g_remote_ip g))
      | PluginName \<Rightarrow> Text (c_str (g_plugin_name g)) | Mode \<Rightarrow> ModeNo (g_mode g)
      | SipPort \<Rightarrow> Port (g_sip_port g) | SipTransport \<Rightarrow> Text (c_str (g_sip_transport g))
      | SipProxy \<Rightarrow> Text (c_str (g_sip_proxy g))
      | SipRemoteuri \<Rightarrow> Text (c_str (g_sip_remoteuri g))
      | SipFromuri \<Rightarrow> Text (c_str (g_sip_fromuri g)))"

definition keyword_table :: "(string \<times> setting) list" where
  "keyword_table =
     [(''sip_fromuri'', SipFromuri), (''sip_remoteuri'', SipRemoteuri), (''sip_proxy'', SipProxy),
      (''sip_transport'', SipTransport), (''sip_port'', SipPort), (''mode'', Mode),
      (''plugin'', PluginName), (''remote_ip'', RemoteIp), (''local_netmas'', LocalNetmask),
      (''local_ip'', LocalIp), (''local_port'', LocalPort), (''remote_port'', RemotePort),
      (''remote_host'', RemoteHost)]"

definition setting_of :: "string \<Rightarrow> setting option" where
  "setting_of cmd = map_option snd (find (\<lambda>(w, k). prefix w cmd) keyword_table)"

definition port_value :: "string \<Rightarrow> 32 word" where
  "port_value v = word_of_int (clamp_long (strtol10 v))"

definition store_value ::
    "setting \<Rightarrow> string \<Rightarrow> (setting \<Rightarrow> setting_value) \<Rightarrow> int \<times> (setting \<Rightarrow> setting_value)" where
  "store_value k v c =
     (if k \<in> {RemotePort, LocalPort, SipPort} then
        (if port_value v = 0 then (- 1, c) else (0, c(k := Port (port_value v))))
      else if k = Mode then
        (0, if prefix ''server'' v then c(Mode := ModeNo SERVER_MODE)
            else if prefix ''client'' v then c(Mode := ModeNo CLIENT_MODE) else c)
      else (0, c(k := Text (take 50 v))))"

definition spec_line ::
    "string \<Rightarrow> (setting \<Rightarrow> setting_value) \<Rightarrow> (int \<times> (setting \<Rightarrow> setting_value)) res" where
  "spec_line line c =
     (if CHR ''#'' \<in> set line \<or> line = [] then Inr (0, c)
      else case tokens SPC line of
        [] \<Rightarrow> Inl NullDeref
      | cmd # args \<Rightarrow>
          (case setting_of cmd of
             None \<Rightarrow> Inr (0, c)
           | Some k \<Rightarrow> (case args of [] \<Rightarrow> Inl NullDeref | v # _ \<Rightarrow> Inr (store_value k v c))))"

lemma view_update [simp]:
  "view (g\<lparr>g_remote_host := b\<rparr>) = (view g)(RemoteHost := Text (c_str b))"
  "view (g\<lparr>g_local_ip := b\<rparr>) = (view g)(LocalIp := Text (c_str b))"
  "view (g\<lparr>g_local_netmask := b\<rparr>) = (view g)(LocalNetmask := Text (c_str b))"
  "view (g\<lparr>g_remote_ip := b\<rparr>) = (view g)(RemoteIp := Text (c_str b))"
  "view (g\<lparr>g_plugin_name := b\<rparr>) = (view g)(PluginName := Text (c_str b))"
  "view (g\<lparr>g_sip_transport := b\<rparr>) = (view g)(SipTransport := Text (c_str b))"
  "view (g\<lparr>g_sip_proxy := b\<rparr>) = (view g)(SipProxy := Text (c_str b))"
  "view (g\<lparr>g_sip_remoteuri := b\<rparr>) = (view g)(SipRemoteuri := Text (c_str b))"
  "view (g\<lparr>g_sip_fromuri := b\<rparr>) = (view g)(SipFromuri := Text (c_str b))"
  "view (g\<lparr>g_remote_port := n\<rparr>) = (view g)(RemotePort := Port n)"
  "view (g\<lparr>g_local_port := n\<rparr>) = (view g)(LocalPort := Port n)"
  "view (g\<lparr>g_sip_port := n\<rparr>) = (view g)(SipPort := Port n)"
  "view (g\<lparr>g_mode := m\<rparr>) = (view g)(Mode := ModeNo m)"
  by (auto simp: fun_eq_iff view_def split: setting.split)

text \<open>No keyword is a prefix of another, so at most one test of the chain can succeed.\<close>

lemma keywords_prefix_free:
  "\<forall>(w, k)\<in>set keyword_table. \<forall>(w', k')\<in>set keyword_table. prefix w w' \<longrightarrow> (w, k) = (w', k')"
  by (simp add: keyword_table_def)

lemma keywords_unique:
  assumes "(w, k) \<in> set keyword_table" "(w', k') \<in> set keyword_table" "prefix w cmd" "prefix w' cmd"
  shows "w = w' \<and> k = k'"
proof -
  have "prefix w w' \<or> prefix w' w"
    using assms(3,4) by (rule prefix_same_cases)
  then show ?thesis
    using assms(1,2) keywords_prefix_free by fastforce
qed

lemma setting_of_iff: "setting_of cmd = Some k \<longleftrightarrow> (\<exists>w. (w, k) \<in> set keyword_table \<and> prefix w cmd)"
proof
  assume "setting_of cmd = Some k"
  then show "\<exists>w. (w, k) \<in> set keyword_table \<and> prefix w cmd"
    by (auto simp: setting_of_def find_Some_iff) (metis nth_mem)
next
  assume "\<exists>w. (w, k) \<in> set keyword_table \<and> prefix w cmd"
  then obtain w where w: "(w, k) \<in> set keyword_table" "prefix w cmd"
    by blast
  then have "find (\<lambda>(w, k). prefix w cmd) keyword_table \<noteq> None"
    by (auto simp: find_None_iff)
  then obtain w' k' where f: "find (\<lambda>(w, k). prefix w cmd) keyword_table = Some (w', k')"
    by auto
  then have "(w', k') \<in> set keyword_table" "prefix w' cmd"
    by (auto simp: find_Some_iff) (metis nth_mem)
  then show "setting_of cmd = Some k"
    using f keywords_unique w by (auto simp: setting_of_def)
qed

subsection \<open>The chain of tests implements the table\<close>

lemma next_token_tokens:
  "next_token rest = (case tokens SPC rest of [] \<Rightarrow> None | v # _ \<Rightarrow> Some v)"
  by (cases "strtok SPC rest") (auto simp: next_token_def tokens_None tokens_Some)

lemma next_token_set: "next_token rest = Some v \<Longrightarrow> set v \<subseteq> set rest"
  by (auto simp: next_token_def dest: strtok_set)

lemma strncmp_keyword [simp]:
  "strncmp_eq command (w @ x) (length w) \<longleftrightarrow> prefix w command"
  by (simp add: strncmp_eq_take prefix_def) (metis append_eq_conv_conj append_take_drop_id)

lemmas strncmp_whole = strncmp_eq_prefix

lemma strncmp_netmask:
  "strncmp_eq command ''local_netmask'' (length ''local_nemask'') \<longleftrightarrow> prefix ''local_netmas'' command"
  using strncmp_keyword [of command "''local_netmas''" "''k''"] by simp

text \<open>The three kinds of branch: a string, a port, the mode.\<close>

lemma text_branch:
  assumes "buf_ok 50 b" and "NUL \<notin> set rest"
    and "\<And>b'. view (upd b') = (view g)(k := Text (c_str b'))"
  shows "map_sum id (map_prod id view)
           (res_bind (strncpy b (next_token rest) 50) (\<lambda>b'. Inr (0, upd b')))
         = (case next_token rest of None \<Rightarrow> Inl NullDeref
            | Some v \<Rightarrow> Inr (0, (view g)(k := Text (take 50 v))))"
proof (cases "next_token rest")
  case (Some v)
  then obtain b' where b': "strncpy b (Some v) 50 = Inr b'"
    using strncpy_total [OF assms(1)] by auto
  have "NUL \<notin> set v"
    using next_token_set [OF Some] assms(2) by auto
  then have "c_str b' = take 50 v"
    using c_str_strncpy assms(1) b' by blast
  then show ?thesis
    using Some b' assms(3) by simp
qed simp

lemma port_branch:
  assumes "\<And>n. view (upd n) = (view g)(k := Port n)"
  shows "map_sum id (map_prod id view)
           (res_bind (atoi (next_token rest)) (\<lambda>n. if n = 0 then Inr (- 1, g) else Inr (0, upd n)))
         = (case next_token rest of None \<Rightarrow> Inl NullDeref
            | Some v \<Rightarrow> Inr (if port_value v = 0 then (- 1, view g)
                             else (0, (view g)(k := Port (port_value v)))))"
  using assms by (auto simp: atoi_def port_value_def split: option.split)

lemma mode_branch:
  "map_sum id (map_prod id view)
     (case next_token rest of None \<Rightarrow> Inl NullDeref | Some command \<Rightarrow>
        if strncmp_eq command ''server'' (length ''server'') then
          Inr (0, g\<lparr>g_mode := SERVER_MODE\<rparr>)
        else if strncmp_eq command ''client'' (length ''client'') then
          Inr (0, g\<lparr>g_mode := CLIENT_MODE\<rparr>)
        else Inr (0, g))
   = (case next_token rest of None \<Rightarrow> Inl NullDeref
      | Some v \<Rightarrow> Inr (store_value Mode v (view g)))"
  by (simp add: strncmp_whole store_value_def split: option.split del: list.size)

lemma setting_of_None:
  "setting_of cmd = None \<longleftrightarrow> (\<forall>(w, k)\<in>set keyword_table. \<not> prefix w cmd)"
  by (auto simp: setting_of_def find_None_iff)

lemma setting_of_chain:
  "setting_of cmd =
    (if prefix ''remote_host'' cmd then Some RemoteHost
     else if prefix ''remote_port'' cmd then Some RemotePort
     else if prefix ''local_port'' cmd then Some LocalPort
     else if prefix ''local_ip'' cmd then Some LocalIp
     else if prefix ''local_netmas'' cmd then Some LocalNetmask
     else if prefix ''remote_ip'' cmd then Some RemoteIp
     else if prefix ''plugin'' cmd then Some PluginName
     else if prefix ''mode'' cmd then Some Mode
     else if prefix ''sip_port'' cmd then Some SipPort
     else if prefix ''sip_transport'' cmd then Some SipTransport
     else if prefix ''sip_proxy'' cmd then Some SipProxy
     else if prefix ''sip_remoteuri'' cmd then Some SipRemoteuri
     else if prefix ''sip_fromuri'' cmd then Some SipFromuri
     else None)"
  by (simp add: setting_of_iff setting_of_None keyword_table_def)


lemma wf_globals_bufs:
  assumes "wf_globals g"
  shows "buf_ok 50 (g_remote_host g)" "buf_ok 50 (g_plugin_name g)" "buf_ok 50 (g_local_ip g)"
    "buf_ok 50 (g_local_netmask g)" "buf_ok 50 (g_remote_ip g)" "buf_ok 50 (g_sip_transport g)"
    "buf_ok 50 (g_sip_remoteuri g)" "buf_ok 50 (g_sip_fromuri g)" "buf_ok 50 (g_sip_proxy g)"
  using assms by (simp_all add: wf_globals_def)

lemma spec_line_command:
  assumes "CHR ''#'' \<notin> set line" "line \<noteq> []" "strtok SPC line = Some (command, rest)"
  shows "spec_line line c =
    (case setting_of command of None \<Rightarrow> Inr (0, c)
     | Some k \<Rightarrow> (case next_token rest of None \<Rightarrow> Inl NullDeref
                 | Some v \<Rightarrow> Inr (store_value k v c)))"
  using assms
  by (auto simp: spec_line_def tokens_Some next_token_tokens split: option.split list.split)

lemma ParseOption_command:
  assumes "\<not> (CHR ''#'' \<in> set line \<or> line = [])" "strtok SPC line = Some (command, rest)"
  shows "ParseOption line g =
    (if prefix ''remote_host'' command then
       res_bind (strncpy (g_remote_host g) (next_token rest) 50)
         (\<lambda>b. Inr (0, g\<lparr>g_remote_host := b\<rparr>))
     else if prefix ''remote_port'' command then
       res_bind (atoi (next_token rest)) (\<lambda>n.
         if n = 0 then Inr (- 1, g) else Inr (0, g\<lparr>g_remote_port := n\<rparr>))
     else if prefix ''local_port'' command then
       res_bind (atoi (next_token rest)) (\<lambda>n.
         if n = 0 then Inr (- 1, g) else Inr (0, g\<lparr>g_local_port := n\<rparr>))
     else if prefix ''local_ip'' command then
       res_bind (strncpy (g_local_ip g) (next_token rest) 50)
         (\<lambda>b. Inr (0, g\<lparr>g_local_ip := b\<rparr>))
     else if prefix ''local_netmas'' command then
       res_bind (strncpy (g_local_netmask g) (next_token rest) 50)
         (\<lambda>b. Inr (0, g\<lparr>g_local_netmask := b\<rparr>))
     else if prefix ''remote_ip'' command then
       res_bind (strncpy (g_remote_ip g) (next_token rest) 50)
         (\<lambda>b. Inr (0, g\<lparr>g_remote_ip := b\<rparr>))
     else if prefix ''plugin'' command then
       res_bind (strncpy (g_plugin_name g) (next_token rest) 50)
         (\<lambda>b. Inr (0, g\<lparr>g_plugin_name := b\<rparr>))
     else if prefix ''mode'' command then
       (case next_token rest of None \<Rightarrow> Inl NullDeref | Some v \<Rightarrow>
        if strncmp_eq v ''server'' (length ''server'') then Inr (0, g\<lparr>g_mode := SERVER_MODE\<rparr>)
        else if strncmp_eq v ''client'' (length ''client'') then
          Inr (0, g\<lparr>g_mode := CLIENT_MODE\<rparr>)
        else Inr (0, g))
     else if prefix ''sip_port'' command then
       res_bind (atoi (next_token rest)) (\<lambda>n.
         if n = 0 then Inr (- 1, g) else Inr (0, g\<lparr>g_sip_port := n\<rparr>))
     else if prefix ''sip_transport'' command then
       res_bind (strncpy (g_sip_transport g) (next_token rest) 50)
         (\<lambda>b. Inr (0, g\<lparr>g_sip_transport := b\<rparr>))
     else if prefix ''sip_proxy'' command then
       res_bind (strncpy (g_sip_proxy g) (next_token rest) 50)
         (\<lambda>b. Inr (0, g\<lparr>g_sip_proxy := b\<rparr>))
     else if prefix ''sip_remoteuri'' command then
       res_bind (strncpy (g_sip_remoteuri g) (next_token rest) 50)
         (\<lambda>b. Inr (0, g\<lparr>g_sip_remoteuri := b\<rparr>))
     else if prefix ''sip_fromuri'' command then
       res_bind (strncpy (g_sip_fromuri g) (next_token rest) 50)
         (\<lambda>b. Inr (0, g\<lparr>g_sip_fromuri := b\<rparr>))
     else Inr (0, g))"
proof -
  have c: "CHR ''#'' \<notin> set line" "line \<noteq> []"
    using assms(1) by auto
  show ?thesis
    unfolding ParseOption_def assms(2) option.case prod.case if_not_P [OF c(1)] if_not_P [OF c(2)]
      strncmp_netmask strncmp_whole ..
qed

lemma chain_case:
  "(case (if b then x else y) of None \<Rightarrow> n | Some k \<Rightarrow> f k)
   = (if b then (case x of None \<Rightarrow> n | Some k \<Rightarrow> f k) else (case y of None \<Rightarrow> n | Some k \<Rightarrow> f k))"
  by simp

lemma ParseOption_square:
  assumes "wf_globals g" and "NUL \<notin> set line"
  shows "map_sum id (map_prod id view) (ParseOption line g) = spec_line line (view g)"
proof (cases "CHR ''#'' \<in> set line \<or> line = []")
  case True
  then show ?thesis
    by (auto simp: ParseOption_def spec_line_def)
next
  case False
  show ?thesis
  proof (cases "strtok SPC line")
    case None
    then show ?thesis
      using False by (simp add: ParseOption_def spec_line_def tokens_None)
  next
    case (Some p)
    then obtain command rest where tok: "strtok SPC line = Some (command, rest)"
      by (cases p) auto
    have nul: "NUL \<notin> set rest"
      using strtok_set [OF tok] assms(2) by auto
    have spec: "spec_line line (view g) =
      (case setting_of command of None \<Rightarrow> Inr (0, view g)
       | Some k \<Rightarrow> (case next_token rest of None \<Rightarrow> Inl NullDeref
                   | Some v \<Rightarrow> Inr (store_value k v (view g))))"
      using False by (intro spec_line_command tok) auto
    show ?thesis
      unfolding spec ParseOption_command [OF False tok] setting_of_chain
      by (simp only: if_distrib [of "map_sum id (map_prod id view)"] chain_case option.case)
        (intro if_cong refl; simp add: text_branch wf_globals_bufs [OF assms(1)] nul port_branch
          mode_branch store_value_def del: list.size split: option.split)
  qed
qed


subsection \<open>Whole files\<close>

text \<open>The chunks that successive calls of \<open>fgets\<close> return, and a run over their lines.\<close>

function chunks :: "string \<Rightarrow> string list" where
  "chunks content =
     (case fgets MAX_LINE content of None \<Rightarrow> [] | Some (chunk, rest) \<Rightarrow> chunk # chunks rest)"
  by pat_completeness auto
termination
  by (relation "measure length") (auto dest: fgets_shorter simp: MAX_LINE_def)

declare chunks.simps [simp del]

fun spec_run ::
    "string list \<Rightarrow> (setting \<Rightarrow> setting_value) \<Rightarrow> (int \<times> (setting \<Rightarrow> setting_value)) res" where
  "spec_run [] c = Inr (0, c)"
| "spec_run (l # ls) c =
     (case spec_line l c of
        Inl e \<Rightarrow> Inl e
      | Inr (rc, c') \<Rightarrow> if rc \<noteq> 0 then Inr (- 1, c') else spec_run ls c')"

lemma chunks_concat: "concat (chunks content) = content"
proof (induction content rule: chunks.induct)
  case (1 content)
  show ?case
  proof (cases "fgets MAX_LINE content")
    case None
    then have "content = []"
      by (auto simp: fgets_def Let_def split: if_splits)
    then show ?thesis
      using None by (simp add: chunks.simps [of "[]"])
  next
    case (Some p)
    then obtain l r where lr: "fgets MAX_LINE content = Some (l, r)"
      by (cases p) auto
    then show ?thesis
      using "1.IH" [OF lr refl] fgets_partition [OF lr]
      by (simp add: chunks.simps [of content])
  qed
qed

lemma chunks_bound: "\<forall>l\<in>set (chunks content). length l < MAX_LINE"
proof (induction content rule: chunks.induct)
  case (1 content)
  show ?case
  proof (cases "fgets MAX_LINE content")
    case None
    then show ?thesis
      by (simp add: chunks.simps [of content])
  next
    case (Some p)
    then obtain l r where lr: "fgets MAX_LINE content = Some (l, r)"
      by (cases p) auto
    then show ?thesis
      using "1.IH" [OF lr refl] fgets_bound [OF lr]
      by (simp add: chunks.simps [of content] MAX_LINE_def)
  qed
qed

definition unlines :: "string list \<Rightarrow> string" where
  "unlines ls = concat (map (\<lambda>l. l @ [NL]) ls)"

lemma chunks_unlines:
  "\<forall>l\<in>set ls. NL \<notin> set l \<and> length l < 4095 \<Longrightarrow> chunks (unlines ls) = map (\<lambda>l. l @ [NL]) ls"
proof (induction ls)
  case Nil
  show ?case
    by (simp add: unlines_def chunks.simps [of "[]"] fgets_def)
next
  case (Cons l ls)
  then have "fgets MAX_LINE (l @ NL # unlines ls) = Some (l @ [NL], unlines ls)"
    by (intro fgets_line) (auto simp: MAX_LINE_def)
  moreover have "unlines (l # ls) = l @ NL # unlines ls"
    by (simp add: unlines_def)
  ultimately show ?case
    using Cons by (simp add: chunks.simps [of "l @ NL # unlines ls"])
qed

lemma line_of_line: "\<lbrakk>NL \<notin> set l; NUL \<notin> set l\<rbrakk> \<Longrightarrow> line_of (l @ [NL]) = l"
proof -
  assume l: "NL \<notin> set l" "NUL \<notin> set l"
  then have "c_str (l @ [NL]) = l @ [NL]"
    by (auto simp: c_str_def takeWhile_eq_all_conv)
  moreover have "takeWhile (\<lambda>c. c \<noteq> NL) (l @ [NL]) = l"
    using l by (intro takeWhile_append_stop) auto
  ultimately show ?thesis
    by (simp add: line_of_def)
qed

lemma line_of_no_NUL: "NUL \<notin> set (line_of chunk)"
  by (auto simp: line_of_def c_str_def dest: set_takeWhileD)

end
