(* ===== verification/Parser_Facts.thy ===== *)
theory Parser_Facts
  imports Parser_Spec
begin

section \<open>What the parser does\<close>

text \<open>
  The invariant of the configuration, what single options set, numbers, and the lines that crash
  or are refused.
\<close>

subsection \<open>The invariant\<close>

lemma wf_globals_update:
  assumes "wf_globals g" "buf_ok 50 b"
  shows "wf_globals (g\<lparr>g_remote_host := b\<rparr>)" "wf_globals (g\<lparr>g_local_ip := b\<rparr>)"
    "wf_globals (g\<lparr>g_local_netmask := b\<rparr>)" "wf_globals (g\<lparr>g_remote_ip := b\<rparr>)"
    "wf_globals (g\<lparr>g_plugin_name := b\<rparr>)" "wf_globals (g\<lparr>g_sip_transport := b\<rparr>)"
    "wf_globals (g\<lparr>g_sip_proxy := b\<rparr>)" "wf_globals (g\<lparr>g_sip_remoteuri := b\<rparr>)"
    "wf_globals (g\<lparr>g_sip_fromuri := b\<rparr>)"
  using assms by (simp_all add: wf_globals_def)

lemma wf_globals_number:
  assumes "wf_globals g"
  shows "wf_globals (g\<lparr>g_remote_port := n\<rparr>)" "wf_globals (g\<lparr>g_local_port := n\<rparr>)"
    "wf_globals (g\<lparr>g_sip_port := n\<rparr>)" "wf_globals (g\<lparr>g_mode := m\<rparr>)"
    "wf_globals (g\<lparr>g_plugin := m\<rparr>)" "wf_globals (g\<lparr>g_debug := m\<rparr>)"
    "wf_globals (g\<lparr>g_verbose := m\<rparr>)" "wf_globals (g\<lparr>g_pipe_from_plugin := p\<rparr>)"
    "wf_globals (g\<lparr>g_pipe_to_plugin := p\<rparr>)"
  using assms by (simp_all add: wf_globals_def)

lemma text_branch_wf:
  assumes "buf_ok 50 b" and "\<And>b'. buf_ok 50 b' \<Longrightarrow> wf_globals (upd b')"
  shows "res_all (\<lambda>(rc, g'). wf_globals g') (res_bind (strncpy b t 50) (\<lambda>b. Inr (0, upd b)))"
  using strncpy_buf_ok [OF assms(1) le_refl] assms(2) by (auto intro: res_all_bind)

lemma port_branch_wf:
  assumes "wf_globals g" "\<And>n. wf_globals (upd n)"
  shows "res_all (\<lambda>(rc, g'). wf_globals g')
    (res_bind (atoi t) (\<lambda>n. if n = 0 then Inr (- 1, g) else Inr (0, upd n)))"
  using assms by (auto intro: res_all_bind)

lemma ParseOption_wf [wf_keep]:
  assumes "wf_globals g" and "ParseOption line g = Inr (rc, g')"
  shows "wf_globals g'"
proof (cases "CHR ''#'' \<in> set line \<or> line = []")
  case True
  then show ?thesis
    using assms by (auto simp: ParseOption_def)
next
  case False
  note upd = wf_globals_bufs [OF assms(1)] wf_globals_update [OF assms(1)]
    wf_globals_number [OF assms(1)]
  show ?thesis
  proof (cases "strtok SPC line")
    case None
    then show ?thesis
      using False assms by (simp add: ParseOption_def del: list.size)
  next
    case (Some p)
    then obtain command rest where tok: "strtok SPC line = Some (command, rest)"
      by (cases p) auto
    have "res_all (\<lambda>(rc, g'). wf_globals g') (ParseOption line g)"
      unfolding ParseOption_command [OF False tok]
      by (intro res_all_If text_branch_wf port_branch_wf res_all_option upd assms(1))
        (simp_all add: assms(1) upd)
    then show ?thesis
      using assms(2) by simp
  qed
qed


lemma parse_lines_invariant:
  assumes step: "\<And>line g rc g'. \<lbrakk>P g; ParseOption line g = Inr (rc, g')\<rbrakk> \<Longrightarrow> P g'"
  shows "P g \<Longrightarrow> parse_lines content g = Inr (rc, g') \<Longrightarrow> P g'"
proof (induction content g rule: parse_lines.induct)
  case (1 content g)
  show ?case
  proof (cases "fgets MAX_LINE content")
    case None
    then show ?thesis
      using "1.prems" by (simp add: parse_lines.simps [of content])
  next
    case (Some p)
    then obtain l r where lr: "fgets MAX_LINE content = Some (l, r)"
      by (cases p) auto
    from "1.prems"(2) obtain rc1 g1 where o: "ParseOption (line_of l) g = Inr (rc1, g1)"
      and rest: "(if rc1 \<noteq> 0 then Inr (- 1, g1) else parse_lines r g1) = Inr (rc, g')"
      using lr by (auto simp: parse_lines.simps [of content] split: sum.splits)
    have "P g1"
      using step [OF "1.prems"(1) o] .
    then show ?thesis
      using "1.IH" [OF lr refl o refl] rest by (cases "rc1 = 0") simp_all
  qed
qed
lemma parse_lines_wf: "wf_globals g \<Longrightarrow> parse_lines content g = Inr (rc, g') \<Longrightarrow> wf_globals g'"
  by (rule parse_lines_invariant [where P = wf_globals]) (rule ParseOption_wf)

text \<open>No option of the file changes the level of messages.\<close>

lemma ParseOption_debug:
  assumes "ParseOption line g = Inr (rc, g')"
  shows "g_debug g' = g_debug g"
proof -
  let ?P = "\<lambda>(rc :: int, g'). g_debug g' = g_debug g"
  have strs: "res_all ?P (res_bind (strncpy b t 50) (\<lambda>b. Inr (0, upd b)))" if "\<And>b. g_debug (upd b) = g_debug g" for b t upd
    using that by (auto intro: res_all_bind)
  have port: "res_all ?P (res_bind (atoi t) (\<lambda>n. if n = 0 then Inr (- 1, g) else Inr (0, upd n)))"
    if "\<And>n. g_debug (upd n) = g_debug g" for t upd
    using that by (auto intro: res_all_bind)
  have "res_all ?P (ParseOption line g)"
  proof (cases "(CHR ''#'' \<in> set line \<or> line = []) \<or> strtok SPC line = None")
    case True
    then show ?thesis by (auto simp: ParseOption_def)
  next
    case False
    then obtain command rest where tok: "strtok SPC line = Some (command, rest)" by auto
    have n: "\<not> (CHR ''#'' \<in> set line \<or> line = [])" using False by blast
    show ?thesis
      unfolding ParseOption_command [OF n tok]
      by (intro res_all_If strs port res_all_option) simp_all
  qed
  then show ?thesis
    using assms by simp
qed

lemma parse_lines_debug: "parse_lines content g = Inr (rc, g') \<Longrightarrow> g_debug g' = g_debug g"
  by (rule parse_lines_invariant [where P = "\<lambda>g'. g_debug g' = g_debug g"]) (auto dest: ParseOption_debug)
lemma ParseConfigFile_debug: "ParseConfigFile c g = Inr (rc, g') \<Longrightarrow> g_debug g' = g_debug g"
  by (auto simp: ParseConfigFile_def dest: parse_lines_debug split: option.splits)



lemma parse_lines_spec:
  "wf_globals g \<Longrightarrow>
   map_sum id (map_prod id view) (parse_lines content g) = spec_run (map line_of (chunks content)) (view g)"
proof (induction content g rule: parse_lines.induct)
  case (1 content g)
  show ?case
  proof (cases "fgets MAX_LINE content")
    case None
    then show ?thesis
      by (simp add: parse_lines.simps [of content] chunks.simps [of content])
  next
    case (Some p)
    then obtain l r where lr: "fgets MAX_LINE content = Some (l, r)"
      by (cases p) auto
    note sq = ParseOption_square [OF "1.prems" line_of_no_NUL, of l]
    show ?thesis
    proof (cases "ParseOption (line_of l) g")
      case (Inl e)
      then show ?thesis
        using sq lr by (simp add: parse_lines.simps [of content] chunks.simps [of content])
          (metis (no_types) old.sum.simps(5))
    next
      case (Inr q)
      then obtain rc g1 where q: "ParseOption (line_of l) g = Inr (rc, g1)"
        by (cases q) auto
      have "spec_line (line_of l) (view g) = Inr (rc, view g1)"
        using sq q by simp
      then show ?thesis
        using "1.IH" [OF lr refl q refl] ParseOption_wf [OF "1.prems" q] q lr
        by (simp add: parse_lines.simps [of content] chunks.simps [of content])
    qed
  qed
qed

lemma ParseConfigFile_square:
  assumes "wf_globals g" and "\<forall>l\<in>set ls. NL \<notin> set l \<and> NUL \<notin> set l \<and> length l < 4095"
  shows "map_sum id (map_prod id view) (ParseConfigFile (Some (unlines ls)) g) = spec_run ls (view g)"
proof -
  have "map line_of (chunks (unlines ls)) = map (\<lambda>l. line_of (l @ [NL])) ls"
    using assms(2) by (simp add: chunks_unlines)
  also have "\<dots> = ls"
    using assms(2) by (intro map_idI) (simp add: line_of_line)
  finally show ?thesis
    using parse_lines_spec [OF assms(1)] by (simp add: ParseConfigFile_def)
qed

text \<open>C21. Parsing a file whose lines have at most 4094 characters is running the keyword table
  over the lines in order, stopping with -1 at the first line that is refused.\<close>

theorem ParseConfigFile_refines_spec:
  assumes "wf_globals g" and "\<forall>l\<in>set ls. NL \<notin> set l \<and> NUL \<notin> set l \<and> length l < 4095"
  shows "map_sum id (map_prod id view) (ParseConfigFile (Some (unlines ls)) g) = spec_run ls (view g)"
  using assms by (rule ParseConfigFile_square)

theorem ParseConfigFile_refines_spec_witness:
  "map_sum id (map_prod id view) (ParseConfigFile (Some (unlines [''mode client''])) global_v_zero)
   = spec_run [''mode client''] (view global_v_zero)"
  by (rule ParseConfigFile_refines_spec [OF wf_global_v_zero]) simp

text \<open>The bytes of \<open>test.config.client\<close> and \<open>test.config.server\<close>, by lines.\<close>

definition test_config_client :: "string list" where
  "test_config_client =
     [''#Global Options ...'', ''mode client'', ''local_ip 10.200.200.1'',
      ''remote_ip 10.200.200.2'', ''remote_host 10.10.9.45'', [], [],
      ''# TCP Plugin options'', ''# options for tcp client'', [], ''remote_port 3006'',
      [], [], [], [], [], [], ''plugin tcp'']"

definition test_config_server :: "string list" where
  "test_config_server =
     [''#Global Options ...'', ''mode server'', ''local_ip 10.200.200.2'',
      ''remote_ip 10.200.200.1'', ''remote_host mai.irontec.com'', [], [],
      ''# TCP Plugin options'', ''# options for tcp client'', [], ''remote_port 3005'',
      [], [], ''# options for tcp server'', ''local_port 3005'', [], [], [], [], ''plugin tcp'']"


definition sip_config_alice :: "string list" where
  "sip_config_alice =
     [''# Sample config for SIP Plugin (Alice Side)'', ''plugin sip'', ''sip_port 4060'',
      ''sip_transport udp'', ''sip_fromuri sip:bob@10.10.0.180'',
      ''sip_remoteuri sip:alice@10.10.0.176'', ''local_ip 10.200.200.1'',
      ''local_netmask 255.255.255.0'']"

subsection \<open>Single options\<close>

lemma tokens_word: "\<lbrakk>w \<noteq> []; d \<notin> set w\<rbrakk> \<Longrightarrow> tokens d (w @ d # r) = w # tokens d r"
  by (rule tokens_Some) (rule strtok_word)

lemma tokens_last: "\<lbrakk>w \<noteq> []; d \<notin> set w\<rbrakk> \<Longrightarrow> tokens d w = [w]"
  using tokens_Some [OF strtok_word(2)] by (simp add: tokens_None strtok_def)

lemma keyword_shape:
  "(w, k) \<in> set keyword_table \<Longrightarrow> w \<noteq> [] \<and> SPC \<notin> set w \<and> NUL \<notin> set w \<and> CHR ''#'' \<notin> set w"
  by (auto simp: keyword_table_def)

lemma square_Inr:
  assumes "wf_globals g" "NUL \<notin> set line" "spec_line line (view g) = Inr (rc, c)"
  shows "\<exists>g'. ParseOption line g = Inr (rc, g') \<and> view g' = c"
  using ParseOption_square [OF assms(1,2)] assms(3)
  by (cases "ParseOption line g") auto

lemma square_Inl:
  assumes "wf_globals g" "NUL \<notin> set line"
  shows "ParseOption line g = Inl e \<longleftrightarrow> spec_line line (view g) = Inl e"
  using ParseOption_square [OF assms] by (cases "ParseOption line g") auto

lemma setting_of_keyword: "(w, k) \<in> set keyword_table \<Longrightarrow> setting_of w = Some k"
  by (auto simp: setting_of_iff)

text \<open>A line made of a keyword, a space and a value.\<close>

lemma ParseOption_keyword_value:
  assumes "wf_globals g" and "(w, k) \<in> set keyword_table"
    and "v \<noteq> []" and "SPC \<notin> set v" and "CHR ''#'' \<notin> set v" and "NUL \<notin> set v"
  shows "\<exists>g'. ParseOption (w @ SPC # v) g = Inr (fst (store_value k v (view g)), g') \<and>
    view g' = snd (store_value k v (view g))"
proof -
  note w = keyword_shape [OF assms(2)]
  have "spec_line (w @ SPC # v) (view g) = Inr (store_value k v (view g))"
    using w assms(3-5) by (simp add: spec_line_def tokens_word tokens_last
        setting_of_keyword [OF assms(2)])
  then show ?thesis
    using w assms by (intro square_Inr) auto
qed

text \<open>A line "keyword value" with a string setting's keyword sets exactly that setting to the
  value (its first 50 characters) and leaves every other setting alone.\<close>

theorem ParseOption_sets_text:
  assumes "wf_globals g" and "(w, k) \<in> set keyword_table"
    and "k \<notin> {RemotePort, LocalPort, SipPort, Mode}"
    and "v \<noteq> []" and "SPC \<notin> set v" and "CHR ''#'' \<notin> set v" and "NUL \<notin> set v"
  shows "\<exists>g'. ParseOption (w @ SPC # v) g = Inr (0, g') \<and> view g' = (view g)(k := Text (take 50 v))"
  using ParseOption_keyword_value [OF assms(1,2,4-7)] assms(3) by (simp add: store_value_def)

theorem ParseOption_sets_text_witness:
  "\<exists>g'. ParseOption (''sip_transport'' @ SPC # ''udp'') global_v_zero = Inr (0, g') \<and>
     view g' = (view global_v_zero)(SipTransport := Text ''udp'')"
  using ParseOption_sets_text [OF wf_global_v_zero, of "''sip_transport''" SipTransport "''udp''"]
  by (simp add: keyword_table_def)

subsection \<open>Numbers\<close>

function decimal :: "nat \<Rightarrow> string" where
  "decimal n = (if n < 10 then [char_of (48 + n)] else decimal (n div 10) @ [char_of (48 + n mod 10)])"
  by pat_completeness auto
termination
  by (relation "measure id") auto

declare decimal.simps [simp del]

lemma isdigit_char_of: "d < 10 \<Longrightarrow> isdigit (char_of (48 + d :: nat))"
  by (simp add: isdigit_def)

lemma digit_value: "d < 10 \<Longrightarrow> (of_char (char_of (48 + d :: nat)) :: int) - 48 = int d"
proof -
  assume "d < 10"
  then have "(of_char (char_of (48 + d :: nat)) :: nat) = 48 + d"
    by simp
  then have "(of_char (char_of (48 + d :: nat)) :: int) = int (48 + d)"
    by (metis of_nat_of_char)
  then show ?thesis
    by simp
qed

lemma decimal_digits: "decimal n \<noteq> [] \<and> (\<forall>c\<in>set (decimal n). isdigit c)"
proof (induction n rule: decimal.induct)
  case (1 n)
  then show ?case
    using isdigit_char_of [of "n mod 10"] isdigit_char_of [of n]
    by (subst (1 2) decimal.simps) auto
qed

lemma strtol_digits_snoc:
  "\<lbrakk>\<forall>c\<in>set cs. isdigit c; isdigit d\<rbrakk> \<Longrightarrow>
   strtol_digits acc (cs @ [d]) = strtol_digits acc cs * 10 + (of_char d - 48)"
  by (induction acc cs rule: strtol_digits.induct) auto

lemma strtol_digits_decimal: "strtol_digits 0 (decimal n) = int n"
proof (induction n rule: decimal.induct)
  case (1 n)
  show ?case
  proof (cases "n < 10")
    case True
    then show ?thesis
      using isdigit_char_of [of n] digit_value [of n] by (subst decimal.simps) simp
  next
    case False
    have "strtol_digits 0 (decimal n) =
        strtol_digits 0 (decimal (n div 10)) * 10 + (of_char (char_of (48 + n mod 10)) - 48)"
      using False isdigit_char_of [of "n mod 10"] decimal_digits [of "n div 10"]
      by (subst decimal.simps) (simp add: strtol_digits_snoc)
    also have "\<dots> = int (n div 10) * 10 + int (n mod 10)"
      using "1.IH" [OF False] digit_value [of "n mod 10"] by simp
    also have "\<dots> = int (n div 10 * 10 + n mod 10)"
      by (simp only: of_nat_add of_nat_mult of_nat_numeral)
    also have "\<dots> = int n"
      by simp
    finally show ?thesis .
  qed
qed

lemma digit_not_special:
  "isdigit c \<Longrightarrow> \<not> isspace c \<and> c \<noteq> CHR ''-'' \<and> c \<noteq> CHR ''+'' \<and> c \<noteq> CHR ''#'' \<and> c \<noteq> NUL"
  by (auto simp: isdigit_def isspace_def)

lemma strtol10_decimal: "strtol10 (decimal n) = int n"
proof (cases "decimal n")
  case (Cons c cs)
  then have "\<not> isspace c" "c \<noteq> CHR ''-''" "c \<noteq> CHR ''+''"
    using decimal_digits [of n] digit_not_special [of c] by auto
  then show ?thesis
    using Cons strtol_digits_decimal [of n] by (simp add: strtol10_def)
qed (use decimal_digits [of n] in simp)

lemma port_value_decimal: "n < 2 ^ 32 \<Longrightarrow> port_value (decimal n) = of_nat n"
  by (simp add: port_value_def strtol10_decimal clamp_long_def min_def max_def)

text \<open>A port written in decimal after its keyword is read back as that port.\<close>

theorem ParseOption_port_roundtrip:
  assumes "wf_globals g" and "(w, k) \<in> set keyword_table" and "k \<in> {RemotePort, LocalPort, SipPort}"
    and "0 < n" and "n < 2 ^ 32"
  shows "\<exists>g'. ParseOption (w @ SPC # decimal n) g = Inr (0, g') \<and>
    view g' = (view g)(k := Port (of_nat n))"
proof -
  have "SPC \<notin> set (decimal n) \<and> CHR ''#'' \<notin> set (decimal n) \<and> NUL \<notin> set (decimal n)"
    using decimal_digits [of n] digit_not_special by (auto simp: isspace_def)
  moreover have "(of_nat n :: 32 word) \<noteq> 0"
    using assms(4,5) by (simp add: word_of_nat_eq_0_iff nat_dvd_not_less)
  ultimately show ?thesis
    using ParseOption_keyword_value [OF assms(1,2), of "decimal n"] assms(3,5) decimal_digits [of n]
    by (simp add: store_value_def port_value_decimal)
qed


theorem ParseOption_port_roundtrip_witness:
  "\<exists>g'. ParseOption (''local_port'' @ SPC # decimal 3005) global_v_zero = Inr (0, g') \<and>
     view g' = (view global_v_zero)(LocalPort := Port 3005)"
  using ParseOption_port_roundtrip [OF wf_global_v_zero, of "''local_port''" LocalPort 3005]
  by (simp add: keyword_table_def)

subsection \<open>What crashes, what is refused\<close>

text \<open>C29. The exact condition of a crash: a line that is not empty and has no '#' crashes the parser
  (a NULL token is dereferenced) if and only if it is all spaces, or is a known keyword
  with no value after it. No line makes it write out of bounds.\<close>

theorem ParseOption_crash_iff:
  assumes "wf_globals g" and "NUL \<notin> set line"
  shows "ParseOption line g = Inl e \<longleftrightarrow>
    e = NullDeref \<and> CHR ''#'' \<notin> set line \<and> line \<noteq> [] \<and>
    (case tokens SPC line of [] \<Rightarrow> True | [cmd] \<Rightarrow> setting_of cmd \<noteq> None | _ \<Rightarrow> False)"
  unfolding square_Inl [OF assms] spec_line_def
  by (auto split: list.splits option.splits)

theorem ParseOption_crash_iff_witness:
  "ParseOption ''local_ip'' global_v_zero = Inl NullDeref"
  unfolding ParseOption_crash_iff [OF wf_global_v_zero, of "''local_ip''" NullDeref, simplified]
  by (simp add: tokens_last setting_of_chain)

text \<open>A port option whose value is not a number, or is zero, is refused with -1 and changes
  nothing.\<close>

theorem ParseOption_refusals:
  assumes "wf_globals g" and "(w, k) \<in> set keyword_table" and "k \<in> {RemotePort, LocalPort, SipPort}"
    and "v \<noteq> []" and "SPC \<notin> set v" and "CHR ''#'' \<notin> set v" and "NUL \<notin> set v"
    and "port_value v = 0"
  shows "\<exists>g'. ParseOption (w @ SPC # v) g = Inr (- 1, g') \<and> view g' = view g"
  using ParseOption_keyword_value [OF assms(1,2,4-7)] assms(3,8) by (simp add: store_value_def)

theorem ParseOption_refusals_witness:
  "\<exists>g'. ParseOption (''remote_port'' @ SPC # ''http'') global_v_zero = Inr (- 1, g') \<and>
     view g' = view global_v_zero"
  by (rule ParseOption_refusals [OF wf_global_v_zero, of "''remote_port''" RemotePort])
    (simp_all add: keyword_table_def port_value_def strtol10_def isspace_def isdigit_def clamp_long_def)

text \<open>A closed run of the table, for the configurations shipped with the program.\<close>

definition run_shows :: "string list \<Rightarrow> setting list \<Rightarrow> setting_value list \<Rightarrow> bool" where
  "run_shows ls ks vs =
     (case spec_run ls (view globals_init) of
        Inl e \<Rightarrow> False | Inr (rc, c) \<Rightarrow> rc = 0 \<and> map c ks = vs)"

definition plain_lines :: "string list \<Rightarrow> bool" where
  "plain_lines ls = list_all (\<lambda>l. NL \<notin> set l \<and> NUL \<notin> set l \<and> length l < 4095) ls"

lemma run_shows_parse:
  assumes "plain_lines ls" and "run_shows ls ks vs"
  shows "\<exists>g. res_bind (Globals_Init global_v_zero) (ParseConfigFile (Some (unlines ls))) = Inr (0, g)
    \<and> wf_globals g \<and> map (view g) ks = vs"
proof -
  have sq: "spec_run ls (view globals_init)
      = map_sum id (map_prod id view) (ParseConfigFile (Some (unlines ls)) globals_init)"
    using assms(1) by (intro ParseConfigFile_square [symmetric] wf_globals_init)
      (simp add: plain_lines_def list_all_iff)
  obtain g where g: "ParseConfigFile (Some (unlines ls)) globals_init = Inr (0, g)"
      "map (view g) ks = vs"
    using assms(2) unfolding run_shows_def sq
    by (cases "ParseConfigFile (Some (unlines ls)) globals_init") auto
  then have "wf_globals g"
    using wf_globals_init by (auto simp: ParseConfigFile_def intro: parse_lines_wf)
  then show ?thesis
    using g by (simp add: Globals_Init_zero)
qed

text \<open>The configuration shipped for the server, read from program start, is accepted and
  gives server mode, the tcp plugin, port 3005 and the two tunnel addresses.\<close>

theorem server_config_accepted:
  "\<exists>g. res_bind (Globals_Init global_v_zero) (ParseConfigFile (Some (unlines test_config_server)))
         = Inr (0, g) \<and>
       view g Mode = ModeNo SERVER_MODE \<and> view g PluginName = Text ''tcp'' \<and>
       view g LocalPort = Port 3005 \<and> view g RemotePort = Port 3005 \<and>
       view g LocalIp = Text ''10.200.200.2'' \<and> view g RemoteIp = Text ''10.200.200.1''"
proof -
  have r: "run_shows test_config_server [Mode, PluginName, LocalPort, RemotePort, LocalIp, RemoteIp]
      [ModeNo 0, Text ''tcp'', Port 3005, Port 3005, Text ''10.200.200.2'', Text ''10.200.200.1'']"
    by code_simp
  have p: "plain_lines test_config_server"
    by code_simp
  show ?thesis
    using run_shows_parse [OF p r] by (auto simp: SERVER_MODE_def)
qed

end
