(* ===== verification/Sys.thy ===== *)
theory Sys
  imports Globals
begin

section \<open>Calls that leave the program\<close>

text \<open>
  System calls, allocation, name resolution and the PJSIP entry points are not part of the
  repository. They are one parameter of the model, a \<open>kernel\<close>: it maps a call and a
  state of the outside world (of any type \<open>'w\<close>) to a reply and the next state of the
  world. Every call of the code goes through \<open>sys\<close>, which also records the call and
  its reply in \<open>trace\<close>; the trace is observed by theorems only, no code reads it. The
  records of the components' static variables extend \<open>sys_state\<close> one after the other,
  so an operation of a component runs on the state of the whole program and leaves the fields
  it does not know alone.

  The constants are those of Linux. \<open>WriteNull\<close> is a \<open>write\<close> from a NULL buffer.
\<close>

definition O_RDWR :: int where "O_RDWR = 2"

definition AF_INET :: int where "AF_INET = 2"

definition PF_INET :: int where "PF_INET = 2"

definition SOCK_STREAM :: int where "SOCK_STREAM = 1"

definition SOCK_DGRAM :: int where "SOCK_DGRAM = 2"

definition IFF_UP :: "16 word" where "IFF_UP = 1"

definition IFF_TAP :: "16 word" where "IFF_TAP = 2"

definition IFF_NO_PI :: "16 word" where "IFF_NO_PI = 0x1000"

definition IFNAMSIZ :: nat where "IFNAMSIZ = 16"

definition FD_SETSIZE :: int where "FD_SETSIZE = 1024"

datatype xcall =
    Open string int
  | Close int
  | Read int nat
  | Write int "byte list"
  | WriteNull int int
  | Pipe
  | Select int "int set"
  | Socket int int
  | GetHostByName string
  | Connect int "32 word" "16 word"
  | Bind int "32 word" "16 word"
  | Listen int int
  | Accept int
  | Recv int nat
  | Send int "byte list"
  | InetAton string
  | TunSetIff int "16 word"
  | GetIfFlags int string
  | SetIfFlags int string "16 word"
  | SetIfAddr int string "32 word"
  | SetIfNetmask int string "32 word"
  | PthreadCreate string
  | Malloc nat
  | Free nat
  | Pjsip string
  | RespondStateless nat string
  | CreateOptionsRequest string string
  | AddHeader string "byte list"
  | SendTransaction

text \<open>
  A reply: the returned integer (for a pointer, 0 is NULL), \<open>errno\<close> where the call fails,
  and what a call writes through its pointer arguments: bytes read, descriptors (those ready
  after \<open>select\<close>, the two ends of a new pipe), an address or flags, an interface name.
\<close>

record reply =
  r_ret :: int
  r_errno :: int
  r_bytes :: "byte list"
  r_ready :: "int set"
  r_pipe :: "int \<times> int"
  r_addr :: "32 word"
  r_flags :: "16 word"
  r_name :: string

type_synonym 'w kernel = "xcall \<Rightarrow> 'w \<Rightarrow> reply \<times> 'w"

definition reply_ok :: "int \<Rightarrow> reply" where
  "reply_ok n = \<lparr>r_ret = n, r_errno = 0, r_bytes = [], r_ready = {}, r_pipe = (0, 0),
     r_addr = 0, r_flags = 0, r_name = []\<rparr>"

record 'w sys_state =
  world :: 'w
  trace :: "(xcall \<times> reply) list"
  errno :: int
  gv :: t_global_v

definition sys :: "'w kernel \<Rightarrow> xcall \<Rightarrow> ('w, 'z) sys_state_scheme \<Rightarrow> reply \<times> ('w, 'z) sys_state_scheme" where
  "sys k c s =
     (let (r, w) = k c (world s)
      in (r, s\<lparr>world := w, trace := trace s @ [(c, r)],
               errno := (if r_ret r < 0 then r_errno r else errno s)\<rparr>))"

text \<open>
  \<open>FD_SET\<close> indexes a bit array of 1024 bits: any other descriptor is out of its bounds.
  \<open>select\<close> overwrites the set with the ready descriptors, and leaves it as it was when
  it fails.
\<close>

definition FD_SET :: "int \<Rightarrow> int set \<Rightarrow> int set res" where
  "FD_SET fd S = (if 0 \<le> fd \<and> fd < FD_SETSIZE then Inr (insert fd S) else Inl OutOfBounds)"

definition do_select ::
    "'w kernel \<Rightarrow> int \<Rightarrow> int set \<Rightarrow> ('w, 'z) sys_state_scheme \<Rightarrow> int set \<times> ('w, 'z) sys_state_scheme" where
  "do_select k maxfd S s =
     (let (r, s) = sys k (Select maxfd S) s
      in (if r_ret r < 0 then S else r_ready r, s))"

subsection \<open>What a call changes\<close>

lemma sys_gv [frame, simp]: "gv (snd (sys k c s)) = gv s"
  by (simp add: sys_def split_beta Let_def)

lemma sys_more [frame, simp]: "sys_state.more (snd (sys k c s)) = sys_state.more s"
  by (simp add: sys_def split_beta Let_def)

lemma sys_trace: "trace (snd (sys k c s)) = trace s @ [(c, fst (sys k c s))]"
  by (simp add: sys_def split_beta Let_def)

lemma sys_reply: "fst (sys k c s) = fst (k c (world s))"
  by (simp add: sys_def split_beta Let_def)

lemma sys_world: "world (snd (sys k c s)) = snd (k c (world s))"
  by (simp add: sys_def split_beta Let_def)

lemma sys_errno: "errno (snd (sys k c s)) =
    (if r_ret (fst (sys k c s)) < 0 then r_errno (fst (sys k c s)) else errno s)"
  by (simp add: sys_def split_beta Let_def)

lemmas sys_effect = sys_trace sys_gv sys_more

text \<open>
  Two states with the same global variables and the same static variables of the components
  differ in what the outside world did only.
\<close>

subsection \<open>Descriptors\<close>

text \<open>The descriptors that a trace has opened and not closed.\<close>

fun opens :: "xcall \<Rightarrow> reply \<Rightarrow> int list" where
  "opens (Open p m) r = (if r_ret r < 0 then [] else [r_ret r])"
| "opens (Socket d t) r = (if r_ret r < 0 then [] else [r_ret r])"
| "opens (Accept d) r = (if r_ret r < 0 then [] else [r_ret r])"
| "opens Pipe r = (if r_ret r \<noteq> 0 then [] else [fst (r_pipe r), snd (r_pipe r)])"
| "opens _ r = []"

fun closes :: "xcall \<Rightarrow> int list" where
  "closes (Close fd) = [fd]"
| "closes _ = []"

definition open_fds :: "(xcall \<times> reply) list \<Rightarrow> int list" where
  "open_fds t = fold (\<lambda>(c, r) fds. filter (\<lambda>fd. fd \<notin> set (closes c)) (fds @ opens c r)) t []"

lemma open_fds_append:
  "open_fds (t @ [(c, r)]) = filter (\<lambda>fd. fd \<notin> set (closes c)) (open_fds t @ opens c r)"
  by (simp add: open_fds_def)

lemma open_fds_fold:
  "open_fds (t @ u) = fold (\<lambda>(c, r) fds. filter (\<lambda>fd. fd \<notin> set (closes c)) (fds @ opens c r)) u (open_fds t)"
  by (simp add: open_fds_def)

lemma open_fds_sys:
  "open_fds (trace (snd (sys k c s)))
   = filter (\<lambda>fd. fd \<notin> set (closes c)) (open_fds (trace s) @ opens c (fst (sys k c s)))"
  by (simp add: sys_trace open_fds_append)

end
