(* ===== verification/Tunnel.thy ===== *)
theory Tunnel
  imports Sys
begin

section \<open>The connection table: generictunel.c\<close>

text \<open>
  Each plugin has a row of 50 connection slots (\<open>plugindata\<close>), all zero at start. An
  identifier is an index of the row. A \<open>void *\<close> of connection data is a number, 0 for
  NULL; \<open>live\<close> holds the blocks that are allocated, so that \<open>free\<close> of any other
  non-NULL pointer is an error. Indexes are checked against the arrays' sizes: a read or write
  outside them is \<open>OutOfBounds\<close>.
\<close>

definition MAXINT :: nat where "MAXINT = 32767"

record tnconnection =
  connectiondata :: nat
  sendsocket :: int
  recvsocket :: int
  active :: "16 word"

type_synonym tnplugindata = "tnconnection list"

definition tnconnection_zero :: tnconnection where
  "tnconnection_zero = \<lparr>connectiondata = 0, sendsocket = 0, recvsocket = 0, active = 0\<rparr>"

definition plugindata_zero :: "tnplugindata list" where
  "plugindata_zero = replicate NUMBER_PLUGINS (replicate MAX_IN_CONNECTIONS tnconnection_zero)"

record 'w tunnel_state = "'w sys_state" +
  plugindata :: "tnplugindata list"
  live :: "nat set"

subsection \<open>The code\<close>

definition connection_at :: "int \<Rightarrow> int \<Rightarrow> ('w, 'z) tunnel_state_scheme \<Rightarrow> tnconnection res" where
  "connection_at p i s =
     (if 0 \<le> p \<and> nat p < length (plugindata s) \<and> 0 \<le> i \<and> nat i < length (plugindata s ! nat p)
      then Inr (plugindata s ! nat p ! nat i) else Inl OutOfBounds)"

definition set_connection ::
    "int \<Rightarrow> int \<Rightarrow> (tnconnection \<Rightarrow> tnconnection) \<Rightarrow> ('w, 'z) tunnel_state_scheme \<Rightarrow> ('w, 'z) tunnel_state_scheme" where
  "set_connection p i f s =
     s\<lparr>plugindata := (plugindata s)[nat p := (plugindata s ! nat p)[nat i := f (plugindata s ! nat p ! nat i)]]\<rparr>"

text \<open>The search loop of \<open>StoreConnectionInformation\<close>, bounded by \<open>MAXINT\<close>.\<close>

function find_slot :: "int \<Rightarrow> nat \<Rightarrow> ('w, 'z) tunnel_state_scheme \<Rightarrow> nat res" where
  "find_slot p i s =
     (if i < MAXINT then
        res_bind (connection_at p (int i) s)
          (\<lambda>c. if active c \<noteq> 0 then find_slot p (Suc i) s else Inr i)
      else Inr i)"
  by pat_completeness auto
termination
  by (relation "measure (\<lambda>(p, i, s). MAXINT - i)") auto

declare find_slot.simps [simp del]

definition StoreConnectionInformation ::
    "'w kernel \<Rightarrow> int \<Rightarrow> nat \<Rightarrow> ('w, 'z) tunnel_state_scheme \<Rightarrow> (int \<times> ('w, 'z) tunnel_state_scheme) res" where
  "StoreConnectionInformation k pnumber data s =
     res_bind (find_slot pnumber 1 s) (\<lambda>i.
       if i = MAXINT then Inr (0, s)
       else
         let s = set_connection pnumber (int i) (\<lambda>c. c\<lparr>active := 1\<rparr>) s;
             s = set_connection pnumber (int i) (\<lambda>c. c\<lparr>connectiondata := data\<rparr>) s;
             (r, s) = sys k (Socket AF_INET SOCK_STREAM) s;
             s = set_connection pnumber (int i) (\<lambda>c. c\<lparr>sendsocket := r_ret r\<rparr>) s;
             (r, s) = sys k (Socket AF_INET SOCK_STREAM) s;
             s = set_connection pnumber (int i) (\<lambda>c. c\<lparr>recvsocket := r_ret r\<rparr>) s
         in Inr (int i, s))"

definition c_free :: "'w kernel \<Rightarrow> nat \<Rightarrow> ('w, 'z) tunnel_state_scheme \<Rightarrow> ('w, 'z) tunnel_state_scheme res" where
  "c_free k ptr s =
     (if ptr \<in> live s
      then Inr (let (r, s) = sys k (Free ptr) s in s\<lparr>live := live s - {ptr}\<rparr>)
      else Inl DoubleFree)"

definition RemoveStoredConnectionInformation ::
    "'w kernel \<Rightarrow> int \<Rightarrow> int \<Rightarrow> ('w, 'z) tunnel_state_scheme \<Rightarrow> ('w, 'z) tunnel_state_scheme res" where
  "RemoveStoredConnectionInformation k pnumber i s =
     res_bind (connection_at pnumber i s) (\<lambda>c.
       let s = set_connection pnumber i (\<lambda>c. c\<lparr>active := 1\<rparr>) s
       in if connectiondata c \<noteq> 0 then c_free k (connectiondata c) s else Inr s)"

definition RetrieveConnectionInformation ::
    "int \<Rightarrow> int \<Rightarrow> ('w, 'z) tunnel_state_scheme \<Rightarrow> nat res" where
  "RetrieveConnectionInformation pnumber i s =
     res_bind (connection_at pnumber i s) (\<lambda>c. Inr (connectiondata c))"

definition GetSocketRecvQueue :: "int \<Rightarrow> int \<Rightarrow> ('w, 'z) tunnel_state_scheme \<Rightarrow> int res" where
  "GetSocketRecvQueue pnumber i s = res_bind (connection_at pnumber i s) (\<lambda>c. Inr (recvsocket c))"

definition GetSocketSendQueue :: "int \<Rightarrow> int \<Rightarrow> ('w, 'z) tunnel_state_scheme \<Rightarrow> int res" where
  "GetSocketSendQueue pnumber i s = res_bind (connection_at pnumber i s) (\<lambda>c. Inr (sendsocket c))"

text \<open>
  The packet functions return what \<open>recv\<close> or \<open>send\<close> returns; the bytes received
  stand beside it.
\<close>

definition recv_from ::
    "'w kernel \<Rightarrow> int res \<Rightarrow> nat \<Rightarrow> ('w, 'z) sys_state_scheme \<Rightarrow> ((int \<times> byte list) \<times> ('w, 'z) sys_state_scheme) res" where
  "recv_from k fd n s =
     res_bind fd (\<lambda>fd. let (r, s) = sys k (Recv fd n) s in Inr ((r_ret r, r_bytes r), s))"

definition send_to ::
    "'w kernel \<Rightarrow> int res \<Rightarrow> byte list \<Rightarrow> ('w, 'z) sys_state_scheme \<Rightarrow> (int \<times> ('w, 'z) sys_state_scheme) res" where
  "send_to k fd data s =
     res_bind fd (\<lambda>fd. let (r, s) = sys k (Send fd data) s in Inr (r_ret r, s))"

definition GetPacketInRecvQueue ::
    "'w kernel \<Rightarrow> int \<Rightarrow> int \<Rightarrow> nat \<Rightarrow> ('w, 'z) tunnel_state_scheme
      \<Rightarrow> ((int \<times> byte list) \<times> ('w, 'z) tunnel_state_scheme) res" where
  "GetPacketInRecvQueue k pnumber i datasize s =
     recv_from k (GetSocketRecvQueue pnumber i s) datasize s"

definition GetFirstPacketInSendQueue ::
    "'w kernel \<Rightarrow> int \<Rightarrow> int \<Rightarrow> nat \<Rightarrow> ('w, 'z) tunnel_state_scheme
      \<Rightarrow> ((int \<times> byte list) \<times> ('w, 'z) tunnel_state_scheme) res" where
  "GetFirstPacketInSendQueue k pnumber i datasize s =
     recv_from k (GetSocketSendQueue pnumber i s) datasize s"

definition PutPacketInRecvQueue ::
    "'w kernel \<Rightarrow> int \<Rightarrow> int \<Rightarrow> byte list \<Rightarrow> ('w, 'z) tunnel_state_scheme
      \<Rightarrow> (int \<times> ('w, 'z) tunnel_state_scheme) res" where
  "PutPacketInRecvQueue k pnumber i data s = send_to k (GetSocketRecvQueue pnumber i s) data s"

definition PutPacketInSendQueue ::
    "'w kernel \<Rightarrow> int \<Rightarrow> int \<Rightarrow> byte list \<Rightarrow> ('w, 'z) tunnel_state_scheme
      \<Rightarrow> (int \<times> ('w, 'z) tunnel_state_scheme) res" where
  "PutPacketInSendQueue k pnumber i data s = send_to k (GetSocketSendQueue pnumber i s) data s"

subsection \<open>Reading and writing slots\<close>

lemma sys_tunnel [frame, simp]:
  "plugindata (snd (sys k c s)) = plugindata s" "live (snd (sys k c s)) = live s"
  by (simp_all add: sys_def split_beta Let_def)

lemma connection_at_sys [frame, simp]: "connection_at p i (snd (sys k c s)) = connection_at p i s"
  by (simp add: connection_at_def)

lemma connection_at_live [frame, simp]: "connection_at p i (s\<lparr>live := L\<rparr>) = connection_at p i s"
  by (simp add: connection_at_def)

lemma set_connection_frame [frame, simp]:
  "world (set_connection p i f s) = world s" "trace (set_connection p i f s) = trace s"
  "live (set_connection p i f s) = live s" "gv (set_connection p i f s) = gv s"
  by (simp_all add: set_connection_def)

lemma connection_at_set:
  "connection_at p i s = Inr c \<Longrightarrow> connection_at p i (set_connection p i f s) = Inr (f c)"
  by (auto simp: connection_at_def set_connection_def split: if_splits)

lemma connection_at_set_other:
  assumes "connection_at p i s = Inr c" and "(q, j) \<noteq> (p, i)"
  shows "connection_at q j (set_connection p i f s) = connection_at q j s"
proof -
  have v: "0 \<le> p" "nat p < length (plugindata s)" "0 \<le> i" "nat i < length (plugindata s ! nat p)"
    using assms(1) by (auto simp: connection_at_def split: if_splits)
  show ?thesis
    using v assms(2)
    by (cases "0 \<le> q \<and> 0 \<le> j"; cases "nat q = nat p"; cases "nat j = nat i")
      (auto simp: connection_at_def set_connection_def nth_list_update eq_nat_nat_iff)
qed

subsection \<open>The search\<close>

definition slot_used :: "int \<Rightarrow> ('w, 'z) tunnel_state_scheme \<Rightarrow> nat \<Rightarrow> bool" where
  "slot_used p s i \<longleftrightarrow> (case connection_at p (int i) s of Inl _ \<Rightarrow> False | Inr c \<Rightarrow> active c \<noteq> 0)"

definition tunnel_ok :: "('w, 'z) tunnel_state_scheme \<Rightarrow> bool" where
  "tunnel_ok s \<longleftrightarrow> length (plugindata s) = NUMBER_PLUGINS \<and>
     (\<forall>row\<in>set (plugindata s). length row = MAX_IN_CONNECTIONS)"

lemma tunnel_ok_at:
  "tunnel_ok s \<Longrightarrow> (\<exists>c. connection_at p i s = Inr c) \<longleftrightarrow> p = TCP_PLUGIN \<and> 0 \<le> i \<and> i < 50"
  by (auto simp: tunnel_ok_def connection_at_def global_consts)

lemma tunnel_ok_set [wf_keep]: "tunnel_ok s \<Longrightarrow> tunnel_ok (set_connection p i f s)"
  by (cases "nat p < length (plugindata s)")
    (auto simp: tunnel_ok_def set_connection_def list_update_beyond
      dest!: set_update_subset_insert [THEN subsetD])

lemma tunnel_ok_sys [wf_keep, simp]: "tunnel_ok (snd (sys k c s)) = tunnel_ok s"
  by (simp add: tunnel_ok_def)

lemma find_slot_Inr:
  "find_slot p i s = Inr j \<Longrightarrow> i \<le> MAXINT \<Longrightarrow>
   i \<le> j \<and> (\<forall>m. i \<le> m \<longrightarrow> m < j \<longrightarrow> slot_used p s m) \<and>
   (j < MAXINT \<and> (\<exists>c. connection_at p (int j) s = Inr c \<and> active c = 0) \<or> j = MAXINT)"
proof (induction p i s rule: find_slot.induct)
  case (1 p i s)
  show ?case
  proof (cases "i < MAXINT")
    case True
    then obtain c where c: "connection_at p (int i) s = Inr c"
      and j: "(if active c \<noteq> 0 then find_slot p (Suc i) s else Inr i) = Inr j"
      using "1.prems" by (auto simp: find_slot.simps [of p i])
    show ?thesis
    proof (cases "active c = 0")
      case False
      then have "slot_used p s i"
        using c by (simp add: slot_used_def)
      have IH: "Suc i \<le> j \<and> (\<forall>m. Suc i \<le> m \<longrightarrow> m < j \<longrightarrow> slot_used p s m) \<and>
          (j < MAXINT \<and> (\<exists>c. connection_at p (int j) s = Inr c \<and> active c = 0) \<or> j = MAXINT)"
        using "1.IH" [OF True c] False j True by simp
      have "slot_used p s m" if "i \<le> m" "m < j" for m
        using that IH \<open>slot_used p s i\<close> by (cases "m = i") auto
      then show ?thesis
        using IH by auto
    qed (use True c j in auto)
  next
    case False
    then show ?thesis
      using "1.prems" by (simp add: find_slot.simps [of p i] find_slot.simps [of p MAXINT])
  qed
qed

lemma find_slot_free:
  assumes "find_slot p i s = Inr j" "i \<le> n" "n < MAXINT" "\<not> slot_used p s n"
  shows "j \<le> n"
  using find_slot_Inr [OF assms(1)] assms(2-4) by (metis le_less_linear le_trans less_imp_le)

lemma find_slot_total:
  "\<lbrakk>tunnel_ok s; i \<le> 50\<rbrakk> \<Longrightarrow>
   find_slot TCP_PLUGIN i s =
     (if \<exists>m. i \<le> m \<and> m < 50 \<and> \<not> slot_used TCP_PLUGIN s m
      then Inr (LEAST m. i \<le> m \<and> \<not> slot_used TCP_PLUGIN s m) else Inl OutOfBounds)"
proof (induction TCP_PLUGIN i s rule: find_slot.induct)
  case (1 i s)
  show ?case
  proof (cases "i = 50")
    case True
    have "connection_at TCP_PLUGIN 50 s = Inl OutOfBounds"
      using "1.prems" by (auto simp: tunnel_ok_def connection_at_def global_consts)
    then show ?thesis
      using True by (simp add: find_slot.simps [of _ 50] MAXINT_def)
  next
    case False
    then have i: "i < 50" "i < MAXINT"
      using "1.prems" by (simp_all add: MAXINT_def)
    then obtain c where c: "connection_at TCP_PLUGIN (int i) s = Inr c"
      using tunnel_ok_at [of s TCP_PLUGIN "int i"] "1.prems" by auto
    show ?thesis
    proof (cases "active c = 0")
      case True
      then have u: "\<not> slot_used TCP_PLUGIN s i"
        using c by (simp add: slot_used_def)
      then have "(LEAST m. i \<le> m \<and> \<not> slot_used TCP_PLUGIN s m) = i"
        by (intro Least_equality) auto
      then show ?thesis
        using True c i u by (auto simp: find_slot.simps [of _ i])
    next
      case False
      then have u: "slot_used TCP_PLUGIN s i"
        using c by (simp add: slot_used_def)
      have eq: "(i \<le> m \<and> \<not> slot_used TCP_PLUGIN s m) = (Suc i \<le> m \<and> \<not> slot_used TCP_PLUGIN s m)" for m
        using u by (metis Suc_le_eq le_neq_implies_less less_imp_le)
      have "find_slot TCP_PLUGIN i s = find_slot TCP_PLUGIN (Suc i) s"
        using False c i by (simp add: find_slot.simps [of _ i])
      also have "\<dots> = (if \<exists>m. Suc i \<le> m \<and> m < 50 \<and> \<not> slot_used TCP_PLUGIN s m
          then Inr (LEAST m. Suc i \<le> m \<and> \<not> slot_used TCP_PLUGIN s m) else Inl OutOfBounds)"
        using "1.hyps" [OF i(2) c] False "1.prems" i by simp
      also have "(\<exists>m. Suc i \<le> m \<and> m < 50 \<and> \<not> slot_used TCP_PLUGIN s m)
          = (\<exists>m. i \<le> m \<and> m < 50 \<and> \<not> slot_used TCP_PLUGIN s m)"
        using eq by blast
      finally show ?thesis
        by (simp only: eq)
    qed
  qed
qed


subsection \<open>Storing\<close>

definition socket_reply :: "'w kernel \<Rightarrow> 'w \<Rightarrow> reply \<times> 'w" where
  "socket_reply k w = k (Socket AF_INET SOCK_STREAM) w"

lemma slot_used_cong:
  "connection_at p (int m) s' = connection_at p (int m) s \<Longrightarrow> slot_used p s' m = slot_used p s m"
  by (simp add: slot_used_def)

lemma Store_result:
  assumes ok: "tunnel_ok s" and st: "StoreConnectionInformation k TCP_PLUGIN d s = Inr (i, s')"
  obtains n r1 r2 where "i = int n" and "1 \<le> n" and "n < 50" and "\<not> slot_used TCP_PLUGIN s n"
    and "\<forall>m. 1 \<le> m \<longrightarrow> m < n \<longrightarrow> slot_used TCP_PLUGIN s m"
    and "connection_at TCP_PLUGIN i s' =
      Inr \<lparr>connectiondata = d, sendsocket = r_ret r1, recvsocket = r_ret r2, active = 1\<rparr>"
    and "\<forall>q j. (q, j) \<noteq> (TCP_PLUGIN, i) \<longrightarrow> connection_at q j s' = connection_at q j s"
    and "tunnel_ok s'" and "live s' = live s" and "gv s' = gv s"
    and "trace s' = trace s @ [(Socket AF_INET SOCK_STREAM, r1), (Socket AF_INET SOCK_STREAM, r2)]"
proof -
  obtain n where n: "find_slot TCP_PLUGIN 1 s = Inr n"
    using st by (auto simp: StoreConnectionInformation_def)
  have ex: "\<exists>m. 1 \<le> m \<and> m < 50 \<and> \<not> slot_used TCP_PLUGIN s m"
    using n find_slot_total [OF ok, of 1] by (auto split: if_splits)
  then have n50: "n < 50"
    using find_slot_free [OF n] by (fastforce simp: MAXINT_def)
  have free: "1 \<le> n" "\<forall>m. 1 \<le> m \<longrightarrow> m < n \<longrightarrow> slot_used TCP_PLUGIN s m"
    and "\<exists>c. connection_at TCP_PLUGIN (int n) s = Inr c \<and> active c = 0"
    using find_slot_Inr [OF n] n50 by (auto simp: MAXINT_def)
  then obtain c where c: "connection_at TCP_PLUGIN (int n) s = Inr c" "active c = 0"
    by blast
  let ?p = TCP_PLUGIN and ?sock = "Socket AF_INET SOCK_STREAM"
  define s1 where "s1 = set_connection ?p (int n) (\<lambda>c. c\<lparr>connectiondata := d\<rparr>)
    (set_connection ?p (int n) (\<lambda>c. c\<lparr>active := 1\<rparr>) s)"
  define r1 where "r1 = fst (sys k ?sock s1)"
  define s2 where "s2 = set_connection ?p (int n) (\<lambda>c. c\<lparr>sendsocket := r_ret r1\<rparr>) (snd (sys k ?sock s1))"
  define r2 where "r2 = fst (sys k ?sock s2)"
  have s': "i = int n" "s' = set_connection ?p (int n) (\<lambda>c. c\<lparr>recvsocket := r_ret r2\<rparr>) (snd (sys k ?sock s2))"
    using st n n50
    by (auto simp: StoreConnectionInformation_def Let_def split_beta s1_def s2_def r1_def r2_def MAXINT_def)
  have c1: "connection_at ?p (int n) s1 = Inr (c\<lparr>active := 1, connectiondata := d\<rparr>)"
    unfolding s1_def using c(1) by (intro connection_at_set)
  have c2: "connection_at ?p (int n) s2 =
      Inr (c\<lparr>active := 1, connectiondata := d, sendsocket := r_ret r1\<rparr>)"
    unfolding s2_def using c1 by (simp add: connection_at_set)
  have c3: "connection_at ?p i s' =
      Inr \<lparr>connectiondata = d, sendsocket = r_ret r1, recvsocket = r_ret r2, active = 1\<rparr>"
    unfolding s' using c2 by (simp add: connection_at_set)
  have other: "connection_at q j s' = connection_at q j s" if "(q, j) \<noteq> (?p, i)" for q j
  proof -
    have "(q, j) \<noteq> (?p, int n)"
      using that s'(1) by simp
    note set_other = connection_at_set_other [OF _ this]
    show ?thesis
      unfolding s'(2) s2_def s1_def
      using c(1) c1 c2 by (simp add: set_other connection_at_set s1_def s2_def)
  qed
  show thesis
  proof (rule that [of n r1 r2])
    show "trace s' = trace s @ [(?sock, r1), (?sock, r2)]"
      unfolding s'(2) by (simp add: sys_trace s2_def s1_def flip: r1_def r2_def)
        (simp add: r2_def r1_def s2_def s1_def)
  qed (use s' free n50 c c3 other ok in \<open>auto simp: slot_used_def s2_def s1_def tunnel_ok_set\<close>)
qed


subsection \<open>The interface of a connection table\<close>

text \<open>
  What a plugin expects of the table it stores connections in: an identifier that is returned
  was not in use, is in use afterwards, leads back to the stored data, and nothing stored
  before is disturbed.
\<close>

fun store_many :: "('d \<Rightarrow> 's \<Rightarrow> (int \<times> 's) res) \<Rightarrow> 'd list \<Rightarrow> 's \<Rightarrow> (int list \<times> 's) res" where
  "store_many store [] s = Inr ([], s)"
| "store_many store (d # ds) s =
     res_bind (store d s) (\<lambda>(i, s). res_bind (store_many store ds s) (\<lambda>(ids, s). Inr (i # ids, s)))"

locale slot_table =
  fixes store :: "'d \<Rightarrow> 's \<Rightarrow> (int \<times> 's) res"
    and fetch :: "int \<Rightarrow> 's \<Rightarrow> 'd res"
    and used :: "'s \<Rightarrow> int set"
    and invar :: "'s \<Rightarrow> bool"
  assumes store_invar: "\<lbrakk>invar s; store d s = Inr (i, s')\<rbrakk> \<Longrightarrow> invar s'"
    and store_fresh: "\<lbrakk>invar s; store d s = Inr (i, s')\<rbrakk> \<Longrightarrow> i \<notin> used s"
    and store_used: "\<lbrakk>invar s; store d s = Inr (i, s')\<rbrakk> \<Longrightarrow> used s' = insert i (used s)"
    and store_fetch: "\<lbrakk>invar s; store d s = Inr (i, s')\<rbrakk> \<Longrightarrow> fetch i s' = Inr d"
    and store_keeps: "\<lbrakk>invar s; store d s = Inr (i, s'); j \<in> used s\<rbrakk> \<Longrightarrow> fetch j s' = fetch j s"
begin

lemma store_many_table:
  "\<lbrakk>invar s; store_many store ds s = Inr (ids, s')\<rbrakk> \<Longrightarrow>
   distinct ids \<and> set ids \<inter> used s = {} \<and> used s' = used s \<union> set ids \<and> invar s' \<and>
   (\<forall>j\<in>used s. fetch j s' = fetch j s) \<and> list_all2 (\<lambda>i d. fetch i s' = Inr d) ids ds"
proof (induction ds arbitrary: s ids)
  case Nil
  then show ?case by simp
next
  case (Cons d ds)
  then obtain i s1 js where st: "store d s = Inr (i, s1)"
    and rest: "store_many store ds s1 = Inr (js, s')" and ids: "ids = i # js"
    by auto
  note facts = store_invar store_fresh store_used store_fetch store_keeps
  note first = facts [OF Cons.prems(1) st]
  from Cons.IH [OF first(1) rest] have
    IH: "distinct js" "set js \<inter> used s1 = {}" "used s' = used s1 \<union> set js" "invar s'"
      "\<forall>j\<in>used s1. fetch j s' = fetch j s1" "list_all2 (\<lambda>i d. fetch i s' = Inr d) js ds"
    by auto
  have "i \<notin> set js" "fetch i s' = Inr d"
    using IH(2,5) first(3,4) by auto
  moreover have "fetch j s' = fetch j s" if "j \<in> used s" for j
    using that IH(5) first(3) first(5) [OF that] by simp
  ultimately show ?case
    using IH first ids by auto
qed

lemma fetch_survives:
  "\<lbrakk>invar s; store d s = Inr (i, s1); store_many store ds s1 = Inr (ids, s')\<rbrakk> \<Longrightarrow> fetch i s' = Inr d"
  using store_many_table [of s1 ds ids s'] store_invar store_used store_fetch by auto

end

definition used_ids :: "('w, 'z) tunnel_state_scheme \<Rightarrow> int set" where
  "used_ids s = {i. 1 \<le> i \<and> slot_used TCP_PLUGIN s (nat i)}"

lemma Store_used_ids:
  assumes "tunnel_ok s" and "StoreConnectionInformation k TCP_PLUGIN d s = Inr (i, s')"
  shows "i \<notin> used_ids s \<and> used_ids s' = insert i (used_ids s)"
proof -
  obtain n and r1 r2 :: reply where n: "i = int n" "1 \<le> n" "\<not> slot_used TCP_PLUGIN s n"
    "connection_at TCP_PLUGIN i s' =
      Inr \<lparr>connectiondata = d, sendsocket = r_ret r1, recvsocket = r_ret r2, active = 1\<rparr>"
    "\<forall>q j. (q, j) \<noteq> (TCP_PLUGIN, i) \<longrightarrow> connection_at q j s' = connection_at q j s"
    by (rule Store_result [OF assms]) (rule that; assumption)
  have step: "slot_used TCP_PLUGIN s' m = (m = n \<or> slot_used TCP_PLUGIN s m)" for m
  proof (cases "m = n")
    case True
    then show ?thesis
      using n(1,4) by (simp add: slot_used_def)
  next
    case False
    then have "connection_at TCP_PLUGIN (int m) s' = connection_at TCP_PLUGIN (int m) s"
      using n(1,5) by simp
    from slot_used_cong [OF this] show ?thesis
      using False by simp
  qed
  have "j \<in> used_ids s' \<longleftrightarrow> j \<in> insert i (used_ids s)" for j
    unfolding used_ids_def mem_Collect_eq insert_iff step
    using n(1,2) by (cases "j = i") (simp_all add: nat_eq_iff)
  moreover have "i \<notin> used_ids s"
    using n(1,3) by (simp add: used_ids_def)
  ultimately show ?thesis
    by blast
qed

interpretation conn: slot_table "StoreConnectionInformation k TCP_PLUGIN"
    "RetrieveConnectionInformation TCP_PLUGIN" used_ids tunnel_ok
  for k :: "'w kernel"
proof unfold_locales
  fix s s' :: "('w, 'z) tunnel_state_scheme" and d i j
  assume ok: "tunnel_ok s" and st: "StoreConnectionInformation k TCP_PLUGIN d s = Inr (i, s')"
  obtain r1 r2 :: reply where at: "connection_at TCP_PLUGIN i s' =
      Inr \<lparr>connectiondata = d, sendsocket = r_ret r1, recvsocket = r_ret r2, active = 1\<rparr>"
    "\<forall>q j. (q, j) \<noteq> (TCP_PLUGIN, i) \<longrightarrow> connection_at q j s' = connection_at q j s" "tunnel_ok s'"
    by (rule Store_result [OF ok st]) (rule that; assumption)
  show "tunnel_ok s'" "RetrieveConnectionInformation TCP_PLUGIN i s' = Inr d"
    using at by (simp_all add: RetrieveConnectionInformation_def)
  show "i \<notin> used_ids s" "used_ids s' = insert i (used_ids s)"
    using Store_used_ids [OF ok st] by auto
  show "RetrieveConnectionInformation TCP_PLUGIN j s' = RetrieveConnectionInformation TCP_PLUGIN j s"
    if "j \<in> used_ids s"
  proof -
    have "j \<noteq> i"
      using that Store_used_ids [OF ok st] by auto
    then have "connection_at TCP_PLUGIN j s' = connection_at TCP_PLUGIN j s"
      using at(2) by blast
    then show ?thesis
      by (simp add: RetrieveConnectionInformation_def)
  qed
qed

lemma tunnel_ok_zero: "plugindata s = plugindata_zero \<Longrightarrow> tunnel_ok s"
  by (simp add: tunnel_ok_def plugindata_zero_def)

lemma slot_used_zero: "plugindata s = plugindata_zero \<Longrightarrow> \<not> slot_used TCP_PLUGIN s m"
  by (auto simp: slot_used_def connection_at_def plugindata_zero_def tnconnection_zero_def global_consts)

text \<open>A program state as it is before \<open>main\<close> runs, over a given world.\<close>

definition tunnel_start :: "'w \<Rightarrow> 'w tunnel_state" where
  "tunnel_start w = \<lparr>world = w, trace = [], errno = 0, gv = global_v_zero,
     plugindata = plugindata_zero, live = {}\<rparr>"

lemma tunnel_start_ok [simp]: "tunnel_ok (tunnel_start w)" "\<not> slot_used TCP_PLUGIN (tunnel_start w) m"
  by (simp_all add: tunnel_start_def tunnel_ok_zero slot_used_zero)

text \<open>A kernel for closed examples: every call succeeds and returns the number of the call.\<close>

definition counting_kernel :: "nat kernel" where
  "counting_kernel c w = (reply_ok (int w + 3), Suc w)"

lemma Store_cases:
  assumes "tunnel_ok s"
  shows "if \<exists>m. 1 \<le> m \<and> m < 50 \<and> \<not> slot_used TCP_PLUGIN s m
    then \<exists>s'. StoreConnectionInformation k TCP_PLUGIN d s
           = Inr (int (LEAST m. 1 \<le> m \<and> \<not> slot_used TCP_PLUGIN s m), s')
    else StoreConnectionInformation k TCP_PLUGIN d s = Inl OutOfBounds"
proof (cases "\<exists>m. 1 \<le> m \<and> m < 50 \<and> \<not> slot_used TCP_PLUGIN s m")
  case True
  let ?n = "LEAST m. 1 \<le> m \<and> \<not> slot_used TCP_PLUGIN s m"
  have "find_slot TCP_PLUGIN 1 s = Inr ?n"
    using find_slot_total [OF assms, of 1] True by simp
  moreover have "?n < 50"
    using True by (metis (no_types, lifting) Least_le le_less_trans)
  ultimately show ?thesis
    using True by (simp add: StoreConnectionInformation_def split_beta Let_def MAXINT_def)
next
  case False
  then show ?thesis
    by (simp only: StoreConnectionInformation_def find_slot_total [OF assms, of 1] if_False
        res_bind.simps simp_thms)
qed

text \<open>The slots 1 to \<open>m - 1\<close> are in use and the others are not.\<close>

definition filled_to :: "nat \<Rightarrow> ('w, 'z) tunnel_state_scheme \<Rightarrow> bool" where
  "filled_to m s \<longleftrightarrow> tunnel_ok s \<and> 1 \<le> m \<and> m \<le> 50 \<and> (\<forall>j. 1 \<le> j \<longrightarrow> j < 50 \<longrightarrow> (slot_used TCP_PLUGIN s j \<longleftrightarrow> j < m))"

lemma filled_to_store:
  assumes f: "filled_to m s"
  shows "if m < 50
    then \<exists>s'. StoreConnectionInformation k TCP_PLUGIN d s = Inr (int m, s') \<and> filled_to (Suc m) s'
    else StoreConnectionInformation k TCP_PLUGIN d s = Inl OutOfBounds"
proof (cases "m < 50")
  case True
  have ok: "tunnel_ok s" and m: "1 \<le> m" "\<not> slot_used TCP_PLUGIN s m"
    using f True by (auto simp: filled_to_def)
  have "(LEAST j. 1 \<le> j \<and> \<not> slot_used TCP_PLUGIN s j) = m"
    using f True m by (intro Least_equality) (auto simp: filled_to_def not_less [symmetric])
  then obtain s' where st: "StoreConnectionInformation k TCP_PLUGIN d s = Inr (int m, s')"
    using Store_cases [OF ok, of k d] True m by (auto split: if_splits)
  have "tunnel_ok s'" "used_ids s' = insert (int m) (used_ids s)"
    using conn.store_invar [OF ok st] conn.store_used [OF ok st] by auto
  then have "slot_used TCP_PLUGIN s' j \<longleftrightarrow> j < Suc m" if "1 \<le> j" "j < 50" for j
    using that f by (auto simp: used_ids_def filled_to_def set_eq_iff dest!: spec [of _ "int j"])
  then show ?thesis
    using st True m(1) \<open>tunnel_ok s'\<close> by (simp add: filled_to_def)
next
  case False
  then show ?thesis
    using f Store_cases [of s k d] by (auto simp: filled_to_def split: if_splits)
qed

lemma filled_to_start [simp]: "filled_to 1 (tunnel_start w)"
  by (simp add: filled_to_def)

lemma store_many_filled:
  "filled_to m s \<Longrightarrow>
   if m + length ds \<le> 50
   then \<exists>s'. store_many (StoreConnectionInformation k TCP_PLUGIN) ds s
          = Inr (map int [m ..< m + length ds], s') \<and> filled_to (m + length ds) s'
   else store_many (StoreConnectionInformation k TCP_PLUGIN) ds s = Inl OutOfBounds"
proof (induction ds arbitrary: m s)
  case Nil
  then show ?case
    by (auto simp: filled_to_def)
next
  case (Cons d ds)
  show ?case
  proof (cases "m < 50")
    case True
    then obtain s1 where st: "StoreConnectionInformation k TCP_PLUGIN d s = Inr (int m, s1)"
      and f: "filled_to (Suc m) s1"
      using filled_to_store [OF Cons.prems, of k d] by auto
    have up: "map int [m ..< m + length (d # ds)] = int m # map int [Suc m ..< Suc m + length ds]"
      by (simp add: upt_conv_Cons del: upt_Suc)
    show ?thesis
      using Cons.IH [OF f] st unfolding up by (auto simp del: upt_Suc split: if_splits)
  next
    case False
    then show ?thesis
      using filled_to_store [OF Cons.prems, of k d] by simp
  qed
qed

text \<open>C27. Connections stored one after the other get pairwise distinct identifiers, each leads
  back to its own data however many connections are stored later, and data stored before is
  not disturbed.\<close>

theorem stored_connections_are_separate:
  assumes "tunnel_ok s"
    and "store_many (StoreConnectionInformation k TCP_PLUGIN) ds s = Inr (ids, s')"
  shows "distinct ids \<and> list_all2 (\<lambda>i d. RetrieveConnectionInformation TCP_PLUGIN i s' = Inr d) ids ds \<and>
    (\<forall>j\<in>used_ids s. RetrieveConnectionInformation TCP_PLUGIN j s' = RetrieveConnectionInformation TCP_PLUGIN j s)"
  using conn.store_many_table [OF assms] by simp


theorem stored_connections_are_separate_witness:
  "\<exists>s'. store_many (StoreConnectionInformation counting_kernel TCP_PLUGIN) [7, 9] (tunnel_start 0)
          = Inr ([1, 2], s') \<and>
        list_all2 (\<lambda>i d. RetrieveConnectionInformation TCP_PLUGIN i s' = Inr d) [1, 2] [7, 9]"
proof -
  obtain s' where s': "store_many (StoreConnectionInformation counting_kernel TCP_PLUGIN) [7, 9]
      (tunnel_start 0) = Inr ([1, 2], s')"
    using store_many_filled [OF filled_to_start, of "[7, 9]" counting_kernel 0]
    by (auto simp: upt_conv_Cons)
  then show ?thesis
    using stored_connections_are_separate [OF tunnel_start_ok(1) s'] by blast
qed

text \<open>C28. Storing takes the lowest free identifier from 1 to 49; when all 49 are taken it reads
  past the end of the table, so the failure value 0 of the interface is never returned.\<close>

theorem Store_lowest_free_or_overrun:
  assumes "tunnel_ok s"
  shows "if \<exists>m. 1 \<le> m \<and> m < 50 \<and> \<not> slot_used TCP_PLUGIN s m
    then \<exists>s'. StoreConnectionInformation k TCP_PLUGIN d s
           = Inr (int (LEAST m. 1 \<le> m \<and> \<not> slot_used TCP_PLUGIN s m), s')
    else StoreConnectionInformation k TCP_PLUGIN d s = Inl OutOfBounds"
  using assms by (rule Store_cases)

theorem Store_lowest_free_or_overrun_witness:
  "\<exists>s'. StoreConnectionInformation counting_kernel TCP_PLUGIN 7 (tunnel_start 0)
     = Inr (int (LEAST m. 1 \<le> m), s')"
  using Store_lowest_free_or_overrun [OF tunnel_start_ok(1), of 0 counting_kernel 7]
  by (auto split: if_splits)

text \<open>From program start, up to 49 connections get the identifiers 1, 2, 3, ...; one more is an
  out-of-bounds access, whatever the operating system answers.\<close>

theorem table_capacity:
  "if length ds \<le> 49
   then \<exists>s'. store_many (StoreConnectionInformation k TCP_PLUGIN) ds (tunnel_start w)
          = Inr (map int [1 ..< 1 + length ds], s')
   else store_many (StoreConnectionInformation k TCP_PLUGIN) ds (tunnel_start w) = Inl OutOfBounds"
  using store_many_filled [OF filled_to_start, of ds k w] by (auto split: if_splits)

subsection \<open>Removing\<close>

lemma Remove_result:
  assumes "RemoveStoredConnectionInformation k TCP_PLUGIN i s = Inr s'"
  obtains c where "connection_at TCP_PLUGIN i s = Inr c"
    and "connection_at TCP_PLUGIN i s' = Inr (c\<lparr>active := 1\<rparr>)"
    and "\<forall>q j. (q, j) \<noteq> (TCP_PLUGIN, i) \<longrightarrow> connection_at q j s' = connection_at q j s"
    and "tunnel_ok s \<longrightarrow> tunnel_ok s'"
    and "connectiondata c \<noteq> 0 \<longrightarrow> connectiondata c \<notin> live s'"
proof -
  obtain c where c: "connection_at TCP_PLUGIN i s = Inr c"
    and rest: "(let s = set_connection TCP_PLUGIN i (\<lambda>c. c\<lparr>active := 1\<rparr>) s
       in if connectiondata c \<noteq> 0 then c_free k (connectiondata c) s else Inr s) = Inr s'"
    using assms by (auto simp: RemoveStoredConnectionInformation_def)
  let ?s1 = "set_connection TCP_PLUGIN i (\<lambda>c. c\<lparr>active := 1\<rparr>) s"
  have same: "connection_at q j s' = connection_at q j ?s1" "tunnel_ok s' = tunnel_ok ?s1"
    and gone: "connectiondata c \<noteq> 0 \<longrightarrow> connectiondata c \<notin> live s'" for q j
    using rest
    by (auto simp: Let_def c_free_def split_beta tunnel_ok_def split: if_splits)
  show thesis
  proof (rule that [OF c])
    show "connection_at TCP_PLUGIN i s' = Inr (c\<lparr>active := 1\<rparr>)"
      using c by (simp add: same connection_at_set)
    show "\<forall>q j. (q, j) \<noteq> (TCP_PLUGIN, i) \<longrightarrow> connection_at q j s' = connection_at q j s"
      using connection_at_set_other [OF c] by (simp add: same)
    show "tunnel_ok s \<longrightarrow> tunnel_ok s'"
      by (simp add: same tunnel_ok_set)
  qed (rule gone)
qed

text \<open>C40. An identifier that was removed is never given out again: removal marks the slot used
  instead of free.\<close>

theorem removed_slot_never_reused:
  assumes "tunnel_ok s" and "RemoveStoredConnectionInformation k TCP_PLUGIN i s = Inr s1"
    and "1 \<le> i"
    and "store_many (StoreConnectionInformation k TCP_PLUGIN) ds s1 = Inr (ids, s2)"
  shows "i \<notin> set ids"
proof -
  obtain c where "connection_at TCP_PLUGIN i s1 = Inr (c\<lparr>active := 1\<rparr>)" and ok: "tunnel_ok s1"
    using Remove_result [OF assms(2)] assms(1) by blast
  then have "i \<in> used_ids s1"
    using assms(3) by (simp add: used_ids_def slot_used_def)
  then show ?thesis
    using conn.store_many_table [OF ok assms(4)] by auto
qed

theorem removed_slot_never_reused_witness:
  "\<exists>s1 s2. RemoveStoredConnectionInformation counting_kernel TCP_PLUGIN 1 (tunnel_start 0) = Inr s1 \<and>
     store_many (StoreConnectionInformation counting_kernel TCP_PLUGIN) [7] s1 = Inr ([2], s2) \<and>
     1 \<notin> set [2 :: int]"
proof -
  let ?s = "tunnel_start (0 :: nat)"
  define s1 where "s1 = set_connection TCP_PLUGIN 1 (\<lambda>c. c\<lparr>active := 1\<rparr>) ?s"
  have at: "connection_at TCP_PLUGIN 1 ?s = Inr tnconnection_zero"
    by (simp add: connection_at_def tunnel_start_def plugindata_zero_def global_consts)
  then have rem: "RemoveStoredConnectionInformation counting_kernel TCP_PLUGIN 1 ?s = Inr s1"
    by (simp add: RemoveStoredConnectionInformation_def s1_def tnconnection_zero_def Let_def)
  have one: "slot_used TCP_PLUGIN s1 1"
    using connection_at_set [OF at] by (simp add: s1_def slot_used_def)
  have used: "slot_used TCP_PLUGIN s1 j \<longleftrightarrow> j = 1" for j
  proof (cases "j = 1")
    case False
    then have "connection_at TCP_PLUGIN (int j) s1 = connection_at TCP_PLUGIN (int j) ?s"
      unfolding s1_def by (intro connection_at_set_other [OF at]) simp
    from slot_used_cong [OF this] show ?thesis
      using False by simp
  qed (use one in simp)
  have "tunnel_ok s1"
    by (simp add: s1_def tunnel_ok_set)
  then have "filled_to 2 s1"
    unfolding filled_to_def used by auto
  then obtain s2 where st: "store_many (StoreConnectionInformation counting_kernel TCP_PLUGIN) [7] s1
      = Inr ([2], s2)"
    using store_many_filled [of 2 s1 "[7]" counting_kernel] by auto
  have "1 \<notin> set [2 :: int]"
    by (rule removed_slot_never_reused [OF tunnel_start_ok(1) rem _ st]) simp
  then show ?thesis
    using rem st by blast
qed

text \<open>Removing a connection that has data twice frees its block twice: the pointer is not
  cleared.\<close>

theorem second_remove_double_free:
  assumes "connection_at TCP_PLUGIN i s = Inr c" and "connectiondata c \<noteq> 0"
    and "RemoveStoredConnectionInformation k TCP_PLUGIN i s = Inr s'"
  shows "RemoveStoredConnectionInformation k TCP_PLUGIN i s' = Inl DoubleFree"
proof -
  have at: "connection_at TCP_PLUGIN i s' = Inr (c\<lparr>active := 1\<rparr>)" and gone: "connectiondata c \<notin> live s'"
    using Remove_result [OF assms(3)] assms(1,2) by auto
  then show ?thesis
    using assms(2) by (simp add: RemoveStoredConnectionInformation_def c_free_def Let_def)
qed

theorem second_remove_double_free_witness:
  "\<exists>(s :: nat tunnel_state) s'. RemoveStoredConnectionInformation counting_kernel TCP_PLUGIN 1 s = Inr s' \<and>
     RemoveStoredConnectionInformation counting_kernel TCP_PLUGIN 1 s' = Inl DoubleFree"
proof -
  let ?s = "set_connection TCP_PLUGIN 1 (\<lambda>c. c\<lparr>connectiondata := 7, active := 1\<rparr>)
    ((tunnel_start (0 :: nat))\<lparr>live := {7}\<rparr>)"
  have at: "connection_at TCP_PLUGIN 1 ?s = Inr (tnconnection_zero\<lparr>connectiondata := 7, active := 1\<rparr>)"
    by (simp add: connection_at_def set_connection_def tunnel_start_def plugindata_zero_def global_consts)
  obtain s' where rem: "RemoveStoredConnectionInformation counting_kernel TCP_PLUGIN 1 ?s = Inr s'"
    by (simp only: RemoveStoredConnectionInformation_def at c_free_def Let_def split_beta) simp
  show ?thesis
    using rem second_remove_double_free [OF at _ rem] by auto
qed

end
