(* ===== verification/Tuntap.thy ===== *)
theory Tuntap
  imports Tunnel
begin

section \<open>The tunnel interface: tuntap.c\<close>

text \<open>
  The static variables are the name of the interface and the descriptor of the TAP device. The
  operations follow the code call by call; each returns the C result with the new state, or
  \<open>OutOfBounds\<close> where \<open>strcpy\<close> would copy a name of 16 or more characters into the 16
  bytes of an interface request. The two address functions differ in the request they send
  only, as in the code.
\<close>

definition TUNDEV :: string where "TUNDEV = ''/dev/net/tun''"

record 'w tun_state = "'w tunnel_state" +
  iface_name :: "char list"
  tfd :: int

subsection \<open>The code\<close>

definition tun_alloc :: "'w kernel \<Rightarrow> string \<Rightarrow> ('w, 'z) tun_state_scheme \<Rightarrow> (int \<times> ('w, 'z) tun_state_scheme) res" where
  "tun_alloc k path s =
     (let (r, s) = sys k (Open path O_RDWR) s; s = s\<lparr>tfd := r_ret r\<rparr>
      in if tfd s < 0 then Inr (- 1, s)
      else
        let (r, s) = sys k (TunSetIff (tfd s) (IFF_TAP OR IFF_NO_PI)) s
        in if r_ret r < 0 then
          let (_, s) = sys k (Close (tfd s)) s; s = s\<lparr>tfd := - 1\<rparr>
          in Inr (errno s, s)
        else
          res_bind (strncpy (iface_name s) (Some (c_str (r_name r))) 100)
            (\<lambda>b. Inr (0, s\<lparr>iface_name := b\<rparr>)))"

definition tun_open :: "'w kernel \<Rightarrow> ('w, 'z) tun_state_scheme \<Rightarrow> (int \<times> ('w, 'z) tun_state_scheme) res" where
  "tun_open k s = tun_alloc k TUNDEV s"

definition tun_write :: "'w kernel \<Rightarrow> byte list \<Rightarrow> ('w, 'z) tun_state_scheme \<Rightarrow> int \<times> ('w, 'z) tun_state_scheme" where
  "tun_write k data s = (let (r, s) = sys k (Write (tfd s) data) s in (r_ret r, s))"

definition tun_read :: "'w kernel \<Rightarrow> nat \<Rightarrow> ('w, 'z) tun_state_scheme \<Rightarrow> (int \<times> byte list) \<times> ('w, 'z) tun_state_scheme" where
  "tun_read k numbytes s =
     (let (r, s) = sys k (Read (tfd s) numbytes) s in ((r_ret r, r_bytes r), s))"

definition tun_getFile :: "('w, 'z) tun_state_scheme \<Rightarrow> int" where
  "tun_getFile s = tfd s"

text \<open>\<open>strcpy(ifr.ifr_ifrn.ifrn_name, iface_name)\<close>\<close>

definition ifrn_name :: "('w, 'z) tun_state_scheme \<Rightarrow> string res" where
  "ifrn_name s =
     (if length (c_str (iface_name s)) < IFNAMSIZ then Inr (c_str (iface_name s)) else Inl OutOfBounds)"

definition tun_UP :: "'w kernel \<Rightarrow> ('w, 'z) tun_state_scheme \<Rightarrow> (int \<times> ('w, 'z) tun_state_scheme) res" where
  "tun_UP k s =
     (let (r, s) = sys k (Socket PF_INET SOCK_DGRAM) s; ctrl_sock = r_ret r
      in if ctrl_sock < 0 then Inr (- 1, s)
      else res_bind (ifrn_name s) (\<lambda>name.
        let (r, s) = sys k (GetIfFlags ctrl_sock name) s
        in if r_ret r = - 1 then Inr (- 1, s)
        else
          let (q, s) = sys k (SetIfFlags ctrl_sock name (r_flags r OR IFF_UP)) s
          in if r_ret q = - 1 then Inr (- 1, s) else Inr (0, s)))"

definition tun_setIP :: "'w kernel \<Rightarrow> string \<Rightarrow> ('w, 'z) tun_state_scheme \<Rightarrow> (int \<times> ('w, 'z) tun_state_scheme) res" where
  "tun_setIP k ip_str s =
     (let (a, s) = sys k (InetAton ip_str) s
      in if r_ret a = 0 then Inr (- 1, s)
      else
        let (r, s) = sys k (Socket PF_INET SOCK_DGRAM) s; ctrl_sock = r_ret r
        in if ctrl_sock < 0 then Inr (- 1, s)
        else res_bind (ifrn_name s) (\<lambda>name.
          let (r, s) = sys k (SetIfAddr ctrl_sock name (r_addr a)) s
          in if r_ret r < 0 then Inr (- 1, s)
          else let (_, s) = sys k (Close ctrl_sock) s in Inr (0, s)))"

definition tun_setNETMASK :: "'w kernel \<Rightarrow> string \<Rightarrow> ('w, 'z) tun_state_scheme \<Rightarrow> (int \<times> ('w, 'z) tun_state_scheme) res" where
  "tun_setNETMASK k netmask_str s =
     (let (a, s) = sys k (InetAton netmask_str) s
      in if r_ret a = 0 then Inr (- 1, s)
      else
        let (r, s) = sys k (Socket PF_INET SOCK_DGRAM) s; ctrl_sock = r_ret r
        in if ctrl_sock < 0 then Inr (- 1, s)
        else res_bind (ifrn_name s) (\<lambda>name.
          let (r, s) = sys k (SetIfNetmask ctrl_sock name (r_addr a)) s
          in if r_ret r < 0 then Inr (- 1, s)
          else let (_, s) = sys k (Close ctrl_sock) s in Inr (0, s)))"

subsection \<open>What the operations leave alone\<close>

lemma sys_tun [frame, simp]:
  "iface_name (snd (sys k c s)) = iface_name s" "tfd (snd (sys k c s)) = tfd s"
  by (simp_all add: sys_def split_beta Let_def)

lemma ifrn_name_sys [frame, simp]: "ifrn_name (snd (sys k c s)) = ifrn_name s"
  by (simp add: ifrn_name_def)

text \<open>
  \<open>same_vars s s'\<close>: two states have the same program variables; the outside world, the
  trace and \<open>errno\<close> may differ.
\<close>

definition same_vars :: "('w, 'z) sys_state_scheme \<Rightarrow> ('w, 'z) sys_state_scheme \<Rightarrow> bool" where
  "same_vars s s' \<longleftrightarrow> s'\<lparr>world := world s, trace := trace s, errno := errno s\<rparr> = s"

lemma same_vars_refl [simp]: "same_vars s s"
  by (simp add: same_vars_def)

lemma same_vars_sys [simp]: "same_vars s (snd (sys k c s))"
  by (simp add: same_vars_def sys_def split_beta Let_def)

lemma same_vars_trans: "\<lbrakk>same_vars s t; same_vars t u\<rbrakk> \<Longrightarrow> same_vars s u"
  by (cases s; cases t; cases u) (simp add: same_vars_def)

lemma same_vars_iff:
  "same_vars s s' \<longleftrightarrow> gv s' = gv s \<and> sys_state.more s' = sys_state.more s"
  by (cases s; cases s') (auto simp: same_vars_def)

text \<open>The name is short enough for an interface request.\<close>

definition iface_ok :: "('w, 'z) tun_state_scheme \<Rightarrow> bool" where
  "iface_ok s \<longleftrightarrow> buf_ok 100 (iface_name s) \<and> length (c_str (iface_name s)) < IFNAMSIZ"

lemma iface_ok_name: "iface_ok s \<Longrightarrow> ifrn_name s = Inr (c_str (iface_name s))"
  by (simp add: iface_ok_def ifrn_name_def)

lemma iface_ok_sys [simp]: "iface_ok (snd (sys k c s)) = iface_ok s"
  by (simp add: iface_ok_def)

lemma same_vars_tun: "same_vars s s' \<Longrightarrow> tfd s' = tfd s \<and> iface_name s' = iface_name s \<and> gv s' = gv s"
  by (cases s; cases s') (simp add: same_vars_def)

lemma iface_ok_same_vars: "\<lbrakk>same_vars s s'; iface_ok s\<rbrakk> \<Longrightarrow> iface_ok s'"
  by (simp add: iface_ok_def same_vars_tun)

subsection \<open>Opening the device\<close>

text \<open>Documented behaviour of Linux: a failing call sets \<open>errno\<close> to a positive number, and the
  interface name that TUNSETIFF writes back fits its 16 bytes with the terminator.\<close>

definition posix_errno :: "'w kernel \<Rightarrow> bool" where
  "posix_errno k \<longleftrightarrow> (\<forall>c w. r_ret (fst (k c w)) < 0 \<longrightarrow> 0 < r_errno (fst (k c w)))"

definition short_names :: "'w kernel \<Rightarrow> bool" where
  "short_names k \<longleftrightarrow> (\<forall>fd fl w. length (c_str (r_name (fst (k (TunSetIff fd fl) w)))) < IFNAMSIZ)"

lemma posix_errno_sys:
  "\<lbrakk>posix_errno k; r_ret (fst (sys k c s)) < 0\<rbrakk> \<Longrightarrow> 0 < errno (snd (sys k c s))"
  by (simp add: posix_errno_def sys_errno sys_reply)

lemma errno_sys_pos: "\<lbrakk>posix_errno k; 0 < errno s\<rbrakk> \<Longrightarrow> 0 < errno (snd (sys k c s))"
  using posix_errno_sys [of k c s] by (cases "r_ret (fst (sys k c s)) < 0") (simp_all add: sys_errno)

lemma c_str_no_NUL: "NUL \<notin> set (c_str b)"
  by (auto simp: c_str_def dest: set_takeWhileD)

lemma iface_ok_strncpy:
  assumes "buf_ok 100 b" "strncpy b (Some (c_str n)) 100 = Inr b'" "length (c_str n) < IFNAMSIZ"
  shows "iface_ok (s\<lparr>iface_name := b'\<rparr>)"
  using strncpy_buf_ok [OF assms(1) le_refl assms(2)] c_str_strncpy [OF c_str_no_NUL assms(1,2)] assms(3)
  by (simp add: iface_ok_def IFNAMSIZ_def)

definition tun_start :: "'w \<Rightarrow> 'w tun_state" where
  "tun_start w = \<lparr>world = w, trace = [], errno = 0, gv = global_v_zero,
     plugindata = plugindata_zero, live = {}, iface_name = replicate 256 NUL, tfd = 0\<rparr>"

lemma tun_start_buf: "buf_ok 100 (iface_name (tun_start w))"
  by (simp add: tun_start_def buf_ok_zero)

lemma tun_start_iface_ok [simp]: "iface_ok (tun_start w)"
  by (simp add: iface_ok_def tun_start_def buf_ok_zero IFNAMSIZ_def)

lemma counting_kernel_laws [simp]: "posix_errno counting_kernel" "short_names counting_kernel"
  by (simp_all add: posix_errno_def short_names_def counting_kernel_def reply_ok_def c_str_def IFNAMSIZ_def)

lemma tun_open_cases:
  assumes "posix_errno k" and "short_names k" and "buf_ok 100 (iface_name s)"
  shows "\<exists>rc s'. tun_open k s = Inr (rc, s') \<and>
    (rc = 0 \<longrightarrow> 0 \<le> tfd s' \<and> iface_ok s' \<and> tfd s' \<in> set (open_fds (trace s'))) \<and>
    (rc \<noteq> 0 \<longrightarrow> tfd s' < 0 \<and> set (open_fds (trace s')) \<subseteq> set (open_fds (trace s)))"
proof -
  define s1 where "s1 = (snd (sys k (Open TUNDEV O_RDWR) s))\<lparr>tfd := r_ret (fst (sys k (Open TUNDEV O_RDWR) s))\<rparr>"
  define r where "r = fst (sys k (TunSetIff (tfd s1) (IFF_TAP OR IFF_NO_PI)) s1)"
  define s2 where "s2 = snd (sys k (TunSetIff (tfd s1) (IFF_TAP OR IFF_NO_PI)) s1)"
  have open_eq: "tun_open k s =
    (if tfd s1 < 0 then Inr (- 1, s1)
     else if r_ret r < 0 then
       Inr (errno (snd (sys k (Close (tfd s2)) s2)), (snd (sys k (Close (tfd s2)) s2))\<lparr>tfd := - 1\<rparr>)
     else res_bind (strncpy (iface_name s2) (Some (c_str (r_name r))) 100) (\<lambda>b. Inr (0, s2\<lparr>iface_name := b\<rparr>)))"
    by (simp add: tun_open_def tun_alloc_def Let_def split_beta s1_def r_def s2_def)
  have fds1: "open_fds (trace s1) = open_fds (trace s) @ (if tfd s1 < 0 then [] else [tfd s1])"
    by (simp add: s1_def open_fds_sys)
  have fds2: "open_fds (trace s2) = open_fds (trace s1)" "tfd s2 = tfd s1"
    by (simp_all add: s2_def open_fds_sys)
  have name2: "iface_name s2 = iface_name s"
    by (simp add: s2_def s1_def)
  consider "tfd s1 < 0" | "0 \<le> tfd s1" "r_ret r < 0" | "0 \<le> tfd s1" "0 \<le> r_ret r"
    by linarith
  then show ?thesis
  proof cases
    case 1
    then show ?thesis
      using fds1 by (simp add: open_eq)
  next
    case 2
    have "0 < errno s2"
      using posix_errno_sys [OF assms(1)] 2(2) by (simp add: s2_def r_def)
    then have "0 < errno (snd (sys k (Close (tfd s2)) s2))"
      by (rule errno_sys_pos [OF assms(1)])
    then show ?thesis
      using 2 fds1 fds2 by (auto simp: open_eq open_fds_sys)
  next
    case 3
    have "length (c_str (r_name r)) < IFNAMSIZ"
      using assms(2) by (simp add: short_names_def r_def sys_reply)
    moreover obtain b where b: "strncpy (iface_name s2) (Some (c_str (r_name r))) 100 = Inr b"
      using strncpy_total [OF assms(3) le_refl] name2 by auto
    ultimately have "iface_ok (s2\<lparr>iface_name := b\<rparr>)"
      using iface_ok_strncpy assms(3) name2 by metis
    then show ?thesis
      using 3 b fds1 fds2 by (simp add: open_eq)
  qed
qed

text \<open>C39. Opening the TAP device: it returns 0 only with the device open and an interface name that
  later requests can copy safely; on any failure the static descriptor is negative and no
  descriptor is left open.\<close>

theorem tun_open_result:
  assumes "posix_errno k" and "short_names k" and "buf_ok 100 (iface_name s)"
  shows "\<exists>rc s'. tun_open k s = Inr (rc, s') \<and>
    (rc = 0 \<longrightarrow> 0 \<le> tfd s' \<and> iface_ok s' \<and> tfd s' \<in> set (open_fds (trace s'))) \<and>
    (rc \<noteq> 0 \<longrightarrow> tfd s' < 0 \<and> set (open_fds (trace s')) \<subseteq> set (open_fds (trace s)))"
  using assms by (rule tun_open_cases)

theorem tun_open_result_witness:
  "\<exists>s'. tun_open counting_kernel (tun_start 0) = Inr (0, s') \<and> 0 \<le> tfd s' \<and> iface_ok s'"
proof -
  have "tun_open counting_kernel (tun_start 0) \<noteq> Inr (rc, s')" if "rc \<noteq> 0" for rc s'
    using that by (auto simp: tun_open_def tun_alloc_def counting_kernel_def reply_ok_def sys_def Let_def)
  then show ?thesis
    using tun_open_result [OF counting_kernel_laws tun_start_buf, of 0] by metis
qed

subsection \<open>Configuring the interface\<close>

text \<open>Whatever they return, these operations change no variable of the program.\<close>

lemma tun_config_same_vars:
  "tun_setIP k t s = Inr (rc, s') \<Longrightarrow> same_vars s s'"
  "tun_setNETMASK k t s = Inr (rc, s') \<Longrightarrow> same_vars s s'"
  "tun_UP k s = Inr (rc, s') \<Longrightarrow> same_vars s s'"
  by (auto simp: tun_setIP_def tun_setNETMASK_def tun_UP_def Let_def split_beta same_vars_iff split: if_splits)

text \<open>Setting the address succeeds exactly when the text is an address, a control socket is
  obtained and the kernel accepts the request; then the calls made are, in order, the
  conversion, the socket, the request with the interface name and the converted address, and
  the close of the socket. No variable of the program changes in any case.\<close>

theorem tun_setIP_effect:
  assumes "iface_ok s"
  shows "\<exists>rc s'. tun_setIP k ip s = Inr (rc, s') \<and> same_vars s s' \<and> rc \<in> {0, - 1} \<and>
    (rc = 0 \<longleftrightarrow> (\<exists>a c q z.
       trace s' = trace s @ [(InetAton ip, a), (Socket PF_INET SOCK_DGRAM, c),
         (SetIfAddr (r_ret c) (c_str (iface_name s)) (r_addr a), q), (Close (r_ret c), z)] \<and>
       r_ret a \<noteq> 0 \<and> 0 \<le> r_ret c \<and> 0 \<le> r_ret q))"
  using iface_ok_name [OF assms]
  by (auto simp: tun_setIP_def Let_def split_beta sys_trace same_vars_iff)


theorem tun_setIP_effect_witness:
  "\<exists>rc s'. tun_setIP counting_kernel ''10.0.0.1'' (tun_start 0) = Inr (rc, s') \<and>
     same_vars (tun_start 0) s' \<and> rc \<in> {0, - 1}"
  using tun_setIP_effect [OF tun_start_iface_ok, of counting_kernel "''10.0.0.1''" 0] by blast

text \<open>The same for the netmask, with its own request.\<close>

lemma tun_setNETMASK_effect:
  assumes "iface_ok s"
  shows "\<exists>rc s'. tun_setNETMASK k msk s = Inr (rc, s') \<and> same_vars s s' \<and> rc \<in> {0, - 1} \<and>
    (rc = 0 \<longleftrightarrow> (\<exists>a c q z.
       trace s' = trace s @ [(InetAton msk, a), (Socket PF_INET SOCK_DGRAM, c),
         (SetIfNetmask (r_ret c) (c_str (iface_name s)) (r_addr a), q), (Close (r_ret c), z)] \<and>
       r_ret a \<noteq> 0 \<and> 0 \<le> r_ret c \<and> 0 \<le> r_ret q))"
  using iface_ok_name [OF assms]
  by (auto simp: tun_setNETMASK_def Let_def split_beta sys_trace same_vars_iff)

text \<open>Bringing the interface up reads its flags and writes them back with only the UP bit
  added; and on every path, success included, the control socket it opened stays open.\<close>

theorem tun_UP_effect:
  assumes "iface_ok s"
  shows "\<exists>rc s'. tun_UP k s = Inr (rc, s') \<and> same_vars s s' \<and> rc \<in> {0, - 1} \<and>
    (rc = 0 \<longrightarrow> (\<exists>c f q.
       trace s' = trace s @ [(Socket PF_INET SOCK_DGRAM, c), (GetIfFlags (r_ret c) (c_str (iface_name s)), f),
         (SetIfFlags (r_ret c) (c_str (iface_name s)) (r_flags f OR IFF_UP), q)] \<and>
       (\<forall>n. bit (r_flags f OR IFF_UP) n = (bit (r_flags f) n \<or> n = 0)) \<and>
       r_ret q \<noteq> - 1)) \<and>
    open_fds (trace s') = open_fds (trace s) @ opens (Socket PF_INET SOCK_DGRAM) (fst (sys k (Socket PF_INET SOCK_DGRAM) s))"
  using iface_ok_name [OF assms]
  by (auto simp: tun_UP_def Let_def split_beta sys_trace same_vars_iff open_fds_fold IFF_UP_def
      bit_or_iff bit_1_iff)

theorem tun_UP_effect_witness:
  "\<exists>rc s'. tun_UP counting_kernel (tun_start 0) = Inr (rc, s') \<and> open_fds (trace s') = [3]"
  using tun_UP_effect [OF tun_start_iface_ok, of counting_kernel 0]
  by (auto simp: sys_def counting_kernel_def reply_ok_def Let_def tun_start_def open_fds_def)

end
