(* ===== verification/Base64.thy ===== *)
theory Base64
  imports Tuntap
begin

section \<open>Base64: base64.c\<close>

text \<open>
  The encoder and the decoder as they are written: index loops over arrays, with 32-bit
  arithmetic on the packed triples. A block from \<open>malloc\<close> has the content that the
  kernel's reply gives it, since C does not initialise it; every write is checked against the
  block's size. \<open>char\<close> is signed, as it is with gcc on Linux for x86, so a byte of 128 or
  more is a negative index of the decoding table. The loop counters are \<open>int\<close>: they are
  modelled by natural numbers, and a length that would take them past \<open>INT_MAX\<close> is
  \<open>IntOverflow\<close>.
\<close>

subsection \<open>Tables\<close>

definition encoding_table :: "byte list" where
  "encoding_table = map (\<lambda>c. word_of_nat (of_char c))
     ''ABCDEFGHIJKLMNOPQRSTUVWXYZabcdefghijklmnopqrstuvwxyz0123456789+/''"

definition mod_table :: "nat list" where "mod_table = [0, 2, 1]"

definition eq_sign :: byte where "eq_sign = 61"

definition INT_MAX :: nat where "INT_MAX = 2147483647"

text \<open>The static pointer \<open>decoding_table\<close>: NULL, a block, or a block that was freed.\<close>

datatype table_ptr = Null | Block "byte list" | Freed

record 'w base64_state = "'w tun_state" +
  decoding_table :: table_ptr

definition buf_write :: "byte list \<Rightarrow> nat \<Rightarrow> byte \<Rightarrow> byte list res" where
  "buf_write b i v = (if i < length b then Inr (b[i := v]) else Inl OutOfBounds)"

definition data_at :: "byte list \<Rightarrow> nat \<Rightarrow> byte res" where
  "data_at b i = (if i < length b then Inr (b ! i) else Inl OutOfBounds)"

definition malloc_block :: "reply \<Rightarrow> nat \<Rightarrow> byte list" where
  "malloc_block r n = take n (r_bytes r @ replicate n 0)"

lemma length_malloc_block [simp]: "length (malloc_block r n) = n"
  by (simp add: malloc_block_def)

subsection \<open>base64_encode\<close>

text \<open>\<open>i < input_length ? (unsigned char)data[i++] : 0\<close>\<close>

definition octet :: "byte list \<Rightarrow> nat \<Rightarrow> 32 word \<times> nat" where
  "octet data i = (if i < length data then (ucast (data ! i), i + 1) else (0, i))"

definition pack3 :: "32 word \<Rightarrow> 32 word \<Rightarrow> 32 word \<Rightarrow> 32 word" where
  "pack3 a b c = push_bit 0x10 a + push_bit 0x08 b + c"

function encode_loop :: "byte list \<Rightarrow> nat \<Rightarrow> nat \<Rightarrow> byte list \<Rightarrow> byte list res" where
  "encode_loop data i j buf =
     (if i < length data then
        let (octet_a, i1) = octet data i;
            (octet_b, i2) = octet data i1;
            (octet_c, i3) = octet data i2;
            triple = pack3 octet_a octet_b octet_c
        in res_bind (buf_write buf j (encoding_table ! unat (drop_bit (3 * 6) triple AND 0x3F))) (\<lambda>buf.
           res_bind (buf_write buf (j + 1) (encoding_table ! unat (drop_bit (2 * 6) triple AND 0x3F))) (\<lambda>buf.
           res_bind (buf_write buf (j + 2) (encoding_table ! unat (drop_bit (1 * 6) triple AND 0x3F))) (\<lambda>buf.
           res_bind (buf_write buf (j + 3) (encoding_table ! unat (drop_bit (0 * 6) triple AND 0x3F))) (\<lambda>buf.
             encode_loop data i3 (j + 4) buf))))
      else Inr buf)"
  by pat_completeness auto
termination
  by (relation "measure (\<lambda>(data, i, j, buf). length data - i)")
    (auto simp: octet_def split: if_splits)

declare encode_loop.simps [simp del]

text \<open>The loop that writes '=' from the end.\<close>

function pad_loop :: "nat \<Rightarrow> nat \<Rightarrow> nat \<Rightarrow> byte list \<Rightarrow> byte list res" where
  "pad_loop m output_length i buf =
     (if i < m then
        res_bind (buf_write buf (output_length - 1 - i) eq_sign) (\<lambda>buf. pad_loop m output_length (i + 1) buf)
      else Inr buf)"
  by pat_completeness auto
termination
  by (relation "measure (\<lambda>(m, n, i, buf). m - i)") auto

declare pad_loop.simps [simp del]

text \<open>The result is NULL or the encoded block, with \<open>*output_length\<close>.\<close>

definition base64_encode ::
    "'w kernel \<Rightarrow> byte list \<Rightarrow> ('w, 'z) sys_state_scheme \<Rightarrow> ((byte list option \<times> nat) \<times> ('w, 'z) sys_state_scheme) res" where
  "base64_encode k data s =
     (let input_length = length data;
          output_length = 4 * ((input_length + 2) div 3);
          (r, s) = sys k (Malloc output_length) s
      in if r_ret r = 0 then Inr ((None, output_length), s)
      else if INT_MAX < output_length then Inl IntOverflow
      else
        res_bind (encode_loop data 0 0 (malloc_block r output_length)) (\<lambda>buf.
        res_bind (pad_loop (mod_table ! (input_length mod 3)) output_length 0 buf) (\<lambda>buf.
          Inr ((Some buf, output_length), s))))"

subsection \<open>base64_decode\<close>

function build_loop :: "nat \<Rightarrow> byte list \<Rightarrow> byte list res" where
  "build_loop i tbl =
     (if i < 64 then
        res_bind (buf_write tbl (unat (encoding_table ! i)) (word_of_nat i)) (\<lambda>tbl. build_loop (i + 1) tbl)
      else Inr tbl)"
  by pat_completeness auto
termination
  by (relation "measure (\<lambda>(i, tbl). 64 - i)") auto

declare build_loop.simps [simp del]

text \<open>The result of this \<open>malloc\<close> is not checked: with NULL the first store is undefined.\<close>

definition build_decoding_table ::
    "'w kernel \<Rightarrow> ('w, 'z) base64_state_scheme \<Rightarrow> ('w, 'z) base64_state_scheme res" where
  "build_decoding_table k s =
     (let (r, s) = sys k (Malloc 256) s
      in if r_ret r = 0 then Inl NullDeref
         else res_bind (build_loop 0 (malloc_block r 256)) (\<lambda>tbl. Inr (s\<lparr>decoding_table := Block tbl\<rparr>)))"

text \<open>\<open>decoding_table[(int)data[i]]\<close>, converted to \<open>uint32_t\<close>.\<close>

definition table_lookup :: "table_ptr \<Rightarrow> byte \<Rightarrow> 32 word res" where
  "table_lookup tbl c =
     (case tbl of
        Null \<Rightarrow> Inl NullDeref
      | Freed \<Rightarrow> Inl UseAfterFree
      | Block b \<Rightarrow>
          if 0 \<le> sint c \<and> nat (sint c) < length b then Inr (scast (b ! nat (sint c)))
          else Inl OutOfBounds)"

text \<open>\<open>data[i] == '=' ? 0 & i++ : decoding_table[(int)data[i++]]\<close>\<close>

definition sextet :: "table_ptr \<Rightarrow> byte list \<Rightarrow> nat \<Rightarrow> 32 word res" where
  "sextet tbl data i =
     res_bind (data_at data i) (\<lambda>c. if c = eq_sign then Inr 0 else table_lookup tbl c)"

definition pack4 :: "32 word \<Rightarrow> 32 word \<Rightarrow> 32 word \<Rightarrow> 32 word \<Rightarrow> 32 word" where
  "pack4 a b c d = push_bit (3 * 6) a + push_bit (2 * 6) b + push_bit (1 * 6) c + push_bit (0 * 6) d"

text \<open>\<open>if (j < *output_length) decoded_data[j++] = v\<close>\<close>

definition decode_put :: "nat \<Rightarrow> byte list \<times> nat \<Rightarrow> byte \<Rightarrow> (byte list \<times> nat) res" where
  "decode_put output_length oj v =
     (let (out, j) = oj
      in if j < output_length then res_bind (buf_write out j v) (\<lambda>out. Inr (out, j + 1)) else Inr (out, j))"

function decode_loop :: "table_ptr \<Rightarrow> byte list \<Rightarrow> nat \<Rightarrow> nat \<Rightarrow> byte list \<times> nat \<Rightarrow> byte list res" where
  "decode_loop tbl data output_length i oj =
     (if i < length data then
        res_bind (sextet tbl data i) (\<lambda>sextet_a.
        res_bind (sextet tbl data (i + 1)) (\<lambda>sextet_b.
        res_bind (sextet tbl data (i + 2)) (\<lambda>sextet_c.
        res_bind (sextet tbl data (i + 3)) (\<lambda>sextet_d.
          let triple = pack4 sextet_a sextet_b sextet_c sextet_d in
          res_bind (decode_put output_length oj (ucast (drop_bit (2 * 8) triple AND 0xFF))) (\<lambda>oj.
          res_bind (decode_put output_length oj (ucast (drop_bit (1 * 8) triple AND 0xFF))) (\<lambda>oj.
          res_bind (decode_put output_length oj (ucast (drop_bit (0 * 8) triple AND 0xFF))) (\<lambda>oj.
            decode_loop tbl data output_length (i + 4) oj)))))))
      else Inr (fst oj))"
  by pat_completeness auto
termination
  by (relation "measure (\<lambda>(tbl, data, n, i, oj). length data - i)") auto

declare decode_loop.simps [simp del]

text \<open>
  NULL is \<open>None\<close>; \<open>*output_length\<close> is only set once the length of the input has been
  accepted, so it is part of the other result. With an empty input the two tests read
  \<open>data[-1]\<close> and \<open>data[-2]\<close>.
\<close>

datatype decode_result = RefusedLength | NoMemory nat | Decoded "byte list" nat

definition base64_decode ::
    "'w kernel \<Rightarrow> byte list \<Rightarrow> ('w, 'z) base64_state_scheme \<Rightarrow> (decode_result \<times> ('w, 'z) base64_state_scheme) res" where
  "base64_decode k data s =
     res_bind (if decoding_table s = Null then build_decoding_table k s else Inr s) (\<lambda>s.
       let input_length = length data in
       if input_length mod 4 \<noteq> 0 then Inr (RefusedLength, s)
       else if input_length = 0 then Inl OutOfBounds
       else
         let output_length = input_length div 4 * 3;
             output_length = (if data ! (input_length - 1) = eq_sign then output_length - 1 else output_length);
             output_length = (if data ! (input_length - 2) = eq_sign then output_length - 1 else output_length);
             (r, s) = sys k (Malloc output_length) s
         in if r_ret r = 0 then Inr (NoMemory output_length, s)
         else if INT_MAX < input_length then Inl IntOverflow
         else res_bind (decode_loop (decoding_table s) data output_length 0 (malloc_block r output_length, 0))
           (\<lambda>out. Inr (Decoded out output_length, s)))"

text \<open>\<open>free(decoding_table)\<close>: the static pointer keeps its value.\<close>

definition base64_cleanup :: "'w kernel \<Rightarrow> ('w, 'z) base64_state_scheme \<Rightarrow> ('w, 'z) base64_state_scheme res" where
  "base64_cleanup k s =
     (case decoding_table s of
        Null \<Rightarrow> Inr s
      | Freed \<Rightarrow> Inl DoubleFree
      | Block b \<Rightarrow> Inr ((snd (sys k (Free 0) s))\<lparr>decoding_table := Freed\<rparr>))"

end
