(* ===== verification/Base64_Encoder.thy ===== *)
theory Base64_Encoder
  imports Base64
begin

section \<open>The Base64 encoder against RFC 4648\<close>

text \<open>
  \<open>b64\<close> is the encoding of RFC 4648 by groups of three bytes, in plain arithmetic. The encoder's
  loops compute it, whatever the malloced block held.
\<close>

subsection \<open>The encoding of RFC 4648\<close>

definition symbol :: "nat \<Rightarrow> byte" where
  "symbol i = encoding_table ! i"

fun b64 :: "byte list \<Rightarrow> byte list" where
  "b64 [] = []"
| "b64 [a] = [symbol (unat a div 4), symbol (unat a mod 4 * 16), eq_sign, eq_sign]"
| "b64 [a, b] =
     [symbol (unat a div 4), symbol (unat a mod 4 * 16 + unat b div 16), symbol (unat b mod 16 * 4), eq_sign]"
| "b64 (a # b # c # xs) =
     symbol (unat a div 4) # symbol (unat a mod 4 * 16 + unat b div 16)
     # symbol (unat b mod 16 * 4 + unat c div 64) # symbol (unat c mod 64) # b64 xs"

lemma length_b64: "length (b64 xs) = 4 * ((length xs + 2) div 3)"
proof (induction xs rule: b64.induct)
  case (4 a b c xs)
  have "(length (a # b # c # xs) + 2) div 3 = Suc ((length xs + 2) div 3)"
    by simp
  with 4 show ?case by simp
qed simp_all

lemma b64_Nil_iff: "b64 xs = [] \<longleftrightarrow> xs = []"
  by (cases xs rule: b64.cases) simp_all

text \<open>A payload of one tunnel block fits the header buffers of the SIP plugin.\<close>

lemma length_b64_mono: "length xs \<le> n \<Longrightarrow> length (b64 xs) \<le> 4 * ((n + 2) div 3)"
  by (simp add: length_b64 div_le_mono)

subsection \<open>The packed triple\<close>

lemma unat_byte_less: "unat (b :: byte) < 256"
  using unsigned_less [of b] by simp

lemma pack3_bytes:
  "unat (pack3 (ucast (a :: byte)) (ucast (b :: byte)) (ucast (c :: byte)))
   = unat a * 65536 + unat b * 256 + unat c"
proof -
  have "unat a < 256" "unat b < 256" "unat c < 256"
    by (rule unat_byte_less)+
  then show ?thesis
    by (simp add: pack3_def push_bit_eq_mult unat_word_ariths unsigned_ucast_eq take_bit_eq_mod)
qed

lemma six_bits: "unat (drop_bit k (t :: 32 word) AND 0x3F) = unat t div 2 ^ k mod 64"
proof -
  have m: "(0x3F :: 32 word) = mask 6"
    by (simp add: mask_eq_decr_exp)
  show ?thesis
    by (simp only: m take_bit_eq_mask [symmetric] unsigned_take_bit_eq unat_drop_bit_eq)
      (simp add: drop_bit_eq_div take_bit_eq_mod)
qed

lemma byte_of_triple:
  "(ucast (drop_bit k (t :: 32 word) AND 0xFF) :: byte) = word_of_nat (unat t div 2 ^ k)"
proof -
  have m: "(0xFF :: 32 word) = mask 8"
    by (simp add: mask_eq_decr_exp)
  show ?thesis
    unfolding m unat_drop_bit_eq [symmetric] drop_bit_eq_div [symmetric]
    by (rule bit_word_eqI) (auto simp: bit_simps)
qed

subsection \<open>The encoder computes it\<close>

definition group :: "byte \<Rightarrow> byte \<Rightarrow> byte \<Rightarrow> byte list" where
  "group a b c =
     [symbol (unat a div 4), symbol (unat a mod 4 * 16 + unat b div 16),
      symbol (unat b mod 16 * 4 + unat c div 64), symbol (unat c mod 64)]"

fun groups :: "byte list \<Rightarrow> byte list" where
  "groups [] = []"
| "groups [a] = group a 0 0"
| "groups [a, b] = group a b 0"
| "groups (a # b # c # xs) = group a b c @ groups xs"

lemma length_group [simp]: "length (group a b c) = 4"
  by (simp add: group_def)

lemma length_groups: "length (groups xs) = length (b64 xs)"
  by (induction xs rule: b64.induct) simp_all

text \<open>The four indexes into the encoding table are the four base-64 digits of the triple.\<close>

definition snoc64 :: "nat \<Rightarrow> nat \<Rightarrow> nat" where
  "snoc64 x d = x * 64 + d"

definition four :: "nat \<Rightarrow> nat \<Rightarrow> nat \<Rightarrow> nat \<Rightarrow> nat" where
  "four w x y z = snoc64 (snoc64 (snoc64 w x) y) z"

lemma snoc64_div: "d < 64 \<Longrightarrow> snoc64 x d div 64 = x"
  and snoc64_mod: "d < 64 \<Longrightarrow> snoc64 x d mod 64 = d"
  by (simp_all add: snoc64_def)

lemma four_digits:
  assumes "w < 64" "x < 64" "y < 64" "z < 64"
  shows "four w x y z div 2 ^ (3 * 6) mod 64 = w" "four w x y z div 2 ^ (2 * 6) mod 64 = x"
    "four w x y z div 2 ^ (1 * 6) mod 64 = y" "four w x y z div 2 ^ (0 * 6) mod 64 = z"
proof -
  have p: "(2::nat) ^ (3 * 6) = 64 * 64 * 64" "(2::nat) ^ (2 * 6) = 64 * 64"
    "(2::nat) ^ (1 * 6) = 64" "(2::nat) ^ (0 * 6) = 1"
    by simp_all
  show "four w x y z div 2 ^ (3 * 6) mod 64 = w" "four w x y z div 2 ^ (2 * 6) mod 64 = x"
    "four w x y z div 2 ^ (1 * 6) mod 64 = y" "four w x y z div 2 ^ (0 * 6) mod 64 = z"
    using assms by (simp_all only: p div_mult2_eq four_def snoc64_div snoc64_mod mod_less div_by_1)
qed

lemma four_of_parts:
  "(a1 * 4 + a0) * 65536 + (b1 * 16 + b0) * 256 + (c1 * 64 + c0)
   = four a1 (a0 * 16 + b1) (b0 * 4 + c1) c0"
  by (simp add: four_def snoc64_def)

lemma four_of_bytes:
  "a * 65536 + b * 256 + c = four (a div 4) (a mod 4 * 16 + b div 16) (b mod 16 * 4 + c div 64) (c mod 64)"
  by (subst four_of_parts [symmetric]) simp

lemma digit_bounds:
  fixes a b c :: byte
  shows "unat a div 4 < 64" "unat a mod 4 * 16 + unat b div 16 < 64"
    "unat b mod 16 * 4 + unat c div 64 < 64" "unat c mod 64 < 64"
  using unat_byte_less [of a] unat_byte_less [of b] unat_byte_less [of c] by linarith+

lemmas byte_digits = four_digits [OF digit_bounds]

lemma group_digits:
  "[encoding_table ! unat (drop_bit (3 * 6) t AND 0x3F), encoding_table ! unat (drop_bit (2 * 6) t AND 0x3F),
    encoding_table ! unat (drop_bit (1 * 6) t AND 0x3F), encoding_table ! unat (drop_bit (0 * 6) t AND 0x3F)]
   = group a b c"
  if "t = pack3 (ucast a) (ucast b) (ucast c)"
  unfolding that six_bits pack3_bytes four_of_bytes
  by (simp only: byte_digits group_def symbol_def)

text \<open>Four stores in a row replace the next four bytes of the block.\<close>

lemma write4:
  assumes "length q = Suc (Suc (Suc (Suc n)))"
  shows "res_bind (buf_write (p @ q) (length p) w) (\<lambda>buf.
         res_bind (buf_write buf (length p + 1) x) (\<lambda>buf.
         res_bind (buf_write buf (length p + 2) y) (\<lambda>buf.
         res_bind (buf_write buf (length p + 3) z) f)))
       = f ((p @ [w, x, y, z]) @ drop 4 q)"
  using assms
  by (auto simp: length_Suc_conv buf_write_def list_update_append numeral_eq_Suc)

lemma octet_next: "octet (pre @ x # xs) (length pre) = (ucast x, length (pre @ [x]))"
  by (simp add: octet_def)

lemma octet_end: "octet pre (length pre) = (ucast (0 :: byte), length pre)"
  by (simp add: octet_def)

lemma encode_step:
  assumes "i < length data" "octet data i = (ucast a, i1)" "octet data i1 = (ucast b, i2)"
    "octet data i2 = (ucast c, i3)" "4 \<le> length q"
  shows "encode_loop data i (length p) (p @ q)
       = encode_loop data i3 (length (p @ group a b c)) ((p @ group a b c) @ drop 4 q)"
proof -
  have q: "length q = Suc (Suc (Suc (Suc (length q - 4))))"
    using assms(5) by simp
  show ?thesis
    using assms(1)
    by (subst encode_loop.simps)
      (simp only: if_True assms(2-4) Let_def split_beta fst_conv snd_conv write4 [OF q] group_digits [OF refl]
        length_append length_group)
qed

lemma encode_end: "encode_loop pre (length pre) j buf = Inr buf"
  by (subst encode_loop.simps) simp

text \<open>
  The loop, started after any prefix of the data and of the block, whatever the rest of the
  block holds.
\<close>

lemma encode_loop_groups:
  "length q = length (groups xs) \<Longrightarrow>
   encode_loop (pre @ xs) (length pre) (length p) (p @ q) = Inr (p @ groups xs)"
proof (induction xs arbitrary: pre p q rule: groups.induct)
  case 1
  then show ?case by (simp add: encode_end)
next
  case (2 a)
  then have q: "4 \<le> length q" "drop 4 q = []" by simp_all
  show ?case
    using q(2) encode_end [of "pre @ [a]"] octet_end [of "pre @ [a]"]
    by (subst encode_step [OF _ octet_next _ _ q(1), of pre a "[]" 0 _ 0])
      simp_all
next
  case (3 a b)
  then have q: "4 \<le> length q" "drop 4 q = []" by simp_all
  show ?case
    using q(2) encode_end [of "pre @ [a, b]"] octet_next [of "pre @ [a]" b "[]"] octet_end [of "pre @ [a, b]"]
    by (subst encode_step [OF _ octet_next _ _ q(1), of pre a "[b]" b _ 0])
      simp_all
next
  case (4 a b c xs)
  then have q: "4 \<le> length q" "length (drop 4 q) = length (groups xs)" by simp_all
  show ?case
    using 4(1) [OF q(2), of "pre @ [a, b, c]" "p @ group a b c"]
      octet_next [of "pre @ [a]" b "c # xs"] octet_next [of "pre @ [a, b]" c xs]
    by (subst encode_step [OF _ octet_next _ _ q(1), of pre a "b # c # xs" b _ c]) simp_all
qed

lemma b64_pads_groups:
  "\<exists>q z. groups xs = q @ z \<and> length z = mod_table ! (length xs mod 3) \<and> b64 xs = q @ replicate (length z) eq_sign"
proof (induction xs rule: groups.induct)
  case (2 a)
  show ?case
    by (rule exI [of _ "[symbol (unat a div 4), symbol (unat a mod 4 * 16)]"],
        rule exI [of _ "[symbol 0, symbol 0]"])
      (simp add: group_def mod_table_def)
next
  case (3 a b)
  show ?case
    by (rule exI [of _ "[symbol (unat a div 4), symbol (unat a mod 4 * 16 + unat b div 16), symbol (unat b mod 16 * 4)]"],
        rule exI [of _ "[symbol 0]"])
      (simp add: group_def mod_table_def)
next
  case (4 a b c xs)
  then obtain q z where "groups xs = q @ z" "length z = mod_table ! (length xs mod 3)"
    "b64 xs = q @ replicate (length z) eq_sign"
    by blast
  then show ?case
    by (intro exI [of _ "group a b c @ q"] exI [of _ z]) (simp add: group_def)
qed (simp add: mod_table_def)

lemma pad_loop_pads:
  assumes "length z \<le> 2"
  shows "pad_loop (length z) (length (q @ z)) 0 (q @ z) = Inr (q @ replicate (length z) eq_sign)"
proof -
  consider "z = []" | x where "z = [x]" | x y where "z = [x, y]"
    using assms by (cases z rule: b64.cases) auto
  then show ?thesis
    by cases (simp_all add: pad_loop.simps buf_write_def list_update_append)
qed

lemma mod_table_le: "mod_table ! (n mod 3) \<le> 2"
proof -
  have "n mod 3 < 3" by simp
  then consider "n mod 3 = 0" | "n mod 3 = 1" | "n mod 3 = 2" by linarith
  then show ?thesis by cases (simp_all add: mod_table_def)
qed

text \<open>The whole function: NULL without memory, else the encoding, whatever the block held.\<close>

lemma base64_encode_result:
  assumes "length (b64 data) \<le> INT_MAX"
  shows "base64_encode k data s =
    (let r = sys k (Malloc (length (b64 data))) s
     in Inr ((if r_ret (fst r) = 0 then None else Some (b64 data), length (b64 data)), snd r))"
proof -
  obtain q z where z: "groups data = q @ z" "length z = mod_table ! (length data mod 3)"
      "b64 data = q @ replicate (length z) eq_sign"
    using b64_pads_groups by blast
  let ?n = "length (b64 data)"
  have n: "4 * ((length data + 2) div 3) = ?n" "?n = length (q @ z)"
    by (simp only: length_b64) (simp add: z(3))
  have loop: "encode_loop data 0 0 (malloc_block r ?n) = Inr (groups data)" for r
    using encode_loop_groups [of "malloc_block r ?n" data "[]" "[]"] by (simp add: length_groups)
  have pad: "pad_loop (mod_table ! (length data mod 3)) ?n 0 (groups data) = Inr (b64 data)"
    using pad_loop_pads [of z q] mod_table_le [of "length data"]
    unfolding z(1) z(3) z(2) [symmetric] n(2) by simp
  show ?thesis
    using assms unfolding base64_encode_def Let_def split_beta n(1) by (simp add: loop pad)
qed

end
