(* ===== verification/Base64_Decoder.thy ===== *)
theory Base64_Decoder
  imports Base64_Encoder
begin

section \<open>The Base64 decoder\<close>

text \<open>
  The decoding table, what the decoder computes for a text group by group, and that this inverts
  \<open>b64\<close>.
\<close>

subsection \<open>The decoding table\<close>

text \<open>
  A table that the decoder can use: the entry of every alphabet symbol is its digit, the
  192 others hold what the block held.
\<close>

definition table_ok :: "table_ptr \<Rightarrow> bool" where
  "table_ok t = (case t of Block b \<Rightarrow> length b = 256 \<and> (\<forall>i < 64. b ! unat (symbol i) = word_of_nat i) | _ \<Rightarrow> False)"

lemma alphabet: "length encoding_table = 64" "distinct encoding_table"
  "list_all (\<lambda>c. unat c < 128 \<and> c \<noteq> eq_sign) encoding_table"
  by code_simp+

lemma symbol_facts:
  assumes "i < 64"
  shows "unat (symbol i) < 128" "symbol i \<noteq> eq_sign" "symbol i \<in> set encoding_table"
  using assms alphabet nth_mem [of i encoding_table] by (auto simp: symbol_def list_all_iff)

lemma symbol_inj: "\<lbrakk>i < 64; j < 64; symbol i = symbol j\<rbrakk> \<Longrightarrow> i = j"
  using alphabet by (simp add: symbol_def nth_eq_iff_index_eq)

lemma build_loop_entries:
  "length tbl = 256 \<Longrightarrow>
   \<exists>t. build_loop i tbl = Inr t \<and> length t = 256 \<and>
     (\<forall>j. i \<le> j \<and> j < 64 \<longrightarrow> t ! unat (symbol j) = word_of_nat j) \<and>
     (\<forall>x. (\<forall>j. i \<le> j \<and> j < 64 \<longrightarrow> x \<noteq> unat (symbol j)) \<longrightarrow> t ! x = tbl ! x)"
proof (induction i tbl rule: build_loop.induct)
  case (1 i tbl)
  show ?case
  proof (cases "i < 64")
    case False
    then show ?thesis using 1(2) by (subst build_loop.simps) auto
  next
    case True
    let ?t = "tbl[unat (symbol i) := word_of_nat i]"
    have w: "buf_write tbl (unat (encoding_table ! i)) (word_of_nat i) = Inr ?t"
      using symbol_facts(1) [OF True] 1(2) by (simp add: buf_write_def symbol_def)
    obtain t where t: "build_loop (i + 1) ?t = Inr t" "length t = 256"
      "\<And>j. \<lbrakk>i + 1 \<le> j; j < 64\<rbrakk> \<Longrightarrow> t ! unat (symbol j) = word_of_nat j"
      "\<And>x. (\<forall>j. i + 1 \<le> j \<and> j < 64 \<longrightarrow> x \<noteq> unat (symbol j)) \<Longrightarrow> t ! x = ?t ! x"
      using 1(1) [OF True w] 1(2) by auto
    have i: "t ! unat (symbol i) = word_of_nat i"
    proof (subst t(4))
      show "\<forall>j. i + 1 \<le> j \<and> j < 64 \<longrightarrow> unat (symbol i) \<noteq> unat (symbol j)"
        using symbol_inj [OF True] by (metis add_leD1 not_add_less1 less_add_one linorder_not_less unsigned_word_eqI word_unat_eq_iff)
    qed (use symbol_facts(1) [OF True] 1(2) in simp)
    show ?thesis
    proof (intro exI [of _ t] conjI allI impI)
      show "build_loop i tbl = Inr t"
        using True w t(1) by (subst build_loop.simps) simp
      show "t ! unat (symbol j) = word_of_nat j" if "i \<le> j \<and> j < 64" for j
        using that i t(3) [of j] by (cases "j = i") auto
      show "t ! x = tbl ! x" if "\<forall>j. i \<le> j \<and> j < 64 \<longrightarrow> x \<noteq> unat (symbol j)" for x
        using that t(4) [of x] True by (metis add_leD1 nth_list_update_neq order_refl)
    qed (rule t(2))
  qed
qed

lemma build_table_cases:
  "build_decoding_table k s =
     (let r = sys k (Malloc 256) s
      in if r_ret (fst r) = 0 then Inl NullDeref
         else Inr ((snd r)\<lparr>decoding_table := Block (projr (build_loop 0 (malloc_block (fst r) 256)))\<rparr>))"
  "table_ok (Block (projr (build_loop 0 (malloc_block r 256))))"
  "\<lbrakk>c \<notin> set encoding_table; c \<noteq> eq_sign; unat c < 128\<rbrakk> \<Longrightarrow>
   projr (build_loop 0 (malloc_block r 256)) ! unat c = malloc_block r 256 ! unat c"
  using build_loop_entries [of "malloc_block r 256" 0] build_loop_entries [of "malloc_block (fst (sys k (Malloc 256) s)) 256" 0]
  by (auto simp: build_decoding_table_def Let_def split_beta table_ok_def)
    (metis symbol_facts(3) word_unat_eq_iff)

lemma sint_ascii: "unat (c :: byte) < 128 \<Longrightarrow> sint c = int (unat c)"
  unfolding sint_uint uint_nat by (rule signed_take_bit_int_eq_self) (simp_all del: of_nat_unat)

lemma sint_high: "\<not> unat (c :: byte) < 128 \<Longrightarrow> sint c < 0"
proof -
  assume "\<not> unat c < 128"
  then have "128 \<le> uint c" "uint c < 256"
    using unat_byte_less [of c] by (simp_all only: uint_nat)
  then have "uint c div 128 = 1" by linarith
  then show ?thesis
    by (simp add: sint_uint signed_take_bit_negative_iff bit_iff_odd)
qed

lemma table_lookup_cases:
  "table_lookup (Block b) c = (if unat c < 128 then Inr (scast (b ! unat c)) else Inl OutOfBounds)" if "length b = 256"
  using sint_ascii [of c] sint_high [of c] that
  by (cases "unat c < 128") (simp_all add: table_lookup_def)

lemma table_lookup_symbol: "\<lbrakk>table_ok t; i < 64\<rbrakk> \<Longrightarrow> table_lookup t (symbol i) = Inr (word_of_nat i)"
proof -
  assume i: "table_ok t" "i < 64"
  then obtain b where b: "t = Block b" "length b = 256" "b ! unat (symbol i) = word_of_nat i"
    by (auto simp: table_ok_def split: table_ptr.splits)
  have "scast (word_of_nat i :: byte) = (word_of_nat i :: 32 word)"
    using sint_ascii [of "word_of_nat i"] i(2)
    by (simp add: scast_eq unat_of_nat)
  then show ?thesis
    using symbol_facts(1) [OF i(2)] by (simp add: b table_lookup_cases)
qed

subsection \<open>What the decoder computes\<close>

text \<open>
  The decoder as a function of four characters at a time; it fails where a character's table
  entry cannot be read.
\<close>

definition digit :: "table_ptr \<Rightarrow> byte \<Rightarrow> 32 word res" where
  "digit tbl c = (if c = eq_sign then Inr 0 else table_lookup tbl c)"

definition triple_bytes :: "32 word \<Rightarrow> byte list" where
  "triple_bytes t = [ucast (drop_bit (2 * 8) t AND 0xFF), ucast (drop_bit (1 * 8) t AND 0xFF),
     ucast (drop_bit (0 * 8) t AND 0xFF)]"

lemma length_triple_bytes [simp]: "length (triple_bytes t) = 3"
  by (simp add: triple_bytes_def)

fun unb64 :: "table_ptr \<Rightarrow> byte list \<Rightarrow> byte list res" where
  "unb64 tbl (w # x # y # z # cs) =
     res_bind (digit tbl w) (\<lambda>a. res_bind (digit tbl x) (\<lambda>b. res_bind (digit tbl y) (\<lambda>c.
     res_bind (digit tbl z) (\<lambda>d. res_bind (unb64 tbl cs) (\<lambda>bs. Inr (triple_bytes (pack4 a b c d) @ bs))))))"
| "unb64 tbl _ = Inr []"

lemma sextet_next: "sextet tbl (pre @ c # cs) (length pre) = digit tbl c"
  by (simp add: sextet_def data_at_def digit_def)

text \<open>Three stores in a row fill the block as far as it goes.\<close>

lemma put3:
  assumes "n = length (p @ q)"
  shows "res_bind (decode_put n (p @ q, length p) u) (\<lambda>oj. res_bind (decode_put n oj v) (\<lambda>oj. res_bind (decode_put n oj w) f))
       = f ((p @ take (length q) [u, v, w]) @ drop 3 q, length (p @ take (length q) [u, v, w]))"
proof -
  consider "q = []" | a where "q = [a]" | a b where "q = [a, b]" | a b c r where "q = a # b # c # r"
    by (cases q rule: b64.cases) auto
  then show ?thesis
    using assms by cases (simp_all add: decode_put_def buf_write_def list_update_append)
qed

lemma decode_quad:
  assumes "n = length (p @ q)"
  shows "decode_loop tbl (pre @ w # x # y # z # cs) n (length pre) (p @ q, length p) =
    res_bind (digit tbl w) (\<lambda>a. res_bind (digit tbl x) (\<lambda>b. res_bind (digit tbl y) (\<lambda>c.
    res_bind (digit tbl z) (\<lambda>d.
      let p' = p @ take (length q) (triple_bytes (pack4 a b c d))
      in decode_loop tbl ((pre @ [w, x, y, z]) @ cs) n (length (pre @ [w, x, y, z])) (p' @ drop 3 q, length p')))))"
proof -
  have s: "sextet tbl (pre @ w # x # y # z # cs) (length pre) = digit tbl w"
    "sextet tbl (pre @ w # x # y # z # cs) (length pre + 1) = digit tbl x"
    "sextet tbl (pre @ w # x # y # z # cs) (length pre + 2) = digit tbl y"
    "sextet tbl (pre @ w # x # y # z # cs) (length pre + 3) = digit tbl z"
    using sextet_next [of tbl pre w "x # y # z # cs"] sextet_next [of tbl "pre @ [w]" x "y # z # cs"]
      sextet_next [of tbl "pre @ [w, x]" y "z # cs"] sextet_next [of tbl "pre @ [w, x, y]" z cs]
    by (simp_all add: eval_nat_numeral)
  have i: "length pre < length (pre @ w # x # y # z # cs)" by simp
  show ?thesis
    by (subst decode_loop.simps)
      (simp only: i if_True s Let_def put3 [OF assms] triple_bytes_def append.assoc append_Cons append_Nil
        length_append list.size add_0_left add_0_right, simp add: ac_simps eval_nat_numeral)
qed

lemma decode_end: "decode_loop tbl pre n (length pre) oj = Inr (fst oj)"
  by (subst decode_loop.simps) simp

lemma decode_loop_unb64:
  assumes "length cs mod 4 = 0" "length q \<le> length cs div 4 * 3"
  shows "decode_loop tbl (pre @ cs) (length (p @ q)) (length pre) (p @ q, length p)
       = res_bind (unb64 tbl cs) (\<lambda>bs. Inr (p @ take (length q) bs))"
  using assms
proof (induction tbl cs arbitrary: pre p q rule: unb64.induct)
  case (1 tbl w x y z cs)
  have d: "length (w # x # y # z # cs) div 4 = Suc (length cs div 4)"
    by simp
  have cs: "length cs mod 4 = 0" "length (drop 3 q) \<le> length cs div 4 * 3"
    using 1(2,3) unfolding d by simp_all
  have IH: "decode_loop tbl ((pre @ [w, x, y, z]) @ cs) (length (p @ q)) (length (pre @ [w, x, y, z]))
      (p' @ drop 3 q, length p') = res_bind (unb64 tbl cs) (\<lambda>bs. Inr (p' @ take (length (drop 3 q)) bs))"
    if "digit tbl w = Inr a" "digit tbl x = Inr b" "digit tbl y = Inr c" "digit tbl z = Inr d"
      "p' = p @ take (length q) (triple_bytes t)" for a b c d p' t
  proof -
    have "length (p' @ drop 3 q) = length (p @ q)"
      by (simp add: that(5))
    then show ?thesis
      using 1(1) [OF that(1-4) cs, of "pre @ [w, x, y, z]" p'] by simp
  qed
  show ?case
    by (subst decode_quad [OF refl], unfold unb64.simps res_bind_assoc Let_def, intro res_bind_cong refl,
        subst IH, assumption+, rule refl)
      (simp add: res_bind_assoc)
qed (simp_all add: decode_end)

subsection \<open>Decoding inverts encoding\<close>

lemma digit_symbol: "\<lbrakk>table_ok t; i < 64\<rbrakk> \<Longrightarrow> digit t (symbol i) = Inr (word_of_nat i)"
  by (simp add: digit_def symbol_facts table_lookup_symbol)

lemma digit_eq: "digit t eq_sign = Inr (word_of_nat 0)"
  by (simp add: digit_def)

lemma pack4_four:
  "\<lbrakk>w < 64; x < 64; y < 64; z < 64\<rbrakk> \<Longrightarrow>
   unat (pack4 (word_of_nat w) (word_of_nat x) (word_of_nat y) (word_of_nat z)) = four w x y z"
  by (simp add: pack4_def four_def snoc64_def push_bit_eq_mult unat_word_ariths unat_of_nat)

lemma word_of_nat_byte: "(word_of_nat (x * 256 + unat b) :: byte) = b"
proof -
  have "(256 :: byte) = 0" by (rule word_unat_eq_iff [THEN iffD2]) simp
  then show ?thesis
    by (simp only: of_nat_add of_nat_mult of_nat_numeral mult_zero_right add_0_left of_nat_unat ucast_id)
qed

lemma triple_bytes_of_bytes:
  assumes "unat t = unat a * 65536 + unat b * 256 + unat (c :: byte)"
  shows "triple_bytes t = [a, b, c :: byte]"
proof -
  have "unat t div 2 ^ (2 * 8) = 0 * 256 + unat a" "unat t div 2 ^ (1 * 8) = unat a * 256 + unat b"
    "unat t div 2 ^ (0 * 8) = (unat a * 256 + unat b) * 256 + unat c"
    using unat_byte_less [of b] unat_byte_less [of c] unfolding assms by simp_all
  then show ?thesis
    by (simp only: triple_bytes_def byte_of_triple word_of_nat_byte)
qed

lemma short_digit_bounds: "unat (a :: byte) mod 4 * 16 < 64" "unat (a :: byte) mod 16 * 4 < 64"
  using unat_byte_less [of a] by linarith+

lemmas bounds = digit_bounds short_digit_bounds

lemma triple_of_digits:
  "triple_bytes (pack4 (word_of_nat (unat a div 4)) (word_of_nat (unat a mod 4 * 16 + unat b div 16))
     (word_of_nat (unat b mod 16 * 4 + unat c div 64)) (word_of_nat (unat (c :: byte) mod 64))) = [a, b, c]"
  by (rule triple_bytes_of_bytes) (simp only: pack4_four digit_bounds four_of_bytes)

text \<open>The decoded groups are the data and the zeros of the last group.\<close>

lemma unb64_b64:
  assumes "table_ok t"
  shows "\<exists>z. unb64 t (b64 xs) = Inr (xs @ z)"
proof (induction xs rule: b64.induct)
  case (2 a)
  show ?case
    using triple_of_digits [of a 0 0]
    by (simp add: digit_symbol [OF assms] digit_eq bounds)
next
  case (3 a b)
  show ?case
    using triple_of_digits [of a b 0]
    by (simp add: digit_symbol [OF assms] digit_eq bounds)
next
  case (4 a b c xs)
  then show ?case
    by (auto simp: digit_symbol [OF assms] triple_of_digits bounds simp del: of_nat_add of_nat_mult)
qed simp

text \<open>\<open>*output_length\<close> as the decoder computes it.\<close>

definition decoded_length :: "byte list \<Rightarrow> nat" where
  "decoded_length cs =
     (let n = length cs div 4 * 3;
          n = (if cs ! (length cs - 1) = eq_sign then n - 1 else n)
      in if cs ! (length cs - 2) = eq_sign then n - 1 else n)"

lemma decoded_length_le: "decoded_length cs \<le> length cs div 4 * 3"
  by (simp add: decoded_length_def Let_def)

lemma decoded_length_b64: "xs \<noteq> [] \<Longrightarrow> decoded_length (b64 xs) = length xs"
proof (induction xs rule: b64.induct)
  case (2 a)
  show ?case by (simp add: decoded_length_def symbol_facts(2) bounds)
next
  case (3 a b)
  show ?case by (simp add: decoded_length_def symbol_facts(2) bounds)
next
  case (4 a b c xs)
  show ?case
  proof (cases "xs = []")
    case True
    show ?thesis using True by (simp add: decoded_length_def symbol_facts(2) bounds)
  next
    case False
    let ?n = "length (b64 xs)"
    have n: "4 \<le> ?n" "length xs > 0"
      using False by (cases xs rule: b64.cases; simp)+
    have m: "?n mod 4 = 0" by (simp add: length_b64)
    have "decoded_length (w # x # y # z # b64 xs) = decoded_length (b64 xs) + 3" for w x y z
    proof -
      have i: "(w # x # y # z # b64 xs) ! (4 + ?n - 1) = b64 xs ! (?n - 1)"
        "(w # x # y # z # b64 xs) ! (4 + ?n - 2) = b64 xs ! (?n - 2)"
        using n(1) False by (simp_all add: nth_Cons' eval_nat_numeral b64_Nil_iff)
      have "(4 + ?n) div 4 = ?n div 4 + 1"
        by (rule div_add_self1) simp
      then have k: "length (w # x # y # z # b64 xs) = 4 + ?n" "(4 + ?n) div 4 * 3 = ?n div 4 * 3 + 3" "3 \<le> ?n div 4 * 3"
        using n(1) by simp_all
      then show ?thesis
        unfolding decoded_length_def k(1,2) i Let_def by simp
    qed
    then show ?thesis using 4 False by simp
  qed
qed simp

subsection \<open>The decoder as a whole\<close>

text \<open>
  With a table at hand, a text whose length is a positive multiple of four is decoded as
  \<open>unb64\<close> says, cut at the announced length.
\<close>

lemma decoding_table_sys [simp]: "decoding_table (snd (sys k c s)) = decoding_table s"
  by (simp add: sys_def Let_def split_beta)

lemma base64_decode_ready:
  assumes "table_ok (decoding_table s)" "cs \<noteq> []" "length cs mod 4 = 0" "length cs \<le> INT_MAX"
  shows "base64_decode k cs s =
    (let r = sys k (Malloc (decoded_length cs)) s
     in if r_ret (fst r) = 0 then Inr (NoMemory (decoded_length cs), snd r)
        else res_bind (unb64 (decoding_table s) cs)
          (\<lambda>bs. Inr (Decoded (take (decoded_length cs) bs) (decoded_length cs), snd r)))"
proof -
  have t: "decoding_table s \<noteq> Null" "decoding_table (snd (sys k c s)) = decoding_table s" for c
    using assms(1) by (auto simp: table_ok_def sys_def Let_def split_beta)
  have loop: "decode_loop tbl cs n 0 (malloc_block r n, 0) = res_bind (unb64 tbl cs) (\<lambda>bs. Inr (take n bs))"
    if "n = decoded_length cs" for tbl n r
    using decode_loop_unb64 [OF assms(3), of "malloc_block r n" tbl "[]" "[]"] decoded_length_le [of cs] that
    by simp
  show ?thesis
    using assms(2-4) t
    unfolding base64_decode_def Let_def split_beta decoded_length_def [unfolded Let_def, symmetric]
    by (simp add: loop res_bind_assoc)
qed

lemma base64_decode_prepares:
  assumes "decoding_table s = Null" "r_ret (fst (sys k (Malloc 256) s)) \<noteq> 0"
  shows "\<exists>s'. build_decoding_table k s = Inr s' \<and> table_ok (decoding_table s')
    \<and> base64_decode k cs s = base64_decode k cs s'"
proof -
  obtain s' where s': "build_decoding_table k s = Inr s'" "table_ok (decoding_table s')"
    using assms(2) build_table_cases(2) by (simp add: build_table_cases(1) Let_def)
  then have "decoding_table s' \<noteq> Null"
    by (auto simp: table_ok_def)
  then show ?thesis
    using s' assms(1) by (auto simp: base64_decode_def)
qed

text \<open>\<open>unb64\<close> fails exactly where a character has no entry.\<close>

lemma digit_ascii: "\<lbrakk>table_ok t; unat c < 128\<rbrakk> \<Longrightarrow> \<exists>d. digit t c = Inr d"
  and digit_high: "\<lbrakk>table_ok t; \<not> unat c < 128\<rbrakk> \<Longrightarrow> digit t c = Inl OutOfBounds"
  by (auto simp: table_ok_def digit_def table_lookup_cases eq_sign_def split: table_ptr.splits)

lemma unb64_ascii: "\<lbrakk>table_ok t; \<forall>c \<in> set cs. unat c < 128\<rbrakk> \<Longrightarrow> \<exists>bs. unb64 t cs = Inr bs"
proof (induction t cs rule: unb64.induct)
  case (1 t w x y z cs)
  then obtain a b c d where "digit t w = Inr a" "digit t x = Inr b" "digit t y = Inr c" "digit t z = Inr d"
    using digit_ascii [OF 1(2)] by (metis list.set_intros(1) list.set_intros(2))
  with 1 show ?case by simp
qed simp_all

lemma unb64_high:
  "\<lbrakk>table_ok t; length cs mod 4 = 0; \<not> (\<forall>c \<in> set cs. unat c < 128)\<rbrakk> \<Longrightarrow> unb64 t cs = Inl OutOfBounds"
proof (induction t cs rule: unb64.induct)
  case (1 t w x y z cs)
  have d: "(\<exists>e. digit t c = Inr e) \<or> digit t c = Inl OutOfBounds" for c
    using digit_ascii [OF 1(2)] digit_high [OF 1(2)] by blast
  show ?case
  proof (cases "\<exists>a b c d. digit t w = Inr a \<and> digit t x = Inr b \<and> digit t y = Inr c \<and> digit t z = Inr d")
    case True
    then obtain a b c d where e: "digit t w = Inr a" "digit t x = Inr b" "digit t y = Inr c" "digit t z = Inr d"
      by blast
    then have "unat w < 128" "unat x < 128" "unat y < 128" "unat z < 128"
      using digit_high [OF 1(2)] by (metis sum.distinct(1))+
    then have "unb64 t cs = Inl OutOfBounds"
      using 1(1) [OF e 1(2)] 1(3,4) by simp
    then show ?thesis using e by simp
  next
    case False
    then show ?thesis
      using d [of w] d [of x] d [of y] d [of z] by (elim disjE exE) simp_all
  qed
qed simp_all

end
