(* ===== verification/Base64_Codec.thy ===== *)
theory Base64_Codec
  imports Base64_Decoder
begin

section \<open>Encoding and decoding\<close>

text \<open>
  The properties of both operations as a whole: equivalence with RFC 4648, the round trip, memory
  safety on received texts, and what the life of the decoding table allows.
\<close>

subsection \<open>Properties\<close>

text \<open>Program start, and a kernel whose \<open>malloc\<close> gives blocks of 0xAA bytes.\<close>

definition base64_start :: "'w \<Rightarrow> 'w base64_state" where
  "base64_start w = tun_state.extend (tun_start w) (base64_state.fields Null)"

definition junk_kernel :: "byte \<Rightarrow> unit kernel" where
  "junk_kernel v c w =
     (case c of Malloc n \<Rightarrow> ((reply_ok 1)\<lparr>r_bytes := replicate n v\<rparr>, w) | _ \<Rightarrow> (reply_ok 0, w))"

lemma base64_start_table [simp]: "decoding_table (base64_start w) = Null"
  by (simp add: base64_start_def tun_state.extend_def base64_state.fields_def)

definition memory_left :: "'w kernel \<Rightarrow> bool" where
  "memory_left k \<longleftrightarrow> (\<forall>n w. r_ret (fst (k (Malloc n) w)) \<noteq> 0)"

lemma memory_leftD: "memory_left k \<Longrightarrow> r_ret (fst (sys k (Malloc n) s)) \<noteq> 0"
  by (simp add: memory_left_def sys_reply)

lemma junk_kernel_memory: "memory_left (junk_kernel v)"
  by (simp add: memory_left_def junk_kernel_def reply_ok_def)

text \<open>
  C23. The encoder returns exactly the RFC 4648 encoding of its input, of length
  4 * ((n + 2) / 3), whatever the block from malloc held before, and NULL only without memory;
  no store of it leaves the block.
\<close>

lemma base64_encode_is_b64:
  assumes "4 * ((length data + 2) div 3) \<le> INT_MAX"
  shows "base64_encode k data s =
    (let n = 4 * ((length data + 2) div 3); (r, s') = sys k (Malloc n) s
     in Inr (if r_ret r = 0 then (None, n) else (Some (b64 data), n), s'))"
  using base64_encode_result [of data k s] assms
  unfolding length_b64 by (simp add: split_beta Let_def)

lemma base64_encode_is_b64_witness:
  "base64_encode (junk_kernel 170) [77, 97] (base64_start ())
   = Inr ((Some [84, 87, 69, 61], 4), snd (sys (junk_kernel 170) (Malloc 4) (base64_start ())))"
proof -
  have "b64 [77, 97] = [84, 87, 69, 61]"
    by code_simp
  then show ?thesis
    using base64_encode_is_b64 [of "[77, 97]" "junk_kernel 170" "base64_start ()"]
    by (simp add: INT_MAX_def Let_def split_beta sys_reply junk_kernel_def reply_ok_def)
qed

text \<open>
  C24. Round trip: whatever malloc leaves in its blocks, and whether the decoding table is
  built already or on this call, decoding what the encoder made of a non-empty input gives
  back that input and its length.
\<close>

lemma base64_roundtrip:
  assumes "data \<noteq> []" "4 * ((length data + 2) div 3) \<le> INT_MAX" "memory_left k"
    "decoding_table s = Null \<or> table_ok (decoding_table s)"
  shows "\<exists>s1 s2. base64_encode k data s = Inr ((Some (b64 data), length (b64 data)), s1)
    \<and> base64_decode k (b64 data) s1 = Inr (Decoded data (length data), s2) \<and> table_ok (decoding_table s2)"
proof -
  let ?s1 = "snd (sys k (Malloc (length (b64 data))) s)"
  have e: "base64_encode k data s = Inr ((Some (b64 data), length (b64 data)), ?s1)"
    using base64_encode_result [of data k s] assms(2) memory_leftD [OF assms(3)]
    by (simp add: length_b64 Let_def)
  obtain s' where s': "table_ok (decoding_table s')" "base64_decode k (b64 data) ?s1 = base64_decode k (b64 data) s'"
    using assms(4) base64_decode_prepares [of ?s1 k "b64 data"] memory_leftD [OF assms(3)]
    by (metis decoding_table_sys)
  obtain z where z: "unb64 (decoding_table s') (b64 data) = Inr (data @ z)"
    using unb64_b64 [OF s'(1)] by blast
  have "base64_decode k (b64 data) s' = Inr (Decoded data (length data), snd (sys k (Malloc (length data)) s'))"
    using base64_decode_ready [OF s'(1), of "b64 data" k] assms(1,2) memory_leftD [OF assms(3)] z
    by (simp add: b64_Nil_iff length_b64 decoded_length_b64 Let_def)
  then show ?thesis
    using e s' by (metis decoding_table_sys)
qed

lemma base64_roundtrip_witness:
  "\<exists>s1 (s2 :: unit base64_state).
     base64_encode (junk_kernel 170) [1, 2, 255, 0] (base64_start ()) = Inr ((Some (b64 [1, 2, 255, 0]), 8), s1)
    \<and> base64_decode (junk_kernel 170) (b64 [1, 2, 255, 0]) s1 = Inr (Decoded [1, 2, 255, 0] 4, s2)"
  using base64_roundtrip [OF _ _ junk_kernel_memory, of "[1, 2, 255, 0]" "base64_start ()" 170]
  by (auto simp: INT_MAX_def length_b64)

text \<open>
  C25. Memory safety of the decoder on a received text whose length is a positive multiple of
  four: it reads outside its table exactly when the text has a byte of 128 or more (a negative
  index, as char is signed); then the outcome is OutOfBounds, and no other failure exists.
\<close>

lemma base64_decode_safe_iff:
  assumes "table_ok (decoding_table s)" "cs \<noteq> []" "length cs mod 4 = 0" "length cs \<le> INT_MAX" "memory_left k"
  shows "base64_decode k cs s = Inl e \<longleftrightarrow> e = OutOfBounds \<and> (\<exists>c \<in> set cs. 128 \<le> unat c)"
proof (cases "\<forall>c \<in> set cs. unat c < 128")
  case True
  then show ?thesis
    using base64_decode_ready [OF assms(1-4), of k] unb64_ascii [OF assms(1) True] memory_leftD [OF assms(5)]
    by (auto simp: Let_def not_le)
next
  case False
  then show ?thesis
    using base64_decode_ready [OF assms(1-4), of k] unb64_high [OF assms(1,3) False] memory_leftD [OF assms(5)]
    by (auto simp: Let_def not_less)
qed

definition table_state :: "unit base64_state" where
  "table_state = (base64_start ())\<lparr>decoding_table := Block (projr (build_loop 0 (replicate 256 0)))\<rparr>"

lemma table_state_ok: "table_ok (decoding_table table_state)"
  using build_table_cases(2) [of "reply_ok 0"]
  by (simp add: table_state_def malloc_block_def reply_ok_def)

lemma base64_decode_safe_iff_witness:
  "base64_decode (junk_kernel 0) [84, 87, 69, 200] table_state = Inl OutOfBounds"
  using base64_decode_safe_iff [OF table_state_ok _ _ _ junk_kernel_memory, of "[84, 87, 69, 200]" 0 OutOfBounds]
  by (simp add: INT_MAX_def)

text \<open>
  Refused lengths: a length that is not a multiple of four is refused without setting the
  output length; an empty text is not refused but read before its start.
\<close>

lemma base64_decode_lengths:
  assumes "decoding_table s \<noteq> Null"
  shows "(base64_decode k cs s = Inr (RefusedLength, s') \<longleftrightarrow> length cs mod 4 \<noteq> 0 \<and> s' = s)
    \<and> base64_decode k [] s = Inl OutOfBounds"
  using assms by (auto simp: base64_decode_def Let_def split_beta)

lemma base64_decode_lengths_witness:
  "base64_decode (junk_kernel 0) [84, 87, 69] table_state = Inr (RefusedLength, table_state)
   \<and> base64_decode (junk_kernel 0) [] table_state = Inl OutOfBounds"
  using base64_decode_lengths [of table_state "junk_kernel 0" "[84, 87, 69]" table_state]
  by (simp add: table_state_def)

text \<open>
  A character that is not in the alphabet is not detected: its table entry is whatever the
  malloced table held, so the decoded bytes are indeterminate.
\<close>

lemma foreign_character_reads_junk:
  assumes "c \<notin> set encoding_table" "c \<noteq> eq_sign" "unat c < 128" "build_decoding_table k s = Inr s'"
  shows "table_lookup (decoding_table s') c = Inr (scast (malloc_block (fst (sys k (Malloc 256) s)) 256 ! unat c))"
  using assms(4) build_table_cases(3) [OF assms(1-3)] build_table_cases(2) [of "fst (sys k (Malloc 256) s)"] assms(3)
  by (auto simp: build_table_cases(1) Let_def table_ok_def table_lookup_cases split: if_splits)

lemma foreign_character_reads_junk_witness:
  "\<exists>s'. build_decoding_table (junk_kernel 0x2A) (base64_start ()) = Inr s'
    \<and> table_lookup (decoding_table s') 10 = Inr 0x2A"
proof -
  obtain s' where s': "build_decoding_table (junk_kernel 0x2A) (base64_start ()) = Inr s'"
    by (simp add: build_table_cases(1) Let_def memory_leftD [OF junk_kernel_memory])
  have c: "(10 :: byte) \<notin> set encoding_table" "(10 :: byte) \<noteq> eq_sign"
    by code_simp+
  have "(scast (0x2A :: byte) :: 32 word) = 0x2A"
    by code_simp
  then show ?thesis
    using foreign_character_reads_junk [OF c _ s'] s'
    by (simp add: sys_reply junk_kernel_def malloc_block_def)
qed

text \<open>
  Clean-up frees the table and keeps the pointer to it: the next clean-up frees it again,
  and decoding any text of one or more groups of letters reads freed memory instead of
  building a new table.
\<close>

lemma base64_cleanup_dangles:
  assumes "decoding_table s = Block b" "base64_cleanup k s = Inr s'"
    "cs \<noteq> []" "length cs mod 4 = 0" "hd cs \<noteq> eq_sign" "length cs \<le> INT_MAX" "memory_left k"
  shows "base64_cleanup k s' = Inl DoubleFree \<and> base64_decode k cs s' = Inl UseAfterFree"
proof -
  have f: "decoding_table s' = Freed"
    using assms(1,2) by (auto simp: base64_cleanup_def)
  obtain c r where c: "cs = c # r" "c \<noteq> eq_sign"
    using assms(3,5) by (cases cs) auto
  have "decode_loop Freed cs n 0 oj = Inl UseAfterFree" for n oj
    using c by (subst decode_loop.simps) (simp add: sextet_def data_at_def table_lookup_def)
  then have "base64_decode k cs s' = Inl UseAfterFree"
    using assms(3,4,6) by (simp add: base64_decode_def f Let_def split_beta memory_leftD [OF assms(7)])
  then show ?thesis
    by (simp add: base64_cleanup_def f)
qed

lemma base64_cleanup_dangles_witness:
  "\<exists>s'. base64_cleanup (junk_kernel 0) table_state = Inr s' \<and> base64_cleanup (junk_kernel 0) s' = Inl DoubleFree
    \<and> base64_decode (junk_kernel 0) [84, 87, 69, 61] s' = Inl UseAfterFree"
proof -
  obtain b where b: "decoding_table table_state = Block b"
    by (simp add: table_state_def)
  then obtain s' where s': "base64_cleanup (junk_kernel 0) table_state = Inr s'"
    by (simp add: base64_cleanup_def)
  show ?thesis
    using base64_cleanup_dangles [OF b s' _ _ _ _ junk_kernel_memory, of "[84, 87, 69, 61]"] s'
    by (simp add: INT_MAX_def eq_sign_def)
qed

end
