(* ===== verification/Relay.thy ===== *)
theory Relay
  imports Base64
begin

section \<open>Forwarding loops\<close>

text \<open>
  Three loops of the program have the same shape: wait with \<open>select\<close> until one of two
  descriptors is ready, read a block from it and write what was read to a third or a fourth
  descriptor (\<open>MainLoop\<close> in main.c, \<open>tcp_startClient\<close> and \<open>tcp_startServer\<close> in
  tcp_plugin.c). Each loop has its own definition in its component, one call of which is one
  pass of the loop; this theory has what they share: the bytes a read stored, the iteration of
  a pass, the bytes that a trace received from and submitted to descriptors, and the contract
  of a relay as a locale, with what follows from it for any number of passes.

  The loops never end, so their behaviour is the sequence of states after 0, 1, 2, ... passes.
\<close>

subsection \<open>Reading, passing, iterating\<close>

text \<open>The bytes that a successful read put into the buffer.\<close>

definition got :: "reply \<Rightarrow> byte list" where
  "got r = take (nat (r_ret r)) (r_bytes r)"

lemma got_failed [simp]: "r_ret r \<le> 0 \<Longrightarrow> got r = []"
  by (simp add: got_def)

fun passes :: "nat \<Rightarrow> ('a \<Rightarrow> 'a res) \<Rightarrow> 'a \<Rightarrow> 'a res" where
  "passes 0 body x = Inr x"
| "passes (Suc n) body x = res_bind (body x) (passes n body)"

lemma passes_invariant:
  assumes "\<And>x y. \<lbrakk>P x; body x = Inr y\<rbrakk> \<Longrightarrow> P y"
  shows "\<lbrakk>passes n body x = Inr y; P x\<rbrakk> \<Longrightarrow> P y"
  by (induction n arbitrary: x) (auto dest: assms)

text \<open>Replies given one after the other, then errors: the kernel of the examples.\<close>

definition script_kernel :: "reply list kernel" where
  "script_kernel c rs =
     (case rs of [] \<Rightarrow> ((reply_ok (- 1))\<lparr>r_errno := 5\<rparr>, []) | r # rs \<Rightarrow> (r, rs))"

definition reply_bytes :: "byte list \<Rightarrow> reply" where
  "reply_bytes bs = (reply_ok (int (length bs)))\<lparr>r_bytes := bs\<rparr>"

definition reply_ready :: "int set \<Rightarrow> reply" where
  "reply_ready R = (reply_ok 1)\<lparr>r_ready := R\<rparr>"

subsection \<open>Bytes received and submitted\<close>

fun reads_from :: "int \<Rightarrow> xcall \<Rightarrow> bool" where
  "reads_from fd (Read fd' n) \<longleftrightarrow> fd' = fd"
| "reads_from fd (Recv fd' n) \<longleftrightarrow> fd' = fd"
| "reads_from fd _ \<longleftrightarrow> False"

fun sent_to :: "int \<Rightarrow> xcall \<Rightarrow> byte list" where
  "sent_to fd (Write fd' bs) = (if fd' = fd then bs else [])"
| "sent_to fd (Send fd' bs) = (if fd' = fd then bs else [])"
| "sent_to fd _ = []"

definition received :: "int \<Rightarrow> (xcall \<times> reply) list \<Rightarrow> byte list" where
  "received fd t = concat (map (\<lambda>(c, r). if reads_from fd c then got r else []) t)"

definition submitted :: "int \<Rightarrow> (xcall \<times> reply) list \<Rightarrow> byte list" where
  "submitted fd t = concat (map (\<lambda>(c, r). sent_to fd c) t)"

lemma received_simps [simp]:
  "received fd [] = []" "received fd (t @ u) = received fd t @ received fd u"
  "received fd ((c, r) # t) = (if reads_from fd c then got r else []) @ received fd t"
  by (simp_all add: received_def)

lemma submitted_simps [simp]:
  "submitted fd [] = []" "submitted fd (t @ u) = submitted fd t @ submitted fd u"
  "submitted fd ((c, r) # t) = sent_to fd c @ submitted fd t"
  by (simp_all add: submitted_def)

text \<open>Calls that carry no bytes.\<close>

definition silent :: "(xcall \<times> reply) list \<Rightarrow> bool" where
  "silent t \<longleftrightarrow> (\<forall>fd. received fd t = [] \<and> submitted fd t = [])"

lemma silent_append: "\<lbrakk>silent t; silent u\<rbrakk> \<Longrightarrow> silent (t @ u)"
  by (simp add: silent_def)

text \<open>
  \<open>relays routes t\<close>: for every route (source, sink), what \<open>t\<close> submitted to the sink is,
  byte for byte and in order, what it received from the source.
\<close>

definition relays :: "(int \<times> int) set \<Rightarrow> (xcall \<times> reply) list \<Rightarrow> bool" where
  "relays routes t \<longleftrightarrow> (\<forall>(a, b) \<in> routes. submitted b t = received a t)"

lemma relays_Nil [simp]: "relays R []"
  by (simp add: relays_def)

lemma relays_append: "\<lbrakk>relays R t; relays R u\<rbrakk> \<Longrightarrow> relays R (t @ u)"
  by (fastforce simp: relays_def)

subsection \<open>The contract of a relay\<close>

text \<open>
  A pass of a relay makes calls that relay, and changes nothing but the outside world. The
  descriptors it works on are read off the state (\<open>fds\<close>), and \<open>fits\<close> says what is
  asked of them.
\<close>

locale relay =
  fixes body :: "int set \<times> ('w, 'z) sys_state_scheme \<Rightarrow> (int set \<times> ('w, 'z) sys_state_scheme) res"
    and fds :: "('w, 'z) sys_state_scheme \<Rightarrow> 'v"
    and routes :: "'v \<Rightarrow> (int \<times> int) set"
    and fits :: "'v \<Rightarrow> bool"
  assumes fds_same: "same_vars s s' \<Longrightarrow> fds s' = fds s"
    and pass: "\<lbrakk>fits (fds s); body (S, s) = Inr (S', s')\<rbrakk> \<Longrightarrow>
      same_vars s s' \<and> (\<exists>new. trace s' = trace s @ new \<and> relays (routes (fds s)) new)"
begin

lemma many_passes:
  "\<lbrakk>fits (fds s); passes n body (S, s) = Inr (S', s')\<rbrakk> \<Longrightarrow>
   same_vars s s' \<and> (\<exists>new. trace s' = trace s @ new \<and> relays (routes (fds s)) new)"
proof (induction n arbitrary: S s)
  case (Suc n)
  then obtain S1 s1 where s1: "body (S, s) = Inr (S1, s1)" "passes n body (S1, s1) = Inr (S', s')"
    by auto
  obtain new where new: "same_vars s s1" "trace s1 = trace s @ new" "relays (routes (fds s)) new"
    using pass [OF Suc.prems(1) s1(1)] by auto
  obtain new' where new': "same_vars s1 s'" "trace s' = trace s1 @ new'" "relays (routes (fds s)) new'"
    using Suc.IH [OF _ s1(2)] Suc.prems(1) fds_same [OF new(1)] by auto
  show ?case
    using new new' by (auto intro: relays_append same_vars_trans)
qed simp

end

text \<open>A relay that never leaves defined behaviour.\<close>

locale safe_relay = relay +
  assumes runs: "fits (fds s) \<Longrightarrow> \<exists>x. body (S, s) = Inr x"
begin

lemma any_number_of_passes:
  "fits (fds s) \<Longrightarrow> \<exists>S' s'. passes n body (S, s) = Inr (S', s')"
proof (induction n arbitrary: S s)
  case (Suc n)
  then obtain S1 s1 where s1: "body (S, s) = Inr (S1, s1)"
    using runs by fastforce
  then have "fits (fds s1)"
    using pass [OF Suc.prems s1] fds_same Suc.prems by metis
  then show ?case
    using Suc.IH s1 by simp
qed simp

lemma thread:
  assumes "fits (fds s)"
  shows "\<exists>S' s' new. passes n body (S, s) = Inr (S', s') \<and> same_vars s s' \<and>
    trace s' = trace s @ new \<and> relays (routes (fds s)) new"
  using any_number_of_passes [OF assms] many_passes [OF assms] by blast

end

subsection \<open>One pass\<close>

text \<open>Read with one call, and if bytes came, pass them on with another.\<close>

definition copy ::
    "'w kernel \<Rightarrow> xcall \<Rightarrow> (byte list \<Rightarrow> xcall) \<Rightarrow> ('w, 'z) sys_state_scheme \<Rightarrow> ('w, 'z) sys_state_scheme" where
  "copy k rd wr s =
     (let (r, s) = sys k rd s
      in if r_ret r \<le> 0 then s else snd (sys k (wr (got r)) s))"

definition pump ::
    "'w kernel \<Rightarrow> int \<Rightarrow> int \<times> xcall \<times> (byte list \<Rightarrow> xcall) \<Rightarrow> int \<times> xcall \<times> (byte list \<Rightarrow> xcall)
      \<Rightarrow> int set \<times> ('w, 'z) sys_state_scheme \<Rightarrow> (int set \<times> ('w, 'z) sys_state_scheme) res" where
  "pump k maxfd p q Ss =
     (let (fd1, rd1, wr1) = p; (fd2, rd2, wr2) = q; (S, s) = Ss in
      res_bind (FD_SET fd2 S) (\<lambda>S. res_bind (FD_SET fd1 S) (\<lambda>S.
        let (S, s) = do_select k maxfd S s in
        Inr (S, if fd1 \<in> S then copy k rd1 wr1 s else if fd2 \<in> S then copy k rd2 wr2 s else s))))"

text \<open>What a pass adds to the trace.\<close>

definition copied :: "xcall \<Rightarrow> (byte list \<Rightarrow> xcall) \<Rightarrow> (xcall \<times> reply) list \<Rightarrow> bool" where
  "copied rd wr t \<longleftrightarrow>
     (\<exists>r. r_ret r \<le> 0 \<and> t = [(rd, r)]) \<or> (\<exists>r q. 0 < r_ret r \<and> t = [(rd, r), (wr (got r), q)])"

definition pumped ::
    "xcall \<times> (byte list \<Rightarrow> xcall) \<Rightarrow> xcall \<times> (byte list \<Rightarrow> xcall) \<Rightarrow> (xcall \<times> reply) list \<Rightarrow> bool" where
  "pumped p q t \<longleftrightarrow>
     (\<exists>m S r u. t = (Select m S, r) # u \<and>
       (u = [] \<or> copied (fst p) (snd p) u \<or> copied (fst q) (snd q) u))"

lemma copy_vars: "same_vars s (copy k rd wr s)"
  by (simp add: copy_def Let_def split_beta same_vars_iff)

lemma copy_calls: "\<exists>u. trace (copy k rd wr s) = trace s @ u \<and> copied rd wr u"
  by (auto simp: copy_def Let_def split_beta sys_trace copied_def)

lemma do_select_effect:
  "same_vars s (snd (do_select k m S s))"
  "\<exists>r. trace (snd (do_select k m S s)) = trace s @ [(Select m S, r)]"
  by (auto simp: do_select_def Let_def split_beta sys_trace)

lemma pump_run:
  assumes "pump k m (a, ra, wa) (b, rb, wb) (S, s) = Inr (S', s')"
  obtains T where "s' = (let (T', t) = do_select k m T s in
    if a \<in> T' then copy k ra wa t else if b \<in> T' then copy k rb wb t else t)"
  using assms by (fastforce simp: pump_def Let_def split_beta split: if_splits)

lemma pump_effect:
  assumes "pump k m (a, ra, wa) (b, rb, wb) (S, s) = Inr (S', s')"
  shows "same_vars s s' \<and> (\<exists>t. trace s' = trace s @ t \<and> pumped (ra, wa) (rb, wb) t)"
proof -
  obtain S1 where "S' = fst (do_select k m S1 s) \<and>
    s' = (if a \<in> S' then copy k ra wa else if b \<in> S' then copy k rb wb else id) (snd (do_select k m S1 s))"
    using assms by (fastforce simp: pump_def Let_def split_beta split: if_splits)
  then have s': "s' \<in> {copy k ra wa t, copy k rb wb t, t}" if "t = snd (do_select k m S1 s)" for t
    using that by auto
  define t where "t = snd (do_select k m S1 s)"
  obtain r where r: "trace t = trace s @ [(Select m S1, r)]"
    unfolding t_def using do_select_effect(2) by blast
  have v: "same_vars s t"
    by (simp add: t_def do_select_effect)
  show ?thesis
    using s' [OF t_def] copy_calls [of k ra wa t] copy_calls [of k rb wb t]
      same_vars_trans [OF v copy_vars] v
    by (auto simp: r pumped_def)
qed

lemma pump_total:
  assumes "0 \<le> a" "a < FD_SETSIZE" "0 \<le> b" "b < FD_SETSIZE"
  shows "\<exists>x. pump k m (a, ra, wa) (b, rb, wb) Ss = Inr x"
  using assms by (simp add: pump_def FD_SET_def Let_def split_beta)

text \<open>A pass over two different sources and two different sinks relays.\<close>

lemma pumped_relays:
  assumes "pumped (ra, wa) (rb, wb) t"
    and "\<And>fd. reads_from fd ra \<longleftrightarrow> fd = a" "\<And>fd. reads_from fd rb \<longleftrightarrow> fd = b" "a \<noteq> b"
    and "\<And>fd bs. sent_to fd (wa bs) = (if fd = c then bs else [])"
    and "\<And>fd bs. sent_to fd (wb bs) = (if fd = d then bs else [])" "c \<noteq> d"
    and "\<And>fd. sent_to fd ra = []" "\<And>fd. sent_to fd rb = []"
    and "\<And>fd bs. \<not> reads_from fd (wa bs)" "\<And>fd bs. \<not> reads_from fd (wb bs)"
  shows "relays {(a, c), (b, d)} t"
  using assms by (auto simp: pumped_def copied_def relays_def)

end
