(* ===== verification/Tcp_Plugin.thy ===== *)
theory Tcp_Plugin
  imports Relay
begin

section \<open>The TCP plugin: tcp\_plugin.c\<close>

text \<open>
  One operation per function. The two forwarding threads are given as the set-up before their
  \<open>while (1)\<close>, one pass of it, and any number of passes. The local \<open>fd_set\<close> of a
  thread is not initialised by the code: its first content is a parameter \<open>S\<close>, and later
  passes work on the set that the previous \<open>select\<close> left. A port is kept as the program
  has it, and the 16 bits that \<open>htons\<close> keeps of it go into the call. \<open>sizeSockAddr\<close>
  is the constant size of an address and is left out.
\<close>

record 'w tcp_state = "'w base64_state" +
  socketConnected :: int
  socketRemote :: int
  socketServer :: int
  modeServer :: int
  remoteClientConnected :: int
  serverAddress :: "32 word \<times> 16 word"
  clientID :: int

definition INADDR_ANY :: "32 word" where "INADDR_ANY = 0"

subsection \<open>Connecting\<close>

definition tcp_buildClient ::
    "'w kernel \<Rightarrow> string \<Rightarrow> 32 word \<Rightarrow> ('w, 'z) tcp_state_scheme \<Rightarrow> (int \<times> ('w, 'z) tcp_state_scheme) res" where
  "tcp_buildClient k remoteHost remotePort s =
     (let s = s\<lparr>modeServer := 0\<rparr>;
          (r, s) = sys k (Socket AF_INET SOCK_STREAM) s;
          s = s\<lparr>socketRemote := r_ret r\<rparr>
      in if socketRemote s = - 1 then Inr (- 1, s)
      else
        let (he, s) = sys k (GetHostByName remoteHost) s
        in if r_ret he = 0 then Inr (- 1, s)
        else
          let (r, s) = sys k (Connect (socketRemote s) (r_addr he) (ucast remotePort)) s
          in if r_ret r = - 1 then Inr (- 1, s)
          else res_bind (StoreConnectionInformation k TCP_PLUGIN 0 s) (\<lambda>(i, s).
            let s = s\<lparr>clientID := i\<rparr>
            in if clientID s = 0 then Inr (- 1, s) else Inr (0, s)))"

definition tcp_buildServer ::
    "'w kernel \<Rightarrow> 32 word \<Rightarrow> ('w, 'z) tcp_state_scheme \<Rightarrow> int \<times> ('w, 'z) tcp_state_scheme" where
  "tcp_buildServer k localPort s =
     (let s = s\<lparr>modeServer := 1\<rparr>;
          s = s\<lparr>remoteClientConnected := 0\<rparr>;
          (r, s) = sys k (Socket AF_INET SOCK_STREAM) s;
          s = s\<lparr>socketServer := r_ret r\<rparr>
      in if socketServer s = - 1 then (- 1, s)
      else
        let s = s\<lparr>serverAddress := (INADDR_ANY, ucast localPort)\<rparr>;
            (r, s) = sys k (Bind (socketServer s) (fst (serverAddress s)) (snd (serverAddress s))) s
        in if r_ret r = - 1 then (- 1, s)
        else
          let (r, s) = sys k (Listen (socketServer s) 1) s
          in if r_ret r = - 1 then (- 1, s) else (0, s))"

definition tcp_read :: "'w kernel \<Rightarrow> nat \<Rightarrow> ('w, 'z) tcp_state_scheme \<Rightarrow> (int \<times> byte list) \<times> ('w, 'z) tcp_state_scheme" where
  "tcp_read k numbytes s =
     (let (r, s) = (if modeServer s \<noteq> 0 then sys k (Recv (socketConnected s) numbytes) s
                    else sys k (Recv (socketRemote s) numbytes) s)
      in ((r_ret r, r_bytes r), s))"

definition tcp_send :: "'w kernel \<Rightarrow> byte list \<Rightarrow> ('w, 'z) tcp_state_scheme \<Rightarrow> int \<times> ('w, 'z) tcp_state_scheme" where
  "tcp_send k data s =
     (let (r, s) = (if modeServer s \<noteq> 0 then sys k (Send (socketConnected s) data) s
                    else sys k (Send (socketRemote s) data) s)
      in (r_ret r, s))"

definition tcp_stop :: "'w kernel \<Rightarrow> ('w, 'z) tcp_state_scheme \<Rightarrow> int \<times> ('w, 'z) tcp_state_scheme" where
  "tcp_stop k s =
     (if modeServer s \<noteq> 0 then
        let s = (if remoteClientConnected s \<noteq> 0 then snd (sys k (Close (socketConnected s)) s) else s);
            (_, s) = sys k (Close (socketServer s)) s;
            s = s\<lparr>remoteClientConnected := 0\<rparr>
        in (0, s)
      else
        let (_, s) = sys k (Close (socketRemote s)) s in (0, s))"

definition tcp_getSocket :: "('w, 'z) tcp_state_scheme \<Rightarrow> int" where
  "tcp_getSocket s = (if modeServer s \<noteq> 0 then socketConnected s else socketRemote s)"

definition tcp_build :: "'w kernel \<Rightarrow> ('w, 'z) tcp_state_scheme \<Rightarrow> (int \<times> ('w, 'z) tcp_state_scheme) res" where
  "tcp_build k s =
     res_bind (tun_open k s) (\<lambda>(rc, s).
       if rc \<noteq> 0 then Inr (- 1, s)
       else if g_mode (gv s) = SERVER_MODE then Inr (tcp_buildServer k (g_local_port (gv s)) s)
       else if g_mode (gv s) = CLIENT_MODE then
         res_bind (tcp_buildClient k (c_str (g_remote_host (gv s))) (g_remote_port (gv s)) s) (\<lambda>(rc, s).
           if rc \<noteq> 0 then Inr (- 1, s) else Inr (0, s))
       else Inr (- 1, s))"

subsection \<open>Checking parameters\<close>

text \<open>A check returns true when the parameter is missing.\<close>

definition none_str :: "char list \<Rightarrow> bool" where
  "none_str b \<longleftrightarrow> strncmp_eq (c_str b) ''none'' (length ''none'')"

definition tcp_checkMode :: "t_global_v \<Rightarrow> bool" where
  "tcp_checkMode g \<longleftrightarrow> g_mode g = - 1"

definition tcp_checkLocalPort :: "t_global_v \<Rightarrow> bool" where
  "tcp_checkLocalPort g \<longleftrightarrow> g_local_port g = - 1"

definition tcp_checkRemoteHost :: "t_global_v \<Rightarrow> bool" where
  "tcp_checkRemoteHost g \<longleftrightarrow> none_str (g_remote_host g)"

definition tcp_checkRemotePort :: "t_global_v \<Rightarrow> bool" where
  "tcp_checkRemotePort g \<longleftrightarrow> g_remote_port g = - 1"

definition tcp_checkLocalIP :: "t_global_v \<Rightarrow> bool" where
  "tcp_checkLocalIP g \<longleftrightarrow> none_str (g_local_ip g)"

definition tcp_checkRemoteIP :: "t_global_v \<Rightarrow> bool" where
  "tcp_checkRemoteIP g \<longleftrightarrow> none_str (g_remote_ip g)"

text \<open>The result comes with the error messages written.\<close>

definition tcp_checkParameters :: "t_global_v \<Rightarrow> int \<times> string list" where
  "tcp_checkParameters g =
     (if tcp_checkMode g then (- 1, [''TCP Plugin Requires server mode or client mode''])
      else if g_mode g = SERVER_MODE then
        if tcp_checkLocalPort g \<or> tcp_checkLocalIP g \<or> tcp_checkRemoteIP g
        then (- 1, [''TCP Plugin Server gMode requires: local_port, local_ip, remote_ip''])
        else (0, [])
      else if g_mode g = CLIENT_MODE then
        (0, if tcp_checkRemoteHost g \<or> tcp_checkRemotePort g \<or> tcp_checkLocalIP g \<or> tcp_checkRemoteIP g
            then [''TCP Plugin Client Mode requires: remote, remote_port, local_ip, remote_ip''] else [])
      else (- 1, []))"

subsection \<open>The forwarding threads\<close>

definition client_pass ::
    "'w kernel \<Rightarrow> int \<Rightarrow> int set \<times> ('w, 'z) tcp_state_scheme \<Rightarrow> (int set \<times> ('w, 'z) tcp_state_scheme) res" where
  "client_pass k maxfd Ss =
     (let (setReading, s) = Ss in
      res_bind (FD_SET (fst (g_pipe_to_plugin (gv s))) setReading) (\<lambda>setReading.
      res_bind (FD_SET (socketRemote s) setReading) (\<lambda>setReading.
        let (setReading, s) = do_select k maxfd setReading s
        in if socketRemote s \<in> setReading then
          let (r, s) = sys k (Recv (socketRemote s) (BLOCK_SIZE - 1)) s
          in if r_ret r \<le> 0 then Inr (setReading, s)
          else
            let (_, s) = sys k (Write (snd (g_pipe_from_plugin (gv s))) (got r)) s
            in Inr (setReading, s)
        else if fst (g_pipe_to_plugin (gv s)) \<in> setReading then
          let (r, s) = sys k (Read (fst (g_pipe_to_plugin (gv s))) (BLOCK_SIZE - 1)) s
          in if r_ret r \<le> 0 then Inr (setReading, s)
          else
            let (_, s) = sys k (Send (socketRemote s) (got r)) s
            in Inr (setReading, s)
        else Inr (setReading, s))))"

definition tcp_startClient ::
    "'w kernel \<Rightarrow> int set \<Rightarrow> nat \<Rightarrow> ('w, 'z) tcp_state_scheme \<Rightarrow> (int set \<times> ('w, 'z) tcp_state_scheme) res" where
  "tcp_startClient k S n s =
     (let maxfd = (if socketRemote s > fst (g_pipe_to_plugin (gv s)) then socketRemote s + 1
                   else fst (g_pipe_to_plugin (gv s)) + 1)
      in passes n (client_pass k maxfd) (S, s))"

definition server_pass ::
    "'w kernel \<Rightarrow> int \<Rightarrow> int set \<times> ('w, 'z) tcp_state_scheme \<Rightarrow> (int set \<times> ('w, 'z) tcp_state_scheme) res" where
  "server_pass k maxfd Ss =
     (let (setReading, s) = Ss in
      res_bind (FD_SET (fst (g_pipe_to_plugin (gv s))) setReading) (\<lambda>setReading.
      res_bind (FD_SET (socketConnected s) setReading) (\<lambda>setReading.
        let (setReading, s) = do_select k maxfd setReading s
        in if socketConnected s \<in> setReading then
          let (r, s) = sys k (Recv (socketConnected s) (BLOCK_SIZE - 1)) s
          in if r_ret r \<le> 0 then Inr (setReading, s)
          else
            let (_, s) = sys k (Write (snd (g_pipe_from_plugin (gv s))) (got r)) s
            in Inr (setReading, s)
        else if fst (g_pipe_to_plugin (gv s)) \<in> setReading then
          let (r, s) = sys k (Read (fst (g_pipe_to_plugin (gv s))) (BLOCK_SIZE - 1)) s
          in if r_ret r \<le> 0 then Inr (setReading, s)
          else
            let (_, s) = sys k (Send (socketConnected s) (got r)) s
            in Inr (setReading, s)
        else Inr (setReading, s))))"

text \<open>The result of \<open>accept\<close> is stored without a check.\<close>

definition server_accept :: "'w kernel \<Rightarrow> ('w, 'z) tcp_state_scheme \<Rightarrow> ('w, 'z) tcp_state_scheme" where
  "server_accept k s =
     (let (r, s) = sys k (Accept (socketServer s)) s;
          s = (if r_ret r < 0 then s else s\<lparr>serverAddress := (r_addr r, r_flags r)\<rparr>);
          s = s\<lparr>socketConnected := r_ret r\<rparr>
      in s\<lparr>remoteClientConnected := 1\<rparr>)"

definition server_maxfd :: "('w, 'z) tcp_state_scheme \<Rightarrow> int" where
  "server_maxfd s =
     (if socketConnected s > fst (g_pipe_to_plugin (gv s)) then socketConnected s + 1
      else fst (g_pipe_to_plugin (gv s)) + 1)"

definition tcp_startServer ::
    "'w kernel \<Rightarrow> int set \<Rightarrow> nat \<Rightarrow> ('w, 'z) tcp_state_scheme \<Rightarrow> (int set \<times> ('w, 'z) tcp_state_scheme) res" where
  "tcp_startServer k S n s =
     (let s = server_accept k s;
          maxfd = server_maxfd s
      in passes n (server_pass k maxfd) (S, s))"

text \<open>
  The plugin's thread: the results of the three set-up calls are ignored. \<open>Some 0\<close> is the
  return of \<open>tcp_start\<close>, \<open>None\<close> a thread that is in its loop after \<open>n\<close> passes.
\<close>

definition tcp_start ::
    "'w kernel \<Rightarrow> int set \<Rightarrow> nat \<Rightarrow> ('w, 'z) tcp_state_scheme \<Rightarrow> (int option \<times> ('w, 'z) tcp_state_scheme) res" where
  "tcp_start k S n s =
     res_bind (tun_setIP k (c_str (g_local_ip (gv s))) s) (\<lambda>(_, s).
     res_bind (tun_setNETMASK k ''255.255.255.0'' s) (\<lambda>(_, s).
     res_bind (tun_UP k s) (\<lambda>(_, s).
       if g_mode (gv s) = SERVER_MODE then res_bind (tcp_startServer k S n s) (\<lambda>(_, s). Inr (None, s))
       else if g_mode (gv s) = CLIENT_MODE then res_bind (tcp_startClient k S n s) (\<lambda>(_, s). Inr (None, s))
       else Inr (Some 0, s))))"

subsection \<open>Hooks for the main loop\<close>

definition tcp_fillFDSET :: "int set \<Rightarrow> ('w, 'z) tcp_state_scheme \<Rightarrow> (int \<times> int set) res" where
  "tcp_fillFDSET S s =
     (if g_mode (gv s) = SERVER_MODE then Inr (0, S)
      else if g_mode (gv s) = CLIENT_MODE then
        res_bind (GetSocketRecvQueue TCP_PLUGIN (clientID s) s) (\<lambda>fd.
        res_bind (FD_SET fd S) (\<lambda>S. Inr (0, S)))
      else Inr (0, S))"

definition tcp_checkFDISSET :: "int set \<Rightarrow> ('w, 'z) tcp_state_scheme \<Rightarrow> int res" where
  "tcp_checkFDISSET S s =
     (if g_mode (gv s) = CLIENT_MODE then GetSocketRecvQueue TCP_PLUGIN (clientID s) s
      else Inr 0)"

definition tcp_getTunTap :: "('w, 'z) tcp_state_scheme \<Rightarrow> int" where
  "tcp_getTunTap s = tun_getFile s"

subsection \<open>The threads are relays\<close>

lemma same_vars_tcp:
  assumes "same_vars s s'"
  shows "socketRemote s' = socketRemote s" "socketConnected s' = socketConnected s" "gv s' = gv s"
  using assms by (cases s; cases s'; simp add: same_vars_def)+

lemma do_select_tcp [frame]:
  "socketRemote (snd (do_select k m S s)) = socketRemote s"
  "socketConnected (snd (do_select k m S s)) = socketConnected s"
  "gv (snd (do_select k m S s)) = gv s"
  by (rule same_vars_tcp [OF do_select_effect(1)])+

lemma sys_tcp [frame, simp]:
  "socketRemote (snd (sys k c s)) = socketRemote s" "socketConnected (snd (sys k c s)) = socketConnected s"
  "socketServer (snd (sys k c s)) = socketServer s" "modeServer (snd (sys k c s)) = modeServer s"
  "remoteClientConnected (snd (sys k c s)) = remoteClientConnected s"
  "serverAddress (snd (sys k c s)) = serverAddress s" "clientID (snd (sys k c s)) = clientID s"
  by (simp_all add: sys_def Let_def split_beta)

lemma client_pass_pump:
  "client_pass k m (S, s) =
     pump k m
       (socketRemote s, Recv (socketRemote s) (BLOCK_SIZE - 1), Write (snd (g_pipe_from_plugin (gv s))))
       (fst (g_pipe_to_plugin (gv s)), Read (fst (g_pipe_to_plugin (gv s))) (BLOCK_SIZE - 1), Send (socketRemote s))
       (S, s)"
  unfolding client_pass_def pump_def Let_def prod.case
  by (intro res_bind_cong refl) (simp add: copy_def Let_def split_beta do_select_tcp sys_tcp)

lemma server_pass_pump:
  "server_pass k m (S, s) =
     pump k m
       (socketConnected s, Recv (socketConnected s) (BLOCK_SIZE - 1), Write (snd (g_pipe_from_plugin (gv s))))
       (fst (g_pipe_to_plugin (gv s)), Read (fst (g_pipe_to_plugin (gv s))) (BLOCK_SIZE - 1), Send (socketConnected s))
       (S, s)"
  unfolding server_pass_def pump_def Let_def prod.case
  by (intro res_bind_cong refl) (simp add: copy_def Let_def split_beta do_select_tcp sys_tcp)

text \<open>
  The descriptors of a plugin thread: the read end of the pipe to the plugin, the write end of
  the pipe from it, and the socket.
\<close>

definition client_fds :: "('w, 'z) tcp_state_scheme \<Rightarrow> int \<times> int \<times> int" where
  "client_fds s = (fst (g_pipe_to_plugin (gv s)), snd (g_pipe_from_plugin (gv s)), socketRemote s)"

definition server_fds :: "('w, 'z) tcp_state_scheme \<Rightarrow> int \<times> int \<times> int" where
  "server_fds s = (fst (g_pipe_to_plugin (gv s)), snd (g_pipe_from_plugin (gv s)), socketConnected s)"

definition plugin_routes :: "int \<times> int \<times> int \<Rightarrow> (int \<times> int) set" where
  "plugin_routes fds = (let (pin, pout, sock) = fds in {(sock, pout), (pin, sock)})"

definition selectable :: "int \<Rightarrow> bool" where
  "selectable fd \<longleftrightarrow> 0 \<le> fd \<and> fd < FD_SETSIZE"

definition plugin_fits :: "int \<times> int \<times> int \<Rightarrow> bool" where
  "plugin_fits fds =
     (let (pin, pout, sock) = fds in selectable pin \<and> selectable sock \<and> pin \<noteq> sock \<and> pout \<noteq> sock)"

lemma plugin_pump_relays:
  assumes "pump k m (sock, Recv sock n, Write pout) (pin, Read pin n, Send sock) (S, s) = Inr (S', s')"
    and "plugin_fits (pin, pout, sock)"
  shows "same_vars s s' \<and> (\<exists>t. trace s' = trace s @ t \<and> relays (plugin_routes (pin, pout, sock)) t)"
proof -
  obtain t where t: "same_vars s s'" "trace s' = trace s @ t" "pumped (Recv sock n, Write pout) (Read pin n, Send sock) t"
    using pump_effect [OF assms(1)] by blast
  have "relays {(sock, pout), (pin, sock)} t"
    by (rule pumped_relays [OF t(3)]) (use assms(2) in \<open>auto simp: plugin_fits_def\<close>)
  then show ?thesis
    using t by (auto simp: plugin_routes_def)
qed

lemma plugin_pump_runs:
  assumes "plugin_fits (pin, pout, sock)"
  shows "\<exists>S' s'. pump k m (sock, rs, wp) (pin, rp, ws) Ss = Inr (S', s')"
  using assms pump_total [of sock pin k m rs wp rp ws Ss] by (simp add: plugin_fits_def selectable_def)

interpretation client: safe_relay "client_pass k m" client_fds plugin_routes plugin_fits for k m
  by unfold_locales
    (auto simp: client_fds_def same_vars_tcp client_pass_pump plugin_pump_runs dest: plugin_pump_relays)

interpretation server: safe_relay "server_pass k m" server_fds plugin_routes plugin_fits for k m
  by unfold_locales
    (auto simp: server_fds_def same_vars_tcp server_pass_pump plugin_pump_runs dest: plugin_pump_relays)

end
