(* ===== verification/Tcp_Facts.thy ===== *)
theory Tcp_Facts
  imports Tcp_Plugin
begin

section \<open>What the TCP plugin does\<close>

text \<open>
  The properties of the plugin's operations: what a started thread forwards, what a build leaves
  behind for a server and for a client, what its checks report, and what happens when an accept
  fails or the peer closes the connection.
\<close>

subsection \<open>The threads\<close>

definition tcp_start_state :: "t_global_v \<Rightarrow> 'w \<Rightarrow> 'w tcp_state" where
  "tcp_start_state g w =
     \<lparr>world = w, trace = [], errno = 0, gv = g, plugindata = plugindata_zero, live = {},
      iface_name = replicate 256 NUL, tfd = 0, decoding_table = Null,
      socketConnected = 0, socketRemote = 0, socketServer = 0, modeServer = 0,
      remoteClientConnected = 0, serverAddress = (0, 0), clientID = 0\<rparr>"

text \<open>
  The client thread, for any number of passes and whatever the kernel answers: it stays in
  defined behaviour, changes no variable of the program, and forwards exactly: the bytes written to the
  pipe are the bytes received from the socket, the bytes sent to the socket are the bytes read
  from the pipe, in order, none added, dropped or changed.
\<close>

lemma client_thread_forwards:
  assumes "client_fds s = (pin, pout, sock)" "plugin_fits (pin, pout, sock)"
  shows "\<exists>S' s' new. tcp_startClient k S n s = Inr (S', s') \<and> same_vars s s' \<and> trace s' = trace s @ new \<and>
    submitted pout new = received sock new \<and> submitted sock new = received pin new"
  using client.thread [where s = s and k = k and n = n and S = S and
      m = "if socketRemote s > fst (g_pipe_to_plugin (gv s)) then socketRemote s + 1
           else fst (g_pipe_to_plugin (gv s)) + 1"] assms
  by (simp add: tcp_startClient_def Let_def relays_def plugin_routes_def)

text \<open>
  The server thread, once \<open>accept\<close> gave a descriptor: the same, for the connection it
  accepted.
\<close>

lemma server_thread_forwards:
  assumes "sock = r_ret (fst (sys k (Accept (socketServer s)) s))"
    and "pin = fst (g_pipe_to_plugin (gv s))" "pout = snd (g_pipe_from_plugin (gv s))"
    and "plugin_fits (pin, pout, sock)"
  shows "\<exists>S' s' new. tcp_startServer k S n s = Inr (S', s') \<and> socketConnected s' = sock \<and>
    trace s' = trace (server_accept k s) @ new \<and>
    submitted pout new = received sock new \<and> submitted sock new = received pin new"
proof -
  have "server_fds (server_accept k s) = (pin, pout, sock)"
    using assms(1-3) by (simp add: server_fds_def server_accept_def Let_def split_beta)
  then obtain S' s' new where *: "tcp_startServer k S n s = Inr (S', s')" "same_vars (server_accept k s) s'"
    "trace s' = trace (server_accept k s) @ new" "relays (plugin_routes (pin, pout, sock)) new"
    using server.thread [where s = "server_accept k s" and k = k and n = n and S = S] assms(4)
    by (simp add: tcp_startServer_def Let_def) metis
  moreover have "socketConnected s' = sock"
    using same_vars_tcp(2) [OF *(2)] assms(1) by (simp add: server_accept_def Let_def split_beta)
  ultimately show ?thesis
    by (auto simp: relays_def plugin_routes_def)
qed

text \<open>The thread's configuration of the device returns, and carries no bytes.\<close>

lemma tun_config_total:
  assumes "iface_ok s"
  shows "\<exists>rc s' t. tun_setIP k ip s = Inr (rc, s') \<and> same_vars s s' \<and> trace s' = trace s @ t \<and> silent t"
    "\<exists>rc s' t. tun_setNETMASK k ip s = Inr (rc, s') \<and> same_vars s s' \<and> trace s' = trace s @ t \<and> silent t"
    "\<exists>rc s' t. tun_UP k s = Inr (rc, s') \<and> same_vars s s' \<and> trace s' = trace s @ t \<and> silent t"
  using iface_ok_name [OF assms]
  by (simp_all add: tun_setIP_def tun_setNETMASK_def tun_UP_def Let_def split_beta sys_trace same_vars_iff silent_def)

lemma tcp_start_config:
  fixes s :: "('w, 'z) tcp_state_scheme"
  assumes "iface_ok s"
  shows "\<exists>s1 cfg. same_vars s s1 \<and> trace s1 = trace s @ cfg \<and> silent cfg \<and>
    tcp_start k S n s =
      (if g_mode (gv s) = SERVER_MODE then res_bind (tcp_startServer k S n s1) (\<lambda>(_, s). Inr (None, s))
       else if g_mode (gv s) = CLIENT_MODE then res_bind (tcp_startClient k S n s1) (\<lambda>(_, s). Inr (None, s))
       else Inr (Some 0, s1))"
proof -
  obtain r1 s1 t1 where 1: "tun_setIP k (c_str (g_local_ip (gv s))) s = Inr (r1, s1)" "same_vars s s1"
    "trace s1 = trace s @ t1" "silent t1"
    using tun_config_total(1) [OF assms] by blast
  obtain r2 s2 t2 where 2: "tun_setNETMASK k ''255.255.255.0'' s1 = Inr (r2, s2)" "same_vars s1 s2"
    "trace s2 = trace s1 @ t2" "silent t2"
    using tun_config_total(2) [OF iface_ok_same_vars [OF 1(2) assms]] by blast
  obtain r3 s3 t3 where 3: "tun_UP k s2 = Inr (r3, s3)" "same_vars s2 s3" "trace s3 = trace s2 @ t3" "silent t3"
    using tun_config_total(3) [OF iface_ok_same_vars [OF 2(2) iface_ok_same_vars [OF 1(2) assms]]] by blast
  have v: "same_vars s s3"
    using 1(2) 2(2) 3(2) same_vars_trans by blast
  then have "gv s3 = gv s"
    by (simp add: same_vars_tun)
  with 1 2 3 v show ?thesis
    by (intro exI [of _ s3] exI [of _ "t1 @ t2 @ t3"]) (simp add: tcp_start_def silent_append)
qed

lemma client_start_relays:
  assumes "g_mode (gv s) = CLIENT_MODE" "iface_ok s" "client_fds s = (pin, pout, sock)" "plugin_fits (pin, pout, sock)"
  shows "\<exists>s' new. tcp_start k S n s = Inr (None, s') \<and> same_vars s s' \<and> trace s' = trace s @ new \<and>
    submitted pout new = received sock new \<and> submitted sock new = received pin new"
proof -
  obtain s1 cfg where c: "same_vars s s1" "trace s1 = trace s @ cfg" "silent cfg"
    "tcp_start k S n s = res_bind (tcp_startClient k S n s1) (\<lambda>(_, s). Inr (None, s))"
    using tcp_start_config [OF assms(2), of k S n] assms(1) by (auto simp: global_consts)
  have "client_fds s1 = (pin, pout, sock)"
    using assms(3) by (simp add: client_fds_def same_vars_tcp [OF c(1)])
  from client_thread_forwards [OF this assms(4), of k S n]
  obtain S' s' new where "tcp_startClient k S n s1 = Inr (S', s')" "same_vars s1 s'" "trace s' = trace s1 @ new"
    "submitted pout new = received sock new" "submitted sock new = received pin new"
    by blast
  then show ?thesis
    using c same_vars_trans [OF c(1)]
    by (intro exI [of _ s'] exI [of _ "cfg @ new"]) (simp add: silent_def)
qed


lemma server_start_relays:
  assumes "g_mode (gv s) = SERVER_MODE" "iface_ok s" "pin = fst (g_pipe_to_plugin (gv s))" "pout = snd (g_pipe_from_plugin (gv s))"
    and "\<And>w. plugin_fits (pin, pout, r_ret (fst (k (Accept (socketServer s)) w)))"
  shows "\<exists>s' new. tcp_start k S n s = Inr (None, s') \<and> trace s' = trace s @ new \<and>
    submitted pout new = received (socketConnected s') new \<and> submitted (socketConnected s') new = received pin new"
proof -
  obtain s1 cfg where c: "same_vars s s1" "trace s1 = trace s @ cfg" "silent cfg"
    "tcp_start k S n s = res_bind (tcp_startServer k S n s1) (\<lambda>(_, s). Inr (None, s))"
    using tcp_start_config [OF assms(2), of k S n] assms(1) by auto
  let ?sock = "r_ret (fst (sys k (Accept (socketServer s1)) s1))"
  have v: "gv s1 = gv s" "socketServer s1 = socketServer s"
    using c(1) by (cases s; cases s1; simp add: same_vars_def)+
  have "plugin_fits (pin, pout, ?sock)"
    using assms(5) by (simp add: v sys_reply)
  from server_thread_forwards [OF refl _ _ this, of S n] assms(3,4) v(1)
  obtain S' s' new where t: "tcp_startServer k S n s1 = Inr (S', s')" "socketConnected s' = ?sock"
    "trace s' = trace (server_accept k s1) @ new"
    "submitted pout new = received ?sock new" "submitted ?sock new = received pin new"
    by auto
  have "trace (server_accept k s1) = trace s @ cfg @ [(Accept (socketServer s1), fst (sys k (Accept (socketServer s1)) s1))]"
    by (simp add: server_accept_def Let_def split_beta sys_trace c(2))
  then show ?thesis
    using c t
    by (intro exI [of _ s'] exI [of _ "cfg @ (Accept (socketServer s1), fst (sys k (Accept (socketServer s1)) s1)) # new"])
      (simp add: silent_def)
qed


definition example_globals :: "int \<Rightarrow> t_global_v" where
  "example_globals mode = globals_init\<lparr>g_mode := mode, g_pipe_from_plugin := (3, 4), g_pipe_to_plugin := (5, 6)\<rparr>"

definition client_example :: "'w \<Rightarrow> 'w tcp_state" where
  "client_example w = (tcp_start_state (example_globals CLIENT_MODE) w)\<lparr>socketRemote := 7\<rparr>"

lemma example_name_ok: "buf_ok 100 (replicate 256 NUL)" "c_str (replicate 256 NUL) = []"
  by (simp_all add: buf_ok_zero c_str_def takeWhile_eq_Nil_iff)


definition accepting_kernel :: "unit kernel" where
  "accepting_kernel c w = (reply_ok 7, w)"


text \<open>
  C36. When \<open>accept\<close> fails, its result is used all the same: the first pass sets the bit of
  descriptor -1, outside the descriptor set.
\<close>

lemma failed_accept_overruns:
  assumes "r_ret (fst (sys k (Accept (socketServer s)) s)) < 0" "0 < n"
    "selectable (fst (g_pipe_to_plugin (gv s)))"
  shows "tcp_startServer k S n s = Inl OutOfBounds"
proof -
  have "gv (server_accept k s) = gv s" "socketConnected (server_accept k s) < 0"
    using assms(1) by (simp_all add: server_accept_def Let_def split_beta)
  then have "server_pass k m (S, server_accept k s) = Inl OutOfBounds" for m
    using assms(3) by (simp add: server_pass_def FD_SET_def selectable_def)
  then show ?thesis
    using assms(2) by (cases n) (simp_all add: tcp_startServer_def Let_def)
qed

lemma failed_accept_overruns_witness:
  "tcp_startServer script_kernel {} 1 (tcp_start_state (example_globals SERVER_MODE) [reply_ok (- 1)]) = Inl OutOfBounds"
  by (rule failed_accept_overruns)
    (simp_all add: sys_reply script_kernel_def tcp_start_state_def example_globals_def selectable_def FD_SETSIZE_def reply_ok_def)

text \<open>
  The parameter check: in server mode it accepts exactly the configurations with a local
  port and both addresses; in client mode it complains about a missing host, port or address
  and accepts all the same; any other mode is refused.
\<close>

lemma tcp_checkParameters_result:
  "(fst (tcp_checkParameters g) = 0 \<longleftrightarrow>
     (if g_mode g = SERVER_MODE
      then g_local_port g \<noteq> - 1 \<and> \<not> none_str (g_local_ip g) \<and> \<not> none_str (g_remote_ip g)
      else g_mode g = CLIENT_MODE))
   \<and> (fst (tcp_checkParameters g) = 0 \<and> snd (tcp_checkParameters g) \<noteq> [] \<longleftrightarrow>
     g_mode g = CLIENT_MODE \<and>
     (none_str (g_remote_host g) \<or> g_remote_port g = - 1 \<or> none_str (g_local_ip g) \<or> none_str (g_remote_ip g)))"
  by (auto simp: tcp_checkParameters_def tcp_checkMode_def tcp_checkLocalPort_def tcp_checkLocalIP_def
      tcp_checkRemoteIP_def tcp_checkRemoteHost_def tcp_checkRemotePort_def global_consts)

text \<open>The calls of the server's set-up: each one is made only when the one before succeeded.\<close>

fun setup_trace :: "(xcall \<times> reply) list \<Rightarrow> (xcall \<times> reply) list" where
  "setup_trace [] = []"
| "setup_trace ((c, r) # t) = (c, r) # (if r_ret r = - 1 then [] else setup_trace t)"

lemma tcp_buildServer_result:
  fixes s :: "('w, 'z) tcp_state_scheme"
  shows "\<exists>r1 r2 r3 s'. tcp_buildServer k p s = (if - 1 \<in> {r_ret r1, r_ret r2, r_ret r3} then - 1 else 0, s')
    \<and> trace s' = trace s @ setup_trace [(Socket AF_INET SOCK_STREAM, r1), (Bind (r_ret r1) 0 (ucast p), r2), (Listen (r_ret r1) 1, r3)]
    \<and> socketServer s' = r_ret r1 \<and> modeServer s' = 1 \<and> remoteClientConnected s' = 0"
proof -
  define s0 where "s0 = s\<lparr>modeServer := 1, remoteClientConnected := 0\<rparr>"
  define r1 where "r1 = fst (sys k (Socket AF_INET SOCK_STREAM) s0)"
  define s1 where "s1 = (snd (sys k (Socket AF_INET SOCK_STREAM) s0))\<lparr>socketServer := r_ret r1\<rparr>"
  define s2 where "s2 = s1\<lparr>serverAddress := (INADDR_ANY, ucast p)\<rparr>"
  define r2 where "r2 = fst (sys k (Bind (r_ret r1) 0 (ucast p)) s2)"
  define s3 where "s3 = snd (sys k (Bind (r_ret r1) 0 (ucast p)) s2)"
  define r3 where "r3 = fst (sys k (Listen (r_ret r1) 1) s3)"
  define s4 where "s4 = snd (sys k (Listen (r_ret r1) 1) s3)"
  note d = r3_def r2_def r1_def
  have run: "tcp_buildServer k p s =
      (if r_ret r1 = - 1 then (- 1, s1) else if r_ret r2 = - 1 then (- 1, s3)
       else (if r_ret r3 = - 1 then - 1 else 0, s4))"
    by (simp add: tcp_buildServer_def Let_def split_beta s4_def s3_def s2_def s1_def s0_def d INADDR_ANY_def)
  have tr: "trace s1 = trace s @ [(Socket AF_INET SOCK_STREAM, r1)]"
    "trace s3 = trace s1 @ [(Bind (r_ret r1) 0 (ucast p), r2)]" "trace s4 = trace s3 @ [(Listen (r_ret r1) 1, r3)]"
    by (simp_all add: s4_def s3_def s2_def s1_def s0_def d sys_trace)
  have st: "socketServer x = r_ret r1 \<and> modeServer x = 1 \<and> remoteClientConnected x = 0" if "x \<in> {s1, s3, s4}" for x
    using that by (auto simp: s4_def s3_def s2_def s1_def s0_def)
  consider "r_ret r1 = - 1" | "r_ret r1 \<noteq> - 1" "r_ret r2 = - 1" | "r_ret r1 \<noteq> - 1" "r_ret r2 \<noteq> - 1"
    by blast
  then show ?thesis
  proof cases
    case 1
    then show ?thesis using run tr st by (intro exI [of _ r1] exI [of _ r2] exI [of _ r3] exI [of _ s1]) simp
  next
    case 2
    then show ?thesis using run tr st by (intro exI [of _ r1] exI [of _ r2] exI [of _ r3] exI [of _ s3]) simp
  next
    case 3
    then show ?thesis using run tr st by (intro exI [of _ r1] exI [of _ r2] exI [of _ r3] exI [of _ s4]) simp
  qed
qed

lemma tun_open_keeps:
  "tun_open k s = Inr (rc, s') \<Longrightarrow> gv s' = gv s \<and> plugindata s' = plugindata s"
  by (auto simp: tun_open_def tun_alloc_def Let_def split_beta split: if_splits)

text \<open>
  C30. Building the server, once the TAP device is open: the calls are socket, bind to any
  address and the low 16 bits of the configured port, and listen, each made only when the one before
  succeeded; 0 is returned exactly when all three succeed, and the descriptor stored is that of
  the listening socket.
\<close>

lemma tcp_build_server:
  assumes "g_mode (gv s) = SERVER_MODE" "tun_open k s = Inr (0, s1)"
  shows "\<exists>r1 r2 r3 s'. tcp_build k s = Inr (if - 1 \<in> {r_ret r1, r_ret r2, r_ret r3} then - 1 else 0, s')
    \<and> trace s' = trace s1 @ setup_trace [(Socket AF_INET SOCK_STREAM, r1),
        (Bind (r_ret r1) 0 (ucast (g_local_port (gv s))), r2), (Listen (r_ret r1) 1, r3)]
    \<and> socketServer s' = r_ret r1 \<and> modeServer s' = 1 \<and> remoteClientConnected s' = 0"
  using tcp_buildServer_result [of k "g_local_port (gv s)" s1] tun_open_keeps [OF assms(2)] assms
  by (simp add: tcp_build_def)

lemma tcp_build_server_witness:
  "\<exists>(r1 :: reply) (r2 :: reply) (r3 :: reply) s1 s'. tun_open counting_kernel (tcp_start_state (example_globals SERVER_MODE) 0) = Inr (0, s1)
    \<and> tcp_build counting_kernel (tcp_start_state (example_globals SERVER_MODE) 0)
      = Inr (if - 1 \<in> {r_ret r1, r_ret r2, r_ret r3} then - 1 else 0, s')
    \<and> socketServer s' = r_ret r1 \<and> modeServer s' = 1"
proof -
  let ?s = "tcp_start_state (example_globals SERVER_MODE) 0 :: nat tcp_state"
  have "\<exists>s1. tun_open counting_kernel ?s = Inr (0, s1)"
    by (simp add: tun_open_def tun_alloc_def counting_kernel_def reply_ok_def sys_def Let_def tcp_start_state_def
        strncpy_def)
  then obtain s1 where s1: "tun_open counting_kernel ?s = Inr (0, s1)" ..
  have m: "g_mode (gv ?s) = SERVER_MODE"
    by (simp add: tcp_start_state_def example_globals_def)
  show ?thesis
    using tcp_build_server [OF m s1] s1 by blast
qed

lemma Store_keeps:
  fixes s :: "('w, 'z) tcp_state_scheme"
  assumes "StoreConnectionInformation k p d s = Inr (i, s')"
  shows "socketRemote s' = socketRemote s \<and> modeServer s' = modeServer s"
proof -
  have f: "socketRemote (set_connection p i f t) = socketRemote t" "modeServer (set_connection p i f t) = modeServer t"
    for p i f and t :: "('w, 'z) tcp_state_scheme"
    by (simp_all add: set_connection_def)
  show ?thesis
    using assms by (auto simp: StoreConnectionInformation_def Let_def split_beta f split: if_splits)
qed

lemma tcp_build_client_result:
  assumes "g_mode (gv s) = CLIENT_MODE" "tun_open k s = Inr (0, s1)" "tunnel_ok s" "tcp_build k s = Inr (0, s')"
  shows "\<exists>r1 h r2 r3 r4. trace s' = trace s1 @ [(Socket AF_INET SOCK_STREAM, r1),
        (GetHostByName (c_str (g_remote_host (gv s))), h),
        (Connect (r_ret r1) (r_addr h) (ucast (g_remote_port (gv s))), r2),
        (Socket AF_INET SOCK_STREAM, r3), (Socket AF_INET SOCK_STREAM, r4)]
    \<and> r_ret r1 \<noteq> - 1 \<and> r_ret h \<noteq> 0 \<and> r_ret r2 \<noteq> - 1 \<and> gv s' = gv s \<and> socketRemote s' = r_ret r1 \<and> modeServer s' = 0
    \<and> 1 \<le> clientID s' \<and> clientID s' < 50
    \<and> tcp_fillFDSET {} s' = (if selectable (r_ret r4) then Inr (0, {r_ret r4}) else Inl OutOfBounds)"
proof -
  note g = tun_open_keeps [OF assms(2)]
  define s2 where "s2 = s1\<lparr>modeServer := 0\<rparr>"
  define r1 where "r1 = fst (sys k (Socket AF_INET SOCK_STREAM) s2)"
  define s3 where "s3 = (snd (sys k (Socket AF_INET SOCK_STREAM) s2))\<lparr>socketRemote := r_ret r1\<rparr>"
  define h where "h = fst (sys k (GetHostByName (c_str (g_remote_host (gv s)))) s3)"
  define s4 where "s4 = snd (sys k (GetHostByName (c_str (g_remote_host (gv s)))) s3)"
  define r2 where "r2 = fst (sys k (Connect (r_ret r1) (r_addr h) (ucast (g_remote_port (gv s)))) s4)"
  define s5 where "s5 = snd (sys k (Connect (r_ret r1) (r_addr h) (ucast (g_remote_port (gv s)))) s4)"
  have run: "tcp_build k s =
     (if r_ret r1 = - 1 \<or> r_ret h = 0 \<or> r_ret r2 = - 1 then Inr (- 1, if r_ret r1 = - 1 then s3 else if r_ret h = 0 then s4 else s5)
      else res_bind (StoreConnectionInformation k TCP_PLUGIN 0 s5) (\<lambda>(i, s). Inr (if i = 0 then - 1 else 0, s\<lparr>clientID := i\<rparr>)))"
    using assms(1,2) g
    by (cases "StoreConnectionInformation k TCP_PLUGIN 0 s5")
      (auto simp: tcp_build_def tcp_buildClient_def global_consts Let_def split_beta s5_def s4_def s3_def s2_def r2_def h_def r1_def)
  then obtain i s6 where r: "r_ret r1 \<noteq> - 1" "r_ret h \<noteq> 0" "r_ret r2 \<noteq> - 1"
    and st: "StoreConnectionInformation k TCP_PLUGIN 0 s5 = Inr (i, s6)" and s': "i \<noteq> 0" "s' = s6\<lparr>clientID := i\<rparr>"
    using assms(4) unfolding run
    by (cases "StoreConnectionInformation k TCP_PLUGIN 0 s5") (auto split: if_splits)
  have ok: "tunnel_ok s5"
    using assms(3) g by (simp add: tunnel_ok_def s5_def s4_def s3_def s2_def)
  from Store_result [OF ok st] obtain n r3 r4 where S: "i = int n" "1 \<le> n" "n < 50"
    "connection_at TCP_PLUGIN i s6 = Inr \<lparr>connectiondata = 0, sendsocket = r_ret r3, recvsocket = r_ret r4, active = 1\<rparr>"
    "trace s6 = trace s5 @ [(Socket AF_INET SOCK_STREAM, r3), (Socket AF_INET SOCK_STREAM, r4)]" "gv s6 = gv s5"
    by metis
  have tr: "trace s5 = trace s1 @ [(Socket AF_INET SOCK_STREAM, r1), (GetHostByName (c_str (g_remote_host (gv s))), h),
      (Connect (r_ret r1) (r_addr h) (ucast (g_remote_port (gv s))), r2)]"
    by (simp add: s5_def s4_def s3_def s2_def r2_def h_def r1_def sys_trace)
  have k5: "socketRemote s5 = r_ret r1" "modeServer s5 = 0" "gv s5 = gv s"
    using g by (simp_all add: s5_def s4_def s3_def s2_def)
  have "connection_at TCP_PLUGIN i s' = connection_at TCP_PLUGIN i s6"
    by (simp add: s' connection_at_def)
  then have "tcp_fillFDSET {} s' = (if selectable (r_ret r4) then Inr (0, {r_ret r4}) else Inl OutOfBounds)"
    using assms(1) S(4,6) k5(3)
    by (simp add: s' tcp_fillFDSET_def GetSocketRecvQueue_def FD_SET_def selectable_def global_consts)
  then show ?thesis
    using S(1-3,5,6) tr r k5 Store_keeps [OF st] by (auto simp: s')
qed

text \<open>
  C31. A client build that returns 0 has resolved the configured host, connected its first
  socket to the address found and the low 16 bits of the port, and stored a connection whose
  two sockets are new, unconnected ones; the descriptor that the plugin then offers to the main
  loop for reading is one of those, not the connected socket.
\<close>

lemma tcp_build_client:
  assumes "g_mode (gv s) = CLIENT_MODE" "tun_open k s = Inr (0, s1)" "tunnel_ok s" "tcp_build k s = Inr (0, s')"
  shows "\<exists>r1 h r2 r3 r4. trace s' = trace s1 @ [(Socket AF_INET SOCK_STREAM, r1),
        (GetHostByName (c_str (g_remote_host (gv s))), h),
        (Connect (r_ret r1) (r_addr h) (ucast (g_remote_port (gv s))), r2),
        (Socket AF_INET SOCK_STREAM, r3), (Socket AF_INET SOCK_STREAM, r4)]
    \<and> r_ret r1 \<noteq> - 1 \<and> r_ret h \<noteq> 0 \<and> r_ret r2 \<noteq> - 1 \<and> gv s' = gv s \<and> socketRemote s' = r_ret r1 \<and> modeServer s' = 0
    \<and> 1 \<le> clientID s' \<and> clientID s' < 50
    \<and> tcp_fillFDSET {} s' = (if selectable (r_ret r4) then Inr (0, {r_ret r4}) else Inl OutOfBounds)"
  using assms by (rule tcp_build_client_result)

lemma filled_to_cong:
  "plugindata t = plugindata s \<Longrightarrow> filled_to m t \<longleftrightarrow> filled_to m s"
  by (simp add: filled_to_def tunnel_ok_def slot_used_def connection_at_def)

lemma tcp_buildClient_succeeds:
  assumes "filled_to 1 s" "\<And>c w. 0 < r_ret (fst (k c w))"
  shows "\<exists>s'. tcp_buildClient k h p s = Inr (0, s')"
proof -
  have pos: "r_ret (fst (sys k c t)) \<noteq> 0" "r_ret (fst (sys k c t)) \<noteq> - 1"
    for c and t :: "('a, 'b) tcp_state_scheme"
    using assms(2) [of c "world t"] by (auto simp: sys_reply)
  have "\<exists>t. tcp_buildClient k h p s
      = res_bind (StoreConnectionInformation k TCP_PLUGIN 0 t) (\<lambda>(i, s). Inr (if i = 0 then - 1 else 0, s\<lparr>clientID := i\<rparr>))
      \<and> plugindata t = plugindata s"
    by (auto simp: tcp_buildClient_def Let_def split_beta pos intro!: exI res_bind_cong)
  then obtain t where t: "tcp_buildClient k h p s
      = res_bind (StoreConnectionInformation k TCP_PLUGIN 0 t) (\<lambda>(i, s). Inr (if i = 0 then - 1 else 0, s\<lparr>clientID := i\<rparr>))"
      "plugindata t = plugindata s"
    by blast
  have "filled_to 1 t"
    using assms(1) filled_to_cong [OF t(2)] by simp
  then obtain s' where "StoreConnectionInformation k TCP_PLUGIN 0 t = Inr (1, s')"
    using filled_to_store [of 1 t k 0] by auto
  then show ?thesis
    using t(1) by simp
qed

lemma tcp_build_client_witness:
  "\<exists>(r1 :: reply) (r4 :: reply) (s' :: nat tcp_state). tcp_build counting_kernel (tcp_start_state (example_globals CLIENT_MODE) 0) = Inr (0, s')
    \<and> socketRemote s' = r_ret r1 \<and> clientID s' < 50
    \<and> tcp_fillFDSET {} s' = (if selectable (r_ret r4) then Inr (0, {r_ret r4}) else Inl OutOfBounds)"
proof -
  let ?s = "tcp_start_state (example_globals CLIENT_MODE) 0 :: nat tcp_state"
  have "\<exists>s1. tun_open counting_kernel ?s = Inr (0, s1)"
    by (simp add: tun_open_def tun_alloc_def counting_kernel_def reply_ok_def sys_def Let_def tcp_start_state_def
        strncpy_def)
  then obtain s1 where s1: "tun_open counting_kernel ?s = Inr (0, s1)" ..
  have m: "g_mode (gv ?s) = CLIENT_MODE" "tunnel_ok ?s"
    by (simp_all add: tcp_start_state_def example_globals_def tunnel_ok_def plugindata_zero_def)
  have "filled_to 1 s1" "g_mode (gv s1) = CLIENT_MODE"
    using tun_open_keeps [OF s1] m(1) filled_to_start [of "0 :: nat"] filled_to_cong [of s1 "tunnel_start (0 :: nat)" 1]
    by (simp_all add: tcp_start_state_def tunnel_start_def)
  then have "\<exists>s'. tcp_buildClient counting_kernel h p s1 = Inr (0, s')" for h p
    by (intro tcp_buildClient_succeeds) (simp_all add: counting_kernel_def reply_ok_def)
  then have "\<exists>s'. tcp_build counting_kernel ?s = Inr (0, s')"
    using s1 \<open>g_mode (gv s1) = CLIENT_MODE\<close> by (simp add: tcp_build_def global_consts)
  then obtain s' where s': "tcp_build counting_kernel ?s = Inr (0, s')" ..
  show ?thesis
    using tcp_build_client [OF m(1) s1 m(2) s'] s' by blast
qed

text \<open>A peer that has closed the connection: its socket is always ready, and nothing comes from it.\<close>

definition peer_closed :: "'w kernel \<Rightarrow> int \<Rightarrow> bool" where
  "peer_closed k sock \<longleftrightarrow>
     (\<forall>m S w. 0 \<le> r_ret (fst (k (Select m S) w)) \<and> sock \<in> r_ready (fst (k (Select m S) w))) \<and>
     (\<forall>n w. r_ret (fst (k (Recv sock n) w)) = 0)"

lemma closed_peer_pass:
  assumes "peer_closed k sock" "client_fds s = (pin, pout, sock)" "plugin_fits (pin, pout, sock)"
  shows "\<exists>S0 S'. client_pass k m (S, s) = Inr (S', snd (sys k (Recv sock (BLOCK_SIZE - 1)) (snd (sys k (Select m S0) s))))"
  using assms
  by (auto simp: client_pass_def FD_SET_def plugin_fits_def selectable_def client_fds_def do_select_def
      peer_closed_def Let_def split_beta sys_reply)

text \<open>
  C35. A peer that closed the connection starves the other direction: when select reports the
  socket ready and recv returns 0, every pass is spent on it, for ever; nothing is read from
  the pipe and nothing is sent, however much is waiting there.
\<close>

lemma closed_peer_starves_pipe:
  assumes "peer_closed k sock" "client_fds s = (pin, pout, sock)" "plugin_fits (pin, pout, sock)"
  shows "\<exists>S' s' new. tcp_startClient k S n s = Inr (S', s') \<and> trace s' = trace s @ new \<and>
    length new = 2 * n \<and> received pin new = [] \<and> submitted sock new = []"
proof -
  have "\<exists>S' s' new. passes n (client_pass k m) (S, s) = Inr (S', s') \<and> trace s' = trace s @ new \<and>
    length new = 2 * n \<and> received pin new = [] \<and> submitted sock new = []" for m
    using assms(2)
  proof (induction n arbitrary: S s)
    case (Suc n)
    obtain S0 S1 where p: "client_pass k m (S, s) = Inr (S1, snd (sys k (Recv sock (BLOCK_SIZE - 1)) (snd (sys k (Select m S0) s))))"
      using closed_peer_pass [OF assms(1) Suc.prems assms(3)] by blast
    let ?t = "snd (sys k (Recv sock (BLOCK_SIZE - 1)) (snd (sys k (Select m S0) s)))"
    have "client_fds ?t = (pin, pout, sock)"
      using Suc.prems by (simp add: client_fds_def)
    then obtain S' s' new where "passes n (client_pass k m) (S1, ?t) = Inr (S', s')" "trace s' = trace ?t @ new"
      "length new = 2 * n" "received pin new = []" "submitted sock new = []"
      using Suc.IH by blast
    then show ?case
      using p assms(3) by (auto simp: sys_trace plugin_fits_def)
  qed simp
  then show ?thesis
    by (simp add: tcp_startClient_def Let_def)
qed

definition closed_kernel :: "unit kernel" where
  "closed_kernel c w = (case c of Select m S \<Rightarrow> reply_ready {7} | _ \<Rightarrow> reply_ok 0, w)"

lemma closed_peer_starves_pipe_witness:
  "\<exists>S' s' new. tcp_startClient closed_kernel {} 1000 (client_example ()) = Inr (S', s') \<and> trace s' = new \<and>
    length new = 2000 \<and> received 5 new = []"
proof -
  have "peer_closed closed_kernel 7"
    by (simp add: peer_closed_def closed_kernel_def reply_ready_def reply_ok_def)
  moreover have "client_fds (client_example ()) = (5, 4, 7)" "plugin_fits (5, 4, 7)" "trace (client_example ()) = []"
    by (simp_all add: client_fds_def client_example_def example_globals_def tcp_start_state_def plugin_fits_def
        selectable_def FD_SETSIZE_def)
  ultimately show ?thesis
    using closed_peer_starves_pipe [of closed_kernel 7 "client_example ()" 5 4 "{}" 1000] by auto
qed

end
