(* ===== verification/Sip_Plugin.thy ===== *)
theory Sip_Plugin
  imports Tcp_Plugin
begin

section \<open>The SIP plugin: sip\_plugin.c\<close>

text \<open>
  The plugin hides frames in SIP OPTIONS requests: \<open>sip_envia_datos\<close> sends one with the
  Base64 text of a block in a header named Multivpn, \<open>on_rx_request\<close> decodes the header of
  a received one and writes the bytes to the pipe. PJSIP is not part of the repository: its
  calls are kernel calls, which return a status that is 0 for success, and what it hands to the
  callbacks is their argument. \<open>PJ_ASSERT_RETURN\<close> is its definition for release builds,
  where it returns.

  Three things of the C code are parameters: the size of \<open>size_t\<close> on the platform, since
  \<open>sip_envia_datos\<close> lets \<open>base64_encode\<close> store one through a pointer to an \<open>int\<close>
  of four bytes; the indeterminate first value of the local \<open>lenDecoded\<close>, which is used
  when decoding refuses the text; and, as in the TCP plugin, the first content of the
  descriptor set of the loop. Blocks that the code never frees are not tracked. A \<open>%.3s\<close>
  in a message reads up to three bytes of the block, and prints NULL as the C library of Linux
  does.
\<close>

definition PJ_SUCCESS :: int where "PJ_SUCCESS = 0"

definition sizeof_int :: nat where "sizeof_int = 4"

record 'w sip_state = "'w tcp_state" +
  g_complete :: bool

text \<open>What the callbacks look at in a received message: the method and the header's value.\<close>

record sip_request =
  is_options :: bool
  multivpn :: "byte list option"

subsection \<open>Sending\<close>

definition sip_envia_datos ::
    "'w kernel \<Rightarrow> nat \<Rightarrow> byte list \<Rightarrow> ('w, 'z) sip_state_scheme \<Rightarrow> (int \<times> ('w, 'z) sip_state_scheme) res" where
  "sip_envia_datos k sizeof_size_t datos s =
     (if sizeof_int < sizeof_size_t then Inl OutOfBounds
      else res_bind (base64_encode k datos s) (\<lambda>((payload, longitudEncodeado), s).
        let (status, s) = sys k (CreateOptionsRequest (c_str (g_sip_remoteuri (gv s))) (c_str (g_sip_fromuri (gv s)))) s
        in if r_ret status \<noteq> PJ_SUCCESS then Inr (1, s)
        else
          let (status, s) = sys k (Pjsip ''pjsip_tsx_create_uac'') s
          in if r_ret status \<noteq> PJ_SUCCESS then Inr (1, s)
          else (case payload of
              None \<Rightarrow> Inl NullDeref
            | Some payload \<Rightarrow>
                let (_, s) = sys k (AddHeader ''Multivpn'' (take longitudEncodeado payload)) s;
                    (status, s) = sys k SendTransaction s
                in if r_ret status \<noteq> PJ_SUCCESS then Inr (1, s) else Inr (0, s))))"

subsection \<open>Receiving\<close>

text \<open>
  \<open>strncpy\<close> of the header's value into the 2048 zeroed bytes of \<open>payload\<close>, and the C
  string that \<open>strlen\<close> then finds there.
\<close>

definition payload_size :: nat where "payload_size = 2048"

definition header_text :: "byte list \<Rightarrow> byte list res" where
  "header_text v =
     (let text = takeWhile (\<lambda>c. c \<noteq> 0) v
      in if payload_size < length v then Inl OutOfBounds
         else if length text = payload_size then Inl OutOfBounds
         else Inr text)"

text \<open>The message about the decoded payload reads up to three bytes, or up to a NUL.\<close>

definition prints_beyond :: "t_global_v \<Rightarrow> byte list \<Rightarrow> bool" where
  "prints_beyond g out \<longleftrightarrow> g_debug g > 1 \<and> length out < 3 \<and> 0 \<notin> set out"

definition respond :: "'w kernel \<Rightarrow> nat \<Rightarrow> string \<Rightarrow> ('w, 'z) sip_state_scheme \<Rightarrow> bool \<times> ('w, 'z) sip_state_scheme" where
  "respond k code reason s = (let (_, s) = sys k (RespondStateless code reason) s in (True, s))"

definition on_rx_request ::
    "'w kernel \<Rightarrow> int \<Rightarrow> sip_request \<Rightarrow> ('w, 'z) sip_state_scheme \<Rightarrow> (bool \<times> ('w, 'z) sip_state_scheme) res" where
  "on_rx_request k lenDecoded0 rdata s =
     (if \<not> is_options rdata then Inr (respond k 500 ''Go home'' s)
      else case multivpn rdata of
        None \<Rightarrow> Inr (respond k 500 ''Go home and sleep'' s)
      | Some value \<Rightarrow>
          res_bind (header_text value) (\<lambda>payload.
          res_bind (base64_decode k payload s) (\<lambda>(decoded, s).
          res_bind
            (case decoded of
               RefusedLength \<Rightarrow> Inr (snd (sys k (WriteNull (snd (g_pipe_from_plugin (gv s))) lenDecoded0) s))
             | NoMemory n \<Rightarrow> Inr (snd (sys k (WriteNull (snd (g_pipe_from_plugin (gv s))) (int n)) s))
             | Decoded out n \<Rightarrow>
                 if prints_beyond (gv s) out then Inl OutOfBounds
                 else Inr (snd (sys k (Write (snd (g_pipe_from_plugin (gv s))) out) s)))
            (\<lambda>s. Inr (respond k 666 ''Traffic Accepted'' s)))))"

text \<open>Forked dialogs and the errors that the application reports: nothing is done.\<close>

definition call_on_forked :: "('w, 'z) sip_state_scheme \<Rightarrow> ('w, 'z) sip_state_scheme" where
  "call_on_forked s = s"

definition app_perror :: "('w, 'z) sip_state_scheme \<Rightarrow> ('w, 'z) sip_state_scheme" where
  "app_perror s = s"

definition call_on_state_changed :: "bool \<Rightarrow> ('w, 'z) sip_state_scheme \<Rightarrow> ('w, 'z) sip_state_scheme" where
  "call_on_state_changed disconnected s = (if disconnected then s\<lparr>g_complete := True\<rparr> else s)"

subsection \<open>The modules\<close>

text \<open>
  The two modules that are registered with PJSIP: their names as pointer and length, their
  priorities, and their callbacks for requests and responses received and sent. The callbacks of
  the logger print messages, which are left out, and return a constant.
\<close>

datatype rx_callback = On_rx_request | Logging_on_rx_msg
datatype tx_callback = Logging_on_tx_msg
datatype mod_priority = Before_transport_layer | Application

record pjsip_module =
  mod_name :: "string \<times> nat"
  mod_id :: int
  mod_priority :: mod_priority
  rx_request :: "rx_callback option"
  rx_response :: "rx_callback option"
  tx_request :: "tx_callback option"
  tx_response :: "tx_callback option"

definition mod_simpleua :: pjsip_module where
  "mod_simpleua =
     \<lparr>mod_name = (''mod-simpleua'', 12), mod_id = - 1, mod_priority = Application,
      rx_request = Some On_rx_request, rx_response = None, tx_request = None, tx_response = None\<rparr>"

definition msg_logger :: pjsip_module where
  "msg_logger =
     \<lparr>mod_name = (''mod-msg-log'', 13), mod_id = - 1, mod_priority = Before_transport_layer,
      rx_request = Some Logging_on_rx_msg, rx_response = Some Logging_on_rx_msg,
      tx_request = Some Logging_on_tx_msg, tx_response = Some Logging_on_tx_msg\<rparr>"

definition logging_on_rx_msg :: bool where "logging_on_rx_msg = False"

definition logging_on_tx_msg :: int where "logging_on_tx_msg = PJ_SUCCESS"

fun call_rx ::
    "'w kernel \<Rightarrow> int \<Rightarrow> rx_callback option \<Rightarrow> sip_request \<Rightarrow> ('w, 'z) sip_state_scheme \<Rightarrow> (bool \<times> ('w, 'z) sip_state_scheme) res" where
  "call_rx k j None r s = Inr (False, s)"
| "call_rx k j (Some On_rx_request) r s = on_rx_request k j r s"
| "call_rx k j (Some Logging_on_rx_msg) r s = Inr (logging_on_rx_msg, s)"

text \<open>A request is offered to the modules one after the other until a callback returns true.\<close>

fun offer_request ::
    "'w kernel \<Rightarrow> int \<Rightarrow> pjsip_module list \<Rightarrow> sip_request \<Rightarrow> ('w, 'z) sip_state_scheme \<Rightarrow> (bool \<times> ('w, 'z) sip_state_scheme) res" where
  "offer_request k j [] r s = Inr (False, s)"
| "offer_request k j (m # ms) r s =
     res_bind (call_rx k j (rx_request m) r s) (\<lambda>(handled, s).
       if handled then Inr (True, s) else offer_request k j ms r s)"

lemma on_rx_request_True: "res_all fst (on_rx_request k j r s)"
  unfolding on_rx_request_def
  by (auto simp: respond_def Let_def split_beta intro!: res_all_If res_all_option res_all_bind)

text \<open>The logger keeps nothing back, whichever of the two modules comes first.\<close>

lemma logger_transparent:
  assumes "ms = [msg_logger, mod_simpleua] \<or> ms = [mod_simpleua, msg_logger]"
  shows "offer_request k j ms r s = on_rx_request k j r s"
proof -
  have "res_bind (on_rx_request k j r s) (\<lambda>(b, s). if b then Inr (True, s) else f s) = on_rx_request k j r s" for f
    using on_rx_request_True [of k j r s] by (cases "on_rx_request k j r s") auto
  then show ?thesis
    using assms by (auto simp: msg_logger_def mod_simpleua_def logging_on_rx_msg_def)
qed

text \<open>
  The length given with a name counts the characters to read; the literal ends one character
  after its last, so that one more can be read, and no further.
\<close>

definition pj_str_text :: "string \<times> nat \<Rightarrow> string res" where
  "pj_str_text ps = (let (lit, slen) = ps in
     if slen \<le> Suc (length lit) then Inr (take slen (lit @ [NUL])) else Inl OutOfBounds)"

lemma module_names:
  "pj_str_text (mod_name mod_simpleua) = Inr ''mod-simpleua''"
  "pj_str_text (mod_name msg_logger) = Inl OutOfBounds"
  by (simp_all add: pj_str_text_def mod_simpleua_def msg_logger_def)

subsection \<open>The two loops\<close>

text \<open>
  An event that PJSIP dispatches. The loop runs while \<open>g_complete\<close> is not set; the result
  says whether it returned (\<open>True\<close>) or waits for the next event after those given.
\<close>

datatype sip_event = Rx_Request sip_request | Invite_State bool | No_Event

definition handle_event ::
    "'w kernel \<Rightarrow> int \<Rightarrow> sip_event \<Rightarrow> ('w, 'z) sip_state_scheme \<Rightarrow> ('w, 'z) sip_state_scheme res" where
  "handle_event k lenDecoded0 ev s =
     (case ev of
        Rx_Request r \<Rightarrow> res_bind (offer_request k lenDecoded0 [msg_logger, mod_simpleua] r s) (\<lambda>(_, s). Inr s)
      | Invite_State d \<Rightarrow> Inr (call_on_state_changed d s)
      | No_Event \<Rightarrow> Inr s)"

lemma handle_event_simps:
  "handle_event k j (Rx_Request r) s = res_bind (on_rx_request k j r s) (\<lambda>(_, s). Inr s)"
  "handle_event k j (Invite_State d) s = Inr (call_on_state_changed d s)"
  "handle_event k j No_Event s = Inr s"
  by (simp_all only: handle_event_def sip_event.case logger_transparent simp_thms)

fun sip_loop_sip_events ::
    "'w kernel \<Rightarrow> int \<Rightarrow> sip_event list \<Rightarrow> ('w, 'z) sip_state_scheme \<Rightarrow> (bool \<times> ('w, 'z) sip_state_scheme) res" where
  "sip_loop_sip_events k j evs s =
     (if g_complete s then Inr (True, s)
      else case evs of
        [] \<Rightarrow> Inr (False, s)
      | ev # evs \<Rightarrow> res_bind (handle_event k j ev s) (sip_loop_sip_events k j evs))"

definition sip_tun_pass ::
    "'w kernel \<Rightarrow> nat \<Rightarrow> int \<Rightarrow> int set \<times> ('w, 'z) sip_state_scheme \<Rightarrow> (int set \<times> ('w, 'z) sip_state_scheme) res" where
  "sip_tun_pass k sizeof_size_t maxfd Ss =
     (let (setReading, s) = Ss in
      res_bind (FD_SET (fst (g_pipe_to_plugin (gv s))) setReading) (\<lambda>setReading.
        let (setReading, s) = do_select k maxfd setReading s
        in if fst (g_pipe_to_plugin (gv s)) \<in> setReading then
          let (r, s) = sys k (Read (fst (g_pipe_to_plugin (gv s))) (BLOCK_SIZE - 1)) s
          in if r_ret r \<le> 0 then Inr (setReading, s)
          else res_bind (sip_envia_datos k sizeof_size_t (got r) s) (\<lambda>(_, s). Inr (setReading, s))
        else Inr (setReading, s)))"

definition sip_loop_tun_events ::
    "'w kernel \<Rightarrow> nat \<Rightarrow> int set \<Rightarrow> nat \<Rightarrow> ('w, 'z) sip_state_scheme \<Rightarrow> (int set \<times> ('w, 'z) sip_state_scheme) res" where
  "sip_loop_tun_events k sizeof_size_t S n s =
     (let maxfd = fst (g_pipe_to_plugin (gv s)) + 1
      in passes n (sip_tun_pass k sizeof_size_t maxfd) (S, s))"

subsection \<open>Start and build\<close>

text \<open>
  The boot sequence of PJSIP: each call with what the function returns for its failing status,
  or \<open>None\<close> where its result is not looked at.
\<close>

definition pj_boot :: "(string \<times> (int \<Rightarrow> int) option) list" where
  "pj_boot =
     [(''pj_init'', Some (\<lambda>_. 1)), (''pj_log_set_level'', None), (''pjlib_util_init'', Some (\<lambda>_. 1)),
      (''pj_caching_pool_init'', None), (''pj_gethostname'', None), (''pjsip_endpt_create'', Some (\<lambda>_. 1)),
      (''pj_sockaddr_init'', None), (''pjsip_tsx_layer_init_module'', Some (\<lambda>_. 1)),
      (''pjsip_ua_init_module'', Some (\<lambda>_. 1)), (''pjsip_inv_usage_init'', Some (\<lambda>_. 1)),
      (''pjsip_100rel_init_module'', Some (\<lambda>status. status)),
      (''register mod-simpleua'', Some (\<lambda>_. 1)), (''register mod-msg-log'', Some (\<lambda>_. 1))]"

fun pj_run ::
    "'w kernel \<Rightarrow> (string \<times> (int \<Rightarrow> int) option) list \<Rightarrow> ('w, 'z) sip_state_scheme \<Rightarrow> int option \<times> ('w, 'z) sip_state_scheme" where
  "pj_run k [] s = (None, s)"
| "pj_run k ((f, failed) # fs) s =
     (let (status, s) = sys k (Pjsip f) s
      in case failed of
           None \<Rightarrow> pj_run k fs s
         | Some ret \<Rightarrow> if r_ret status = PJ_SUCCESS then pj_run k fs s else (Some (ret (r_ret status)), s))"

text \<open>\<open>None\<close>: the thread is in \<open>sip_loop_tun_events\<close> after \<open>n\<close> passes.\<close>

definition sip_start ::
    "'w kernel \<Rightarrow> nat \<Rightarrow> int set \<Rightarrow> nat \<Rightarrow> ('w, 'z) sip_state_scheme \<Rightarrow> (int option \<times> ('w, 'z) sip_state_scheme) res" where
  "sip_start k sizeof_size_t S n s =
     (case pj_run k pj_boot s of
        (Some rc, s) \<Rightarrow> Inr (Some rc, s)
      | (None, s) \<Rightarrow>
          let (_, s) = sys k (PthreadCreate ''sip_loop_sip_events'') s
          in res_bind (sip_loop_tun_events k sizeof_size_t S n s) (\<lambda>(_, s). Inr (None, s)))"

text \<open>
  The tests of \<open>sip_transport\<close> and \<open>sip_remoteuri\<close> are tests of the addresses of the
  arrays, whatever they hold: an array of the structure is not at address 0.
\<close>

definition array_at_null :: "char list \<Rightarrow> bool" where
  "array_at_null b \<longleftrightarrow> False"

definition sip_checkParameters :: "t_global_v \<Rightarrow> int" where
  "sip_checkParameters g =
     (if g_sip_port g = 0 then - 1
      else if array_at_null (g_sip_transport g) then - 1
      else if array_at_null (g_sip_remoteuri g) then - 1
      else if g_sip_port g = 0 then - 1
      else 0)"

definition sip_build :: "'w kernel \<Rightarrow> ('w, 'z) sip_state_scheme \<Rightarrow> (int \<times> ('w, 'z) sip_state_scheme) res" where
  "sip_build k s =
     res_bind (tun_open k s) (\<lambda>(rc, s).
       if rc \<noteq> 0 then Inr (- 1, s)
       else res_bind (tun_UP k s) (\<lambda>(rc, s).
         if rc \<noteq> 0 then Inr (- 1, s)
         else
           res_bind (tun_setIP k (c_str (g_local_ip (gv s))) s) (\<lambda>(_, s).
           res_bind (tun_setNETMASK k (c_str (g_local_netmask (gv s))) s) (\<lambda>(_, s).
             Inr (0, s)))))"

definition sip_getTunTap :: "('w, 'z) sip_state_scheme \<Rightarrow> int" where
  "sip_getTunTap s = 0"

end
