(* ===== verification/Sip_Transfer.thy ===== *)
theory Sip_Transfer
  imports Sip_Plugin Tcp_Facts Base64_Codec
begin

section \<open>Transfers over SIP\<close>

text \<open>
  What the operations of the SIP plugin do: the calls and the state after sending a block and
  after receiving a request, what hostile requests do, the sending loop over any number of
  passes, the transfer from one host to the other, and when the event loop returns.
\<close>

subsection \<open>The requests that are sent\<close>

text \<open>PJSIP builds and sends requests without error.\<close>

definition pjsip_works :: "'w kernel \<Rightarrow> bool" where
  "pjsip_works k \<longleftrightarrow>
     (\<forall>w t f n. r_ret (fst (k (CreateOptionsRequest t f) w)) = PJ_SUCCESS \<and>
       r_ret (fst (k (Pjsip n) w)) = PJ_SUCCESS \<and> r_ret (fst (k SendTransaction w)) = PJ_SUCCESS)"

lemma pjsip_worksD:
  "pjsip_works k \<Longrightarrow> r_ret (fst (sys k (CreateOptionsRequest t f) s)) = PJ_SUCCESS"
  "pjsip_works k \<Longrightarrow> r_ret (fst (sys k (Pjsip n) s)) = PJ_SUCCESS"
  "pjsip_works k \<Longrightarrow> r_ret (fst (sys k SendTransaction s)) = PJ_SUCCESS"
  by (simp_all add: pjsip_works_def sys_reply)

definition request_calls :: "t_global_v \<Rightarrow> byte list \<Rightarrow> xcall list" where
  "request_calls g datos =
     [Malloc (length (b64 datos)), CreateOptionsRequest (c_str (g_sip_remoteuri g)) (c_str (g_sip_fromuri g)),
      Pjsip ''pjsip_tsx_create_uac'', AddHeader ''Multivpn'' (b64 datos), SendTransaction]"

lemma block_encodes: "length datos < BLOCK_SIZE \<Longrightarrow> length (b64 datos) \<le> 2008"
  using length_b64_mono [of datos 1504] by (simp add: global_consts)

lemma sip_envia_datos_result:
  assumes "sizeof_size_t \<le> sizeof_int" "length datos < BLOCK_SIZE" "memory_left k" "pjsip_works k"
  shows "\<exists>s' t. sip_envia_datos k sizeof_size_t datos s = Inr (0, s') \<and> same_vars s s' \<and>
    trace s' = trace s @ t \<and> map fst t = request_calls (gv s) datos"
proof -
  have e: "base64_encode k datos s = Inr ((Some (b64 datos), length (b64 datos)), snd (sys k (Malloc (length (b64 datos))) s))"
    using base64_encode_result [of datos k s] block_encodes [OF assms(2)] memory_leftD [OF assms(3), of "length (b64 datos)" s]
    by (simp add: INT_MAX_def Let_def)
  show ?thesis
    using assms(1)
    by (simp add: sip_envia_datos_def e Let_def split_beta pjsip_worksD [OF assms(4)] same_vars_iff sys_trace
        request_calls_def)
qed

subsection \<open>The requests that are received\<close>

definition tunnel_request :: "byte list \<Rightarrow> sip_request" where
  "tunnel_request frame = \<lparr>is_options = True, multivpn = Some (b64 frame)\<rparr>"

lemma b64_alphabet: "set (b64 xs) \<subseteq> insert eq_sign (set encoding_table)"
proof (induction xs rule: b64.induct)
  case (4 a b c xs)
  then show ?case by (simp add: symbol_facts(3) bounds)
qed (simp_all add: symbol_facts(3) bounds)

lemma b64_no_NUL: "0 \<notin> set (b64 xs)"
proof -
  have "(0 :: byte) \<notin> insert eq_sign (set encoding_table)"
    by code_simp
  then show ?thesis
    using b64_alphabet by blast
qed

lemma header_text_b64:
  assumes "length frame < BLOCK_SIZE"
  shows "header_text (b64 frame) = Inr (b64 frame)"
proof -
  have tw: "takeWhile (\<lambda>c. c \<noteq> 0) (b64 frame) = b64 frame"
    using b64_no_NUL [of frame] by (auto simp: takeWhile_eq_all_conv)
  show ?thesis
    unfolding header_text_def Let_def tw using block_encodes [OF assms] by (simp add: payload_size_def)
qed

text \<open>The state of the decoder is fine when its table is absent or right.\<close>

definition decoder_ok :: "('w, 'z) base64_state_scheme \<Rightarrow> bool" where
  "decoder_ok s \<longleftrightarrow> decoding_table s = Null \<or> table_ok (decoding_table s)"

fun is_malloc :: "xcall \<Rightarrow> bool" where
  "is_malloc (Malloc n) \<longleftrightarrow> True"
| "is_malloc _ \<longleftrightarrow> False"

lemma decode_b64:
  assumes "decoder_ok s" "memory_left k" "frame \<noteq> []" "length frame < BLOCK_SIZE"
  shows "\<exists>s'. base64_decode k (b64 frame) s = Inr (Decoded frame (length frame), s') \<and>
    table_ok (decoding_table s') \<and> gv s' = gv s \<and>
    (\<exists>t. trace s' = trace s @ t \<and> (\<forall>c \<in> set (map fst t). is_malloc c))"
proof -
  have len: "length (b64 frame) \<le> INT_MAX"
    using block_encodes [OF assms(4)] by (simp add: INT_MAX_def)
  have d: "base64_decode k (b64 frame) t = Inr (Decoded frame (length frame), snd (sys k (Malloc (length frame)) t))"
    if t: "table_ok (decoding_table t)" for t
  proof -
    obtain z where "unb64 (decoding_table t) (b64 frame) = Inr (frame @ z)"
      using unb64_b64 [OF t] by blast
    then show ?thesis
      using base64_decode_ready [OF t, of "b64 frame" k] assms(3) len
      by (simp add: b64_Nil_iff length_b64 decoded_length_b64 Let_def memory_leftD [OF assms(2)])
  qed
  show ?thesis
  proof (cases "decoding_table s = Null")
    case False
    then have t: "table_ok (decoding_table s)"
      using assms(1) by (simp add: decoder_ok_def)
    then show ?thesis
      by (simp add: d [OF t] sys_trace)
  next
    case True
    let ?s = "(snd (sys k (Malloc 256) s))\<lparr>decoding_table := Block (projr (build_loop 0 (malloc_block (fst (sys k (Malloc 256) s)) 256)))\<rparr>"
    have b: "build_decoding_table k s = Inr ?s" and t: "table_ok (decoding_table ?s)"
      by (simp_all add: build_table_cases(1) build_table_cases(2) Let_def memory_leftD [OF assms(2)])
    then have "base64_decode k (b64 frame) s = base64_decode k (b64 frame) ?s"
      using True by (simp add: base64_decode_def)
    then show ?thesis
      using d [OF t] t by (simp add: sys_trace)
  qed
qed

subsection \<open>Properties\<close>

text \<open>
  C26. Sending a block of a frame: on a platform whose size_t is not wider than an int, with
  memory and PJSIP at work, exactly one OPTIONS request goes out, from and to the configured
  URIs, whose Multivpn header is the Base64 text of the block, and no variable of the program
  changes; where size_t is wider, the length is stored over the end of an int.
\<close>

lemma sip_send_request:
  assumes "length datos < BLOCK_SIZE" "memory_left k" "pjsip_works k"
  shows "if sizeof_int < sizeof_size_t then sip_envia_datos k sizeof_size_t datos s = Inl OutOfBounds
    else \<exists>s' t. sip_envia_datos k sizeof_size_t datos s = Inr (0, s') \<and> same_vars s s' \<and>
      trace s' = trace s @ t \<and>
      map fst t = [Malloc (length (b64 datos)),
        CreateOptionsRequest (c_str (g_sip_remoteuri (gv s))) (c_str (g_sip_fromuri (gv s))),
        Pjsip ''pjsip_tsx_create_uac'', AddHeader ''Multivpn'' (b64 datos), SendTransaction]"
  using sip_envia_datos_result [OF _ assms, of sizeof_size_t s]
  by (simp add: sip_envia_datos_def request_calls_def)

definition sip_example :: "'w \<Rightarrow> 'w sip_state" where
  "sip_example w = tcp_state.extend (tcp_start_state (example_globals CLIENT_MODE) w) (sip_state.fields False)"

lemma sip_send_request_witness:
  "\<exists>s' t. sip_envia_datos (junk_kernel 170) 4 [1, 2, 3] (sip_example ()) = Inr (0, s') \<and>
     trace s' = trace (sip_example ()) @ t \<and> length t = 5"
proof -
  have "pjsip_works (junk_kernel 170)"
    by (simp add: pjsip_works_def junk_kernel_def reply_ok_def PJ_SUCCESS_def)
  then show ?thesis
    using sip_send_request [OF _ junk_kernel_memory, of "[1, 2, 3]" 170 4 "sip_example ()"]
    by (force simp: sizeof_int_def global_consts dest: arg_cong [of "map fst _" _ length])
qed

lemma sys_sip [frame, simp]: "g_complete (snd (sys k c s)) = g_complete s"
  by (simp add: sys_def Let_def split_beta)

lemma decode_keeps:
  fixes s :: "('w, 'z) sip_state_scheme"
  assumes "base64_decode k cs s = Inr (d, s')"
  shows "g_complete s' = g_complete s"
proof -
  have "g_complete (t :: ('w, 'z) sip_state_scheme) = g_complete s" if "build_decoding_table k s = Inr t" for t
    using that by (auto simp: build_decoding_table_def Let_def split_beta split: if_splits)
  then show ?thesis
    using assms by (auto simp: base64_decode_def Let_def split_beta split: if_splits)
qed

lemma decode_keeps_gv:
  assumes "base64_decode k cs s = Inr (d, s')"
  shows "gv s' = gv s"
proof -
  have "gv t = gv s" if "build_decoding_table k s = Inr t" for t
    using that by (auto simp: build_decoding_table_def Let_def split_beta split: if_splits)
  then show ?thesis
    using assms by (auto simp: base64_decode_def Let_def split_beta split: if_splits)
qed

lemma decode_fails_iff:
  assumes "table_ok (decoding_table s)" "length cs \<le> INT_MAX" "memory_left k"
  shows "base64_decode k cs s = Inl e \<longleftrightarrow> e = OutOfBounds \<and> (cs = [] \<or> length cs mod 4 = 0 \<and> (\<exists>c \<in> set cs. 128 \<le> unat c))"
proof -
  have n: "decoding_table s \<noteq> Null"
    using assms(1) by (auto simp: table_ok_def)
  consider "length cs mod 4 \<noteq> 0" | "cs = []" | "cs \<noteq> []" "length cs mod 4 = 0"
    by blast
  then show ?thesis
  proof cases
    case 3
    show ?thesis
    proof (cases "\<forall>c \<in> set cs. unat c < 128")
      case True
      then show ?thesis
        using 3 base64_decode_ready [OF assms(1) 3 assms(2), of k] unb64_ascii [OF assms(1) True]
        by (auto simp: Let_def not_le memory_leftD [OF assms(3)])
    next
      case False
      then show ?thesis
        using 3 base64_decode_ready [OF assms(1) 3 assms(2), of k] unb64_high [OF assms(1) 3(2) False]
        by (auto simp: Let_def not_less memory_leftD [OF assms(3)])
    qed
  qed (auto simp: base64_decode_def n)
qed

text \<open>Accepting a frame, with the state that results.\<close>

lemma accept_frame_state:
  assumes "decoder_ok s" "memory_left k" "frame \<noteq> []" "\<not> prints_beyond (gv s) frame" "length frame < BLOCK_SIZE"
  shows "\<exists>s' t s1. on_rx_request k j (tunnel_request frame) s = Inr (True, s') \<and> trace s' = trace s @ t \<and>
    filter (\<lambda>c. \<not> is_malloc c) (map fst t) =
      [Write (snd (g_pipe_from_plugin (gv s))) frame, RespondStateless 666 ''Traffic Accepted''] \<and>
    decoder_ok s' \<and> gv s' = gv s \<and> g_complete s' = g_complete s \<and>
    base64_decode k (b64 frame) s = Inr (Decoded frame (length frame), s1) \<and>
    s' = snd (sys k (RespondStateless 666 ''Traffic Accepted'') (snd (sys k (Write (snd (g_pipe_from_plugin (gv s))) frame) s1)))"
proof -
  obtain s1 t1 where s1: "base64_decode k (b64 frame) s = Inr (Decoded frame (length frame), s1)"
    "table_ok (decoding_table s1)" "gv s1 = gv s" "trace s1 = trace s @ t1" "\<forall>c \<in> set (map fst t1). is_malloc c"
    using decode_b64 [OF assms(1,2,3,5)] by blast
  have g: "g_complete s1 = g_complete s"
    using s1(1) by (rule decode_keeps)
  have f: "filter (\<lambda>c. \<not> is_malloc c) (map fst t1) = []"
    using s1(5) by (auto simp: filter_empty_conv)
  show ?thesis
    using s1(2-4) f g assms(4)
    by (simp add: on_rx_request_def tunnel_request_def header_text_b64 [OF assms(5)] s1(1)
        respond_def Let_def split_beta sys_trace decoder_ok_def)
qed

lemma sip_example_ok: "decoder_ok (sip_example w)" "\<not> g_complete (sip_example w)" "trace (sip_example w) = []"
  "g_pipe_from_plugin (gv (sip_example w)) = (3, 4)" "g_pipe_to_plugin (gv (sip_example w)) = (5, 6)"
  by (simp_all add: sip_example_def decoder_ok_def tcp_start_state_def tcp_state.extend_def sip_state.fields_def
      example_globals_def)

lemma submitted_mallocs: "submitted fd t = concat (map (sent_to fd) (filter (\<lambda>c. \<not> is_malloc c) (map fst t)))"
proof (induction t)
  case (Cons x t)
  then show ?case by (cases x; cases "fst x") simp_all
qed simp

text \<open>
  C37. Receiving what the peer's plugin sends, for a block of 1 to 1504 bytes: at a level of messages
  above 1, which is the default, a block of one or two bytes without a NUL is read beyond its
  end; in every other case the request is accepted with the reply 666, the block's bytes are
  written to the pipe to the main loop, exactly and once, and the decoder stays usable.
\<close>

lemma receive_block_iff:
  assumes "decoder_ok s" "memory_left k" "frame \<noteq> []" "length frame < BLOCK_SIZE"
  shows "if 1 < g_debug (gv s) \<and> length frame < 3 \<and> 0 \<notin> set frame
    then on_rx_request k j (tunnel_request frame) s = Inl OutOfBounds
    else \<exists>s' t. on_rx_request k j (tunnel_request frame) s = Inr (True, s') \<and> trace s' = trace s @ t \<and>
      filter (\<lambda>c. \<not> is_malloc c) (map fst t) =
        [Write (snd (g_pipe_from_plugin (gv s))) frame, RespondStateless 666 ''Traffic Accepted''] \<and>
      decoder_ok s' \<and> gv s' = gv s \<and> g_complete s' = g_complete s"
proof (cases "prints_beyond (gv s) frame")
  case True
  obtain s1 where "base64_decode k (b64 frame) s = Inr (Decoded frame (length frame), s1)" "gv s1 = gv s"
    using decode_b64 [OF assms] by blast
  then show ?thesis
    using True by (simp add: on_rx_request_def tunnel_request_def header_text_b64 [OF assms(4)]) (simp add: prints_beyond_def)
next
  case False
  then show ?thesis
    using accept_frame_state [OF assms(1-3) False assms(4), of j] by (auto simp: prints_beyond_def)
qed

lemma receive_block_iff_witness:
  "on_rx_request (junk_kernel 170) 0 (tunnel_request [1, 2]) (sip_example ()) = Inl OutOfBounds"
proof -
  have f: "[1, 2 :: byte] \<noteq> []" "length [1, 2 :: byte] < BLOCK_SIZE"
    by (simp_all add: global_consts)
  have "1 < g_debug (gv (sip_example ())) \<and> length [1, 2 :: byte] < 3 \<and> 0 \<notin> set [1, 2 :: byte]"
    by (simp add: sip_example_def tcp_start_state_def tcp_state.extend_def example_globals_def)
      (simp add: globals_init_def)
  then show ?thesis
    using receive_block_iff [where s = "sip_example ()" and k = "junk_kernel 170" and j = 0, OF sip_example_ok(1) junk_kernel_memory f] by metis
qed

text \<open>
  The blocks that a receiver takes from its peer: not empty, shorter than a block's size, and no
  message prints beyond them. Receiving one: its bytes are written to the pipe to the main loop,
  exactly and once, and the decoder stays usable.
\<close>

definition sendable :: "t_global_v \<Rightarrow> byte list \<Rightarrow> bool" where
  "sendable g frame \<longleftrightarrow> frame \<noteq> [] \<and> \<not> prints_beyond g frame \<and> length frame < BLOCK_SIZE"

lemma receive_frame_bytes:
  assumes "decoder_ok s" "memory_left k" "sendable (gv s) frame"
  shows "\<exists>s' t. on_rx_request k j (tunnel_request frame) s = Inr (True, s') \<and> trace s' = trace s @ t \<and>
    submitted (snd (g_pipe_from_plugin (gv s))) t = frame \<and> decoder_ok s' \<and> gv s' = gv s \<and> g_complete s' = g_complete s"
proof -
  obtain s' t where "on_rx_request k j (tunnel_request frame) s = Inr (True, s')" "trace s' = trace s @ t"
    "filter (\<lambda>c. \<not> is_malloc c) (map fst t) =
      [Write (snd (g_pipe_from_plugin (gv s))) frame, RespondStateless 666 ''Traffic Accepted'']"
    "decoder_ok s'" "gv s' = gv s" "g_complete s' = g_complete s"
    using accept_frame_state [OF assms(1,2), of frame j] assms(3) unfolding sendable_def by blast
  then show ?thesis
    by (auto simp: submitted_mallocs)
qed

text \<open>
  A session: whatever number of sendable blocks the peer sends, the event loop accepts every
  request and the bytes it writes to the main loop's pipe are the blocks' bytes, in order; it is
  then still waiting for events.
\<close>

lemma session_result:
  assumes "decoder_ok s" "memory_left k" "\<not> g_complete s" "\<forall>f \<in> set frames. sendable (gv s) f"
  shows "\<exists>s' t. sip_loop_sip_events k j (map (\<lambda>f. Rx_Request (tunnel_request f)) frames) s = Inr (False, s') \<and>
    trace s' = trace s @ t \<and> submitted (snd (g_pipe_from_plugin (gv s))) t = concat frames"
  using assms
proof (induction frames arbitrary: s)
  case Nil
  then show ?case by simp
next
  case (Cons f frames)
  have f: "sendable (gv s) f"
    using Cons.prems(4) by simp
  from receive_frame_bytes [OF Cons.prems(1,2) f, of j]
  obtain s1 t1 where s1: "on_rx_request k j (tunnel_request f) s = Inr (True, s1)" "trace s1 = trace s @ t1"
    "submitted (snd (g_pipe_from_plugin (gv s))) t1 = f" "decoder_ok s1" "gv s1 = gv s" "g_complete s1 = g_complete s"
    by blast
  obtain s' t where "sip_loop_sip_events k j (map (\<lambda>f. Rx_Request (tunnel_request f)) frames) s1 = Inr (False, s')"
    "trace s' = trace s1 @ t" "submitted (snd (g_pipe_from_plugin (gv s1))) t = concat frames"
    using Cons.IH [OF s1(4) Cons.prems(2)] Cons.prems(3,4) s1(5,6) by auto
  then show ?case
    using s1 Cons.prems(3) by (simp add: handle_event_simps)
qed

text \<open>
  Requests that carry nothing: any other method and a request without the header get one
  reply 500, with the reason of the case, and nothing is decoded or written.
\<close>

lemma foreign_request_refused:
  assumes "is_options r \<longrightarrow> multivpn r = None"
  shows "\<exists>s' q. on_rx_request k j r s = Inr (True, s') \<and> same_vars s s' \<and>
    trace s' = trace s @ [(RespondStateless 500 (if is_options r then ''Go home and sleep'' else ''Go home''), q)]"
  using assms
  by (auto simp: on_rx_request_def respond_def Let_def split_beta sys_trace)

lemma foreign_request_refused_witness:
  "\<exists>s' q. on_rx_request (junk_kernel 0) 0 \<lparr>is_options = False, multivpn = Some [1]\<rparr> (sip_example ()) = Inr (True, s') \<and>
    trace s' = [(RespondStateless 500 ''Go home'', q)]"
  using foreign_request_refused [of "\<lparr>is_options = False, multivpn = Some [1]\<rparr>" "junk_kernel 0" 0 "sip_example ()"]
  by (auto simp: sip_example_ok)

definition quiet_state :: "unit sip_state" where
  "quiet_state = (sip_example ())\<lparr>gv := (example_globals CLIENT_MODE)\<lparr>g_debug := 0\<rparr>,
     decoding_table := Block (projr (build_loop 0 (replicate 256 0)))\<rparr>"

text \<open>
  C38. What a hostile header can do, with messages switched off and a table built: the request is
  undefined behaviour exactly when the header's value is longer than the 2048 bytes of the
  buffer, fills it without a NUL, is empty, or has a length the decoder accepts and a byte of
  128 or more; and then it is an access out of bounds.
\<close>

lemma hostile_header:
  assumes "table_ok (decoding_table s)" "memory_left k" "g_debug (gv s) \<le> 1"
    and "body = takeWhile (\<lambda>c. c \<noteq> 0) v"
  shows "on_rx_request k j \<lparr>is_options = True, multivpn = Some v\<rparr> s = Inl e \<longleftrightarrow>
    e = OutOfBounds \<and>
    (2048 < length v \<or> length body = 2048 \<or> body = [] \<or> length body mod 4 = 0 \<and> (\<exists>c \<in> set body. 128 \<le> unat c))"
proof (cases "2048 < length v \<or> length body = 2048")
  case True
  then show ?thesis
    using assms(4) by (auto simp: on_rx_request_def header_text_def payload_size_def Let_def)
next
  case False
  then have h: "header_text v = Inr body"
    using assms(4) by (simp add: header_text_def payload_size_def Let_def)
  have l: "length body \<le> INT_MAX"
    using False assms(4) length_takeWhile_le [of "\<lambda>c. c \<noteq> 0" v] by (simp add: INT_MAX_def)
  have p: "on_rx_request k j \<lparr>is_options = True, multivpn = Some v\<rparr> s = Inl e \<longleftrightarrow> base64_decode k body s = Inl e"
    using decode_keeps_gv [of k body s] assms(3)
    by (cases "base64_decode k body s")
      (auto simp: on_rx_request_def h prints_beyond_def res_bind_eq_Inl split: decode_result.splits)
  show ?thesis
    unfolding p using False decode_fails_iff [OF assms(1) l assms(2)] by auto
qed

lemma hostile_header_witness:
  "on_rx_request (junk_kernel 0) 0 \<lparr>is_options = True, multivpn = Some [84, 87, 200, 61]\<rparr> quiet_state = Inl OutOfBounds"
proof -
  have "table_ok (decoding_table quiet_state)" "g_debug (gv quiet_state) \<le> 1"
    using table_state_ok by (simp_all add: quiet_state_def table_state_def)
  from hostile_header [OF this(1) junk_kernel_memory this(2), of "[84, 87, 200, 61]" "[84, 87, 200, 61]" 0 0 OutOfBounds]
  show ?thesis
    by simp
qed

text \<open>
  A header whose length the decoder refuses is not noticed: the request is answered with 666
  all the same, after a write from NULL of as many bytes as the uninitialised length happens
  to say.
\<close>

lemma refused_header_accepted:
  assumes "length v \<le> 2048" "body = takeWhile (\<lambda>c. c \<noteq> 0) v" "length body mod 4 \<noteq> 0" "table_ok (decoding_table s)"
  shows "\<exists>s' q1 q2. on_rx_request k j \<lparr>is_options = True, multivpn = Some v\<rparr> s = Inr (True, s') \<and>
    trace s' = trace s @ [(WriteNull (snd (g_pipe_from_plugin (gv s))) j, q1), (RespondStateless 666 ''Traffic Accepted'', q2)]"
proof -
  have "length body \<noteq> 2048"
    using assms(3) by auto
  then have h: "header_text v = Inr body"
    using assms(1,2) by (simp add: header_text_def payload_size_def Let_def)
  have d: "base64_decode k body s = Inr (RefusedLength, s)"
    using assms(3,4) by (auto simp: base64_decode_def table_ok_def)
  show ?thesis
    by (simp add: on_rx_request_def h d respond_def Let_def split_beta sys_trace)
qed

lemma refused_header_accepted_witness:
  "\<exists>s' q1 q2. on_rx_request (junk_kernel 0) 99 \<lparr>is_options = True, multivpn = Some [84, 87, 65]\<rparr> quiet_state = Inr (True, s') \<and>
    trace s' = [(WriteNull 4 99, q1), (RespondStateless 666 ''Traffic Accepted'', q2)]"
proof -
  have "table_ok (decoding_table quiet_state)" "trace quiet_state = []" "g_pipe_from_plugin (gv quiet_state) = (3, 4)"
    using table_state_ok sip_example_ok [of "()"]
    by (simp_all add: quiet_state_def table_state_def example_globals_def)
  with refused_header_accepted [of "[84, 87, 65]" "[84, 87, 65]" quiet_state "junk_kernel 0" 99]
  show ?thesis
    by simp
qed

text \<open>
  The parameter check looks at the SIP port only: a configuration without transport, remote
  URI or addresses passes it.
\<close>

lemma sip_check_port_only: "sip_checkParameters g = (if g_sip_port g = 0 then - 1 else 0)"
  by (simp add: sip_checkParameters_def array_at_null_def)

subsection \<open>What a transfer changes outside\<close>

lemma decode_world:
  assumes "base64_decode k cs s = Inr (d, s')" "\<And>n w. R (snd (k (Malloc n) w)) = R w"
  shows "R (world s') = R (world s)"
proof -
  have b: "R (world t) = R (world s)" if "build_decoding_table k s = Inr t" for t
    using that by (auto simp: build_decoding_table_def Let_def split_beta sys_world assms(2) split: if_splits)
  show ?thesis
    using assms(1) b by (auto simp: base64_decode_def Let_def split_beta sys_world assms(2) split: if_splits)
qed

lemma sip_envia_datos_world:
  assumes "sizeof_size_t \<le> sizeof_int" "length datos < BLOCK_SIZE" "memory_left k" "pjsip_works k"
  shows "\<exists>s' n t f. sip_envia_datos k sizeof_size_t datos s = Inr (0, s') \<and> same_vars s s' \<and>
    world s' = snd (k SendTransaction (snd (k (AddHeader ''Multivpn'' (b64 datos))
      (snd (k (Pjsip ''pjsip_tsx_create_uac'') (snd (k (CreateOptionsRequest t f) (snd (k (Malloc n) (world s))))))))))"
proof -
  have e: "base64_encode k datos s = Inr ((Some (b64 datos), length (b64 datos)), snd (sys k (Malloc (length (b64 datos))) s))"
    using base64_encode_result [of datos k s] block_encodes [OF assms(2)] memory_leftD [OF assms(3), of "length (b64 datos)" s]
    by (simp add: INT_MAX_def Let_def)
  have "\<exists>s'. sip_envia_datos k sizeof_size_t datos s = Inr (0, s') \<and> same_vars s s' \<and>
    world s' = snd (k SendTransaction (snd (k (AddHeader ''Multivpn'' (b64 datos))
      (snd (k (Pjsip ''pjsip_tsx_create_uac'') (snd (k (CreateOptionsRequest (c_str (g_sip_remoteuri (gv s))) (c_str (g_sip_fromuri (gv s)))) (snd (k (Malloc (length (b64 datos))) (world s))))))))))"
    using assms(1)
    by (simp add: sip_envia_datos_def e Let_def split_beta pjsip_worksD [OF assms(4)] same_vars_iff sys_world)
  then show ?thesis by blast
qed

text \<open>The frame of a header's text.\<close>

definition decoder_table :: table_ptr where
  "decoder_table = Block (projr (build_loop 0 (replicate 256 0)))"

definition frame_of :: "byte list \<Rightarrow> byte list" where
  "frame_of text = (case unb64 decoder_table text of Inl e \<Rightarrow> [] | Inr bs \<Rightarrow> take (decoded_length text) bs)"

lemma frame_of_b64: "frame \<noteq> [] \<Longrightarrow> frame_of (b64 frame) = frame"
proof -
  have "table_ok decoder_table"
    using table_state_ok by (simp add: decoder_table_def table_state_def)
  then show "frame \<noteq> [] \<Longrightarrow> ?thesis"
    using unb64_b64 [of decoder_table frame] by (auto simp: frame_of_def decoded_length_b64)
qed

subsection \<open>The sending loop\<close>

text \<open>
  The blocks read from a descriptor and the headers sent, in order. A read returns at most as
  many bytes as were asked for.
\<close>

fun block_of :: "int \<Rightarrow> xcall \<times> reply \<Rightarrow> byte list list" where
  "block_of fd (Read fd' n, r) = (if fd' = fd \<and> 0 < r_ret r then [got r] else [])"
| "block_of fd _ = []"

fun header_of :: "xcall \<times> reply \<Rightarrow> byte list list" where
  "header_of (AddHeader name bs, r) = [bs]"
| "header_of _ = []"

definition blocks :: "int \<Rightarrow> (xcall \<times> reply) list \<Rightarrow> byte list list" where
  "blocks fd t = concat (map (block_of fd) t)"

definition headers :: "(xcall \<times> reply) list \<Rightarrow> byte list list" where
  "headers t = concat (map header_of t)"

lemma blocks_simps [simp]: "blocks fd [] = []" "blocks fd (x # t) = block_of fd x @ blocks fd t"
  "blocks fd (t @ u) = blocks fd t @ blocks fd u"
  by (simp_all add: blocks_def)

lemma headers_simps [simp]: "headers [] = []" "headers (x # t) = header_of x @ headers t"
  "headers (t @ u) = headers t @ headers u"
  by (simp_all add: headers_def)

definition reads_bounded :: "'w kernel \<Rightarrow> bool" where
  "reads_bounded k \<longleftrightarrow> (\<forall>fd n w. r_ret (fst (k (Read fd n) w)) \<le> int n)"

lemma length_got: "reads_bounded k \<Longrightarrow> length (got (fst (sys k (Read fd n) s))) \<le> n"
  by (auto simp: got_def reads_bounded_def sys_reply min_le_iff_disj nat_le_iff)

text \<open>A read that reports bytes has bytes.\<close>

definition reads_bytes :: "'w kernel \<Rightarrow> bool" where
  "reads_bytes k \<longleftrightarrow> (\<forall>fd n w. 0 < r_ret (fst (k (Read fd n) w)) \<longrightarrow> got (fst (k (Read fd n) w)) \<noteq> [])"

lemma request_calls_trace:
  "map fst t = request_calls g datos \<Longrightarrow> headers t = [b64 datos] \<and> blocks fd t = [] \<and> received fd t = []"
  by (auto simp: request_calls_def map_eq_Cons_conv)

lemma sip_tun_pass_result:
  assumes "sizeof_size_t \<le> sizeof_int" "memory_left k" "pjsip_works k" "reads_bounded k"
    "selectable (fst (g_pipe_to_plugin (gv s)))"
  shows "\<exists>S' s' t. sip_tun_pass k sizeof_size_t m (S, s) = Inr (S', s') \<and> same_vars s s' \<and>
    trace s' = trace s @ t \<and> headers t = map b64 (blocks (fst (g_pipe_to_plugin (gv s))) t) \<and>
    (\<forall>f \<in> set (blocks (fst (g_pipe_to_plugin (gv s))) t). length f < BLOCK_SIZE \<and> (reads_bytes k \<longrightarrow> f \<noteq> [])) \<and>
    concat (blocks (fst (g_pipe_to_plugin (gv s))) t) = received (fst (g_pipe_to_plugin (gv s))) t"
proof -
  let ?pin = "fst (g_pipe_to_plugin (gv s))"
  define S1 where "S1 = insert ?pin S"
  define s1 where "s1 = snd (do_select k m S1 s)"
  obtain q where s1: "same_vars s s1" "trace s1 = trace s @ [(Select m S1, q)]"
    unfolding s1_def using do_select_effect(1) [where s = s and k = k and m = m and S = S1]
      do_select_effect(2) [where s = s and k = k and m = m and S = S1] by blast
  have g: "gv s1 = gv s" by (simp add: s1_def do_select_tcp)
  define r where "r = fst (sys k (Read ?pin (BLOCK_SIZE - 1)) s1)"
  define s2 where "s2 = snd (sys k (Read ?pin (BLOCK_SIZE - 1)) s1)"
  have s2: "same_vars s s2" "trace s2 = trace s1 @ [(Read ?pin (BLOCK_SIZE - 1), r)]" "gv s2 = gv s"
    using same_vars_trans [OF s1(1) same_vars_sys] by (simp_all add: s2_def r_def sys_trace g)
  have run: "sip_tun_pass k sizeof_size_t m (S, s) =
     (if ?pin \<notin> fst (do_select k m S1 s) then Inr (fst (do_select k m S1 s), s1)
      else if r_ret r \<le> 0 then Inr (fst (do_select k m S1 s), s2)
      else res_bind (sip_envia_datos k sizeof_size_t (got r) s2) (\<lambda>(_, u). Inr (fst (do_select k m S1 s), u)))"
    using assms(5)
    by (simp add: sip_tun_pass_def FD_SET_def selectable_def Let_def split_beta r_def s2_def s1_def S1_def do_select_tcp)
  have l: "length (got r) < BLOCK_SIZE"
    using length_got [OF assms(4), of ?pin "BLOCK_SIZE - 1" s1] by (simp add: r_def global_consts)
  have b: "0 < r_ret r \<and> reads_bytes k \<Longrightarrow> got r \<noteq> []" "r_ret r \<le> 0 \<Longrightarrow> got r = []"
    by (simp_all add: r_def reads_bytes_def sys_reply got_def)
  consider "?pin \<notin> fst (do_select k m S1 s)" | "?pin \<in> fst (do_select k m S1 s)" "r_ret r \<le> 0"
    | "?pin \<in> fst (do_select k m S1 s)" "0 < r_ret r" by linarith
  then show ?thesis
  proof cases
    case 3
    obtain s3 t where s3: "sip_envia_datos k sizeof_size_t (got r) s2 = Inr (0, s3)" "same_vars s2 s3"
      "trace s3 = trace s2 @ t" "map fst t = request_calls (gv s2) (got r)"
      using sip_envia_datos_result [OF assms(1) l assms(2,3)] by blast
    show ?thesis
      using 3 s3(1,3) same_vars_trans [OF s2(1) s3(2)] s1(2) s2(2) request_calls_trace [OF s3(4)]
      l b by (simp add: run)
  qed (use run s1 s2 b in simp_all)
qed

declare sip_loop_sip_events.simps [simp del]

lemma sip_loop_result:
  assumes "sizeof_size_t \<le> sizeof_int" "memory_left k" "pjsip_works k" "reads_bounded k"
  shows "selectable (fst (g_pipe_to_plugin (gv s))) \<Longrightarrow>
    \<exists>S' s' t. passes n (sip_tun_pass k sizeof_size_t m) (S, s) = Inr (S', s') \<and> same_vars s s' \<and>
    trace s' = trace s @ t \<and> headers t = map b64 (blocks (fst (g_pipe_to_plugin (gv s))) t) \<and>
    (\<forall>f \<in> set (blocks (fst (g_pipe_to_plugin (gv s))) t). length f < BLOCK_SIZE \<and> (reads_bytes k \<longrightarrow> f \<noteq> [])) \<and>
    concat (blocks (fst (g_pipe_to_plugin (gv s))) t) = received (fst (g_pipe_to_plugin (gv s))) t"
proof (induction n arbitrary: S s)
  case (Suc n)
  from sip_tun_pass_result [OF assms Suc.prems, of m S]
  obtain S1 s1 t1 where s1: "sip_tun_pass k sizeof_size_t m (S, s) = Inr (S1, s1)" "same_vars s s1"
    "trace s1 = trace s @ t1" "headers t1 = map b64 (blocks (fst (g_pipe_to_plugin (gv s))) t1)"
    "\<forall>f \<in> set (blocks (fst (g_pipe_to_plugin (gv s))) t1). length f < BLOCK_SIZE \<and> (reads_bytes k \<longrightarrow> f \<noteq> [])"
    "concat (blocks (fst (g_pipe_to_plugin (gv s))) t1) = received (fst (g_pipe_to_plugin (gv s))) t1"
    by blast
  have g: "gv s1 = gv s"
    using s1(2) by (simp add: same_vars_iff)
  obtain S' s' t where s': "passes n (sip_tun_pass k sizeof_size_t m) (S1, s1) = Inr (S', s')" "same_vars s1 s'"
    "trace s' = trace s1 @ t" "headers t = map b64 (blocks (fst (g_pipe_to_plugin (gv s1))) t)"
    "\<forall>f \<in> set (blocks (fst (g_pipe_to_plugin (gv s1))) t). length f < BLOCK_SIZE \<and> (reads_bytes k \<longrightarrow> f \<noteq> [])"
    "concat (blocks (fst (g_pipe_to_plugin (gv s1))) t) = received (fst (g_pipe_to_plugin (gv s1))) t"
    using Suc.IH [of s1 S1] Suc.prems g by auto
  show ?case
    using s1 s' same_vars_trans [OF s1(2) s'(2)] g by auto
qed simp


definition pipe_kernel :: "byte list \<Rightarrow> unit kernel" where
  "pipe_kernel bs c w =
     (case c of Select m S \<Rightarrow> reply_ready {5} | Read fd n \<Rightarrow> reply_bytes (take n bs)
      | Malloc n \<Rightarrow> reply_ok 1 | _ \<Rightarrow> reply_ok 0, w)"

lemma pipe_kernel_laws: "memory_left (pipe_kernel bs)" "pjsip_works (pipe_kernel bs)" "reads_bounded (pipe_kernel bs)"
  by (simp_all add: pipe_kernel_def memory_left_def pjsip_works_def reads_bounded_def reply_ok_def reply_bytes_def PJ_SUCCESS_def)

text \<open>One pass on that kernel reads the block from the pipe and sends it.\<close>

lemma pipe_kernel_pass:
  assumes "bs \<noteq> []" "length bs < BLOCK_SIZE" "sip_loop_tun_events (pipe_kernel bs) 4 {} 1 (sip_example ()) = Inr (S', a')"
  shows "blocks 5 (trace a') = [bs]"
proof -
  define s2 where "s2 = (sip_example ())\<lparr>world := (), trace := [(Select 6 {5}, reply_ready {5}), (Read 5 1504, reply_bytes bs)]\<rparr>"
  have r: "\<not> r_ret (reply_bytes bs) \<le> 0" "got (reply_bytes bs) = bs" "r_ret (reply_ready {5}) = 1" "r_ready (reply_ready {5}) = {5}"
    using assms(1) by (cases bs; simp add: reply_bytes_def reply_ready_def reply_ok_def got_def)+
  have "take 1504 bs = bs"
    using assms(2) by (simp add: global_consts)
  then have "sip_tun_pass (pipe_kernel bs) 4 6 ({}, sip_example ())
      = res_bind (sip_envia_datos (pipe_kernel bs) 4 bs s2) (\<lambda>(_, s). Inr ({5}, s))"
    using r by (simp add: sip_tun_pass_def sip_example_ok FD_SET_def FD_SETSIZE_def do_select_def sys_def pipe_kernel_def
        Let_def s2_def global_consts)
  moreover have "\<exists>s' t. sip_envia_datos (pipe_kernel bs) 4 bs s2 = Inr (0, s') \<and> same_vars s2 s' \<and>
    trace s' = trace s2 @ t \<and> map fst t = request_calls (gv s2) bs"
    by (rule sip_envia_datos_result) (simp_all add: sizeof_int_def assms(2) pipe_kernel_laws)
  ultimately show ?thesis
    using assms(3) r(1,2) request_calls_trace by (fastforce simp: sip_loop_tun_events_def sip_example_ok s2_def)
qed


subsection \<open>When the event loop returns\<close>

fun handled :: "'w kernel \<Rightarrow> int \<Rightarrow> sip_event list \<Rightarrow> ('w, 'z) sip_state_scheme \<Rightarrow> ('w, 'z) sip_state_scheme res" where
  "handled k j [] s = Inr s"
| "handled k j (ev # evs) s = res_bind (handle_event k j ev s) (handled k j evs)"

lemma on_rx_request_keeps:
  assumes "on_rx_request k j r s = Inr (b, s')"
  shows "g_complete s' = g_complete s"
proof -
  have "res_all (\<lambda>x. g_complete (snd x) = g_complete s) (on_rx_request k j r s)"
    unfolding on_rx_request_def
    by (auto simp: respond_def Let_def split_beta dest!: decode_keeps split: decode_result.splits if_splits
        intro!: res_all_If res_all_option res_all_bind)
  then show ?thesis
    using assms by simp
qed

lemma handle_event_keeps:
  assumes "handle_event k j ev s = Inr s'" "ev \<noteq> Invite_State True"
  shows "g_complete s' = g_complete s"
  using assms by (cases ev) (auto simp: handle_event_simps call_on_state_changed_def dest: on_rx_request_keeps)

lemma sip_loop_waits:
  "\<lbrakk>\<not> g_complete s; Invite_State True \<notin> set pre; handled k j pre s = Inr s1\<rbrakk> \<Longrightarrow>
    sip_loop_sip_events k j (pre @ evs) s = sip_loop_sip_events k j evs s1 \<and> \<not> g_complete s1"
proof (induction pre arbitrary: s)
  case (Cons ev pre)
  then obtain s2 where s2: "handle_event k j ev s = Inr s2" "handled k j pre s2 = Inr s1"
    by auto
  have "\<not> g_complete s2"
    using handle_event_keeps [OF s2(1)] Cons.prems(1,2) by auto
  then show ?case
    using Cons.IH [OF _ _ s2(2)] Cons.prems(1,2) s2(1) by (simp add: sip_loop_sip_events.simps [of k j "ev # pre @ evs"])
qed simp



end
