(* ===== verification/Plugin.thy ===== *)
theory Plugin
  imports Sip_Transfer
begin

section \<open>Plugin dispatch: plugin.c\<close>

text \<open>
  The pointers to the active plugin's functions, how a plugin is selected by name, and the
  calls through the pointers. A pointer is \<open>None\<close> until it is set (static storage), and
  each has a datatype of the functions it may point to; calling \<open>None\<close> is \<open>NullDeref\<close>.
  The getters of the two plugins return these function names.
\<close>

datatype start_fn = Tcp_start | Sip_start
datatype build_fn = Tcp_build | Sip_build
datatype check_fn = Tcp_checkParameters | Sip_checkParameters
datatype tuntap_fn = Tcp_getTunTap
datatype fill_fn = Tcp_fillFDSET
datatype isset_fn = Tcp_checkFDISSET

record 'w plugin_state = "'w sip_state" +
  active_plugin_start :: "start_fn option"
  active_plugin_build :: "build_fn option"
  active_plugin_check_parameters :: "check_fn option"
  active_plugin_getTunTap :: "tuntap_fn option"
  active_plugin_fillFDSET :: "fill_fn option"
  active_plugin_checkFDISSET :: "isset_fn option"

subsection \<open>The plugins' getters\<close>

definition tcp_plugin_getStart :: "start_fn option" where "tcp_plugin_getStart = Some Tcp_start"
definition tcp_plugin_getBuild :: "build_fn option" where "tcp_plugin_getBuild = Some Tcp_build"
definition tcp_plugin_getCheckParameters :: "check_fn option" where
  "tcp_plugin_getCheckParameters = Some Tcp_checkParameters"
definition tcp_plugin_getTunTap :: "tuntap_fn option" where "tcp_plugin_getTunTap = Some Tcp_getTunTap"
definition tcp_plugin_getFillFDSET :: "fill_fn option" where "tcp_plugin_getFillFDSET = Some Tcp_fillFDSET"
definition tcp_plugin_getCheckFDISSET :: "isset_fn option" where
  "tcp_plugin_getCheckFDISSET = Some Tcp_checkFDISSET"

definition sip_plugin_getStart :: "start_fn option" where "sip_plugin_getStart = Some Sip_start"
definition sip_plugin_getBuild :: "build_fn option" where "sip_plugin_getBuild = Some Sip_build"
definition sip_plugin_getCheckParameters :: "check_fn option" where
  "sip_plugin_getCheckParameters = Some Sip_checkParameters"
definition sip_plugin_getTunTap :: "tuntap_fn option" where "sip_plugin_getTunTap = None"
definition sip_plugin_getFillFDSET :: "fill_fn option" where "sip_plugin_getFillFDSET = None"
definition sip_plugin_getCheckFDISSET :: "isset_fn option" where "sip_plugin_getCheckFDISSET = None"

lemmas tcp_getters = tcp_plugin_getStart_def tcp_plugin_getBuild_def tcp_plugin_getCheckParameters_def
  tcp_plugin_getTunTap_def tcp_plugin_getFillFDSET_def tcp_plugin_getCheckFDISSET_def

lemmas sip_getters = sip_plugin_getStart_def sip_plugin_getBuild_def sip_plugin_getCheckParameters_def

subsection \<open>Calls through the pointers\<close>

fun call_check :: "check_fn option \<Rightarrow> t_global_v \<Rightarrow> int res" where
  "call_check None g = Inl NullDeref"
| "call_check (Some Tcp_checkParameters) g = Inr (fst (tcp_checkParameters g))"
| "call_check (Some Sip_checkParameters) g = Inr (sip_checkParameters g)"

fun call_build ::
    "build_fn option \<Rightarrow> 'w kernel \<Rightarrow> ('w, 'z) plugin_state_scheme \<Rightarrow> (int \<times> ('w, 'z) plugin_state_scheme) res" where
  "call_build None k s = Inl NullDeref"
| "call_build (Some Tcp_build) k s = tcp_build k s"
| "call_build (Some Sip_build) k s = sip_build k s"

fun call_fillFDSET ::
    "fill_fn option \<Rightarrow> int set \<Rightarrow> ('w, 'z) plugin_state_scheme \<Rightarrow> (int \<times> int set) res" where
  "call_fillFDSET None S s = Inl NullDeref"
| "call_fillFDSET (Some Tcp_fillFDSET) S s = tcp_fillFDSET S s"

text \<open>The body of the plugin's thread, with the parameters of the two plugins' models.\<close>

fun run_start ::
    "start_fn \<Rightarrow> 'w kernel \<Rightarrow> nat \<Rightarrow> int set \<Rightarrow> nat \<Rightarrow> ('w, 'z) plugin_state_scheme
      \<Rightarrow> (int option \<times> ('w, 'z) plugin_state_scheme) res" where
  "run_start Tcp_start k z S n s = tcp_start k S n s"
| "run_start Sip_start k z S n s = sip_start k z S n s"

subsection \<open>Operations\<close>

definition plugin_checkConfig :: "('w, 'z) plugin_state_scheme \<Rightarrow> (int \<times> ('w, 'z) plugin_state_scheme) res" where
  "plugin_checkConfig s =
     (if strncmp_eq (c_str (g_plugin_name (gv s))) ''tcp'' (length ''tcp'') then
        let s = s\<lparr>gv := (gv s)\<lparr>g_plugin := TCP_PLUGIN\<rparr>\<rparr>;
            s = s\<lparr>active_plugin_start := tcp_plugin_getStart\<rparr>;
            s = s\<lparr>active_plugin_build := tcp_plugin_getBuild\<rparr>;
            s = s\<lparr>active_plugin_check_parameters := tcp_plugin_getCheckParameters\<rparr>;
            s = s\<lparr>active_plugin_fillFDSET := tcp_plugin_getFillFDSET\<rparr>;
            s = s\<lparr>active_plugin_checkFDISSET := tcp_plugin_getCheckFDISSET\<rparr>;
            s = s\<lparr>active_plugin_getTunTap := tcp_plugin_getTunTap\<rparr>
        in res_bind (call_check (active_plugin_check_parameters s) (gv s)) (\<lambda>rc. Inr (rc, s))
      else if strncmp_eq (c_str (g_plugin_name (gv s))) ''sip'' (length ''sip'') then
        let s = s\<lparr>gv := (gv s)\<lparr>g_plugin := SIP_PLUGIN\<rparr>\<rparr>;
            s = s\<lparr>active_plugin_start := sip_plugin_getStart\<rparr>;
            s = s\<lparr>active_plugin_build := sip_plugin_getBuild\<rparr>;
            s = s\<lparr>active_plugin_check_parameters := sip_plugin_getCheckParameters\<rparr>
        in res_bind (call_check (active_plugin_check_parameters s) (gv s)) (\<lambda>rc. Inr (rc, s))
      else Inr (- 1, s))"

definition plugin_build ::
    "'w kernel \<Rightarrow> ('w, 'z) plugin_state_scheme \<Rightarrow> (int \<times> ('w, 'z) plugin_state_scheme) res" where
  "plugin_build k s =
     (let (r, s) = sys k Pipe s
      in if r_ret r \<noteq> 0 then Inr (- 1, s)
      else
        let s = s\<lparr>gv := (gv s)\<lparr>g_pipe_from_plugin := r_pipe r\<rparr>\<rparr>;
            (r, s) = sys k Pipe s
        in if r_ret r \<noteq> 0 then Inr (- 1, s)
        else
          let s = s\<lparr>gv := (gv s)\<lparr>g_pipe_to_plugin := r_pipe r\<rparr>\<rparr>
          in res_bind (call_build (active_plugin_build s) k s) (\<lambda>(rc, s).
               if rc \<noteq> 0 then Inr (- 1, s) else Inr (0, s)))"

text \<open>The thread that is created is the one of \<open>active_plugin_start\<close>; its creation is not checked.\<close>

definition plugin_start ::
    "'w kernel \<Rightarrow> ('w, 'z) plugin_state_scheme \<Rightarrow> int \<times> ('w, 'z) plugin_state_scheme" where
  "plugin_start k s =
     (case active_plugin_start s of
        Some f \<Rightarrow>
          let (_, s) = sys k (PthreadCreate (case f of Tcp_start \<Rightarrow> ''tcp_start'' | Sip_start \<Rightarrow> ''sip_start'')) s
          in (0, s)
      | None \<Rightarrow> (- 1, s))"

definition plugin_getTunTap :: "('w, 'z) plugin_state_scheme \<Rightarrow> int" where
  "plugin_getTunTap s = 0"

definition plugin_stop :: "('w, 'z) plugin_state_scheme \<Rightarrow> ('w, 'z) plugin_state_scheme" where
  "plugin_stop s = s"

definition plugin_fillFDSET :: "int set \<Rightarrow> ('w, 'z) plugin_state_scheme \<Rightarrow> (int \<times> int set) res" where
  "plugin_fillFDSET S s =
     res_bind (call_fillFDSET (active_plugin_fillFDSET s) S s) (\<lambda>(_, S). Inr (0, S))"

definition plugin_checkFDISSET :: "int set \<Rightarrow> ('w, 'z) plugin_state_scheme \<Rightarrow> int" where
  "plugin_checkFDISSET S s = 0"

subsection \<open>The device across a build\<close>

text \<open>
  Two states with the same device and the same variables of the components above the TCP plugin.
\<close>

definition same_device :: "('w, 'z) tcp_state_scheme \<Rightarrow> ('w, 'z) tcp_state_scheme \<Rightarrow> bool" where
  "same_device s s' \<longleftrightarrow> tfd s' = tfd s \<and> iface_name s' = iface_name s \<and> tcp_state.more s' = tcp_state.more s"

lemma same_device_vars: "same_vars s s' \<Longrightarrow> same_device s s'"
  by (cases s; cases s') (simp add: same_vars_def same_device_def)

lemma sys_tcp_more [frame, simp]: "tcp_state.more (snd (sys k c s)) = tcp_state.more s"
  by (simp add: sys_def Let_def split_beta)

lemma Store_same_device:
  fixes s :: "('w, 'z) tcp_state_scheme"
  assumes "StoreConnectionInformation k p d s = Inr (i, s')"
  shows "same_device s s'"
proof -
  have f: "same_device t (set_connection p i f t)" for p i f and t :: "('w, 'z) tcp_state_scheme"
    by (simp add: set_connection_def same_device_def)
  have g: "same_device t (snd (sys k c t))" for c and t :: "('w, 'z) tcp_state_scheme"
    by (simp add: same_device_def)
  show ?thesis
    using assms f g
    by (auto simp: StoreConnectionInformation_def Let_def split_beta split: if_splits)
      (auto simp: same_device_def set_connection_def)
qed

lemma tun_open_more: "tun_open k s = Inr (rc, s') \<Longrightarrow> tcp_state.more s' = tcp_state.more s"
  by (auto simp: tun_open_def tun_alloc_def Let_def split_beta split: if_splits)

subsection \<open>The contract of a plugin's build\<close>

text \<open>
  What \<open>plugin_build\<close> relies on, whichever plugin is selected: a build that returns 0 has
  opened the TAP device, and has touched neither the device's variables afterwards nor any
  variable above the plugins.
\<close>

locale plugin_builder =
  fixes k :: "'w kernel"
    and build :: "('w, 'z) tcp_state_scheme \<Rightarrow> (int \<times> ('w, 'z) tcp_state_scheme) res"
  assumes opens_device: "build s = Inr (0, s') \<Longrightarrow> \<exists>s1. tun_open k s = Inr (0, s1) \<and> same_device s1 s'"
begin

lemma device_ready:
  assumes "build s = Inr (0, s')" "posix_errno k" "short_names k" "buf_ok 100 (iface_name s)"
  shows "iface_ok s' \<and> 0 \<le> tfd s' \<and> tcp_state.more s' = tcp_state.more s"
proof -
  obtain s1 where s1: "tun_open k s = Inr (0, s1)" "same_device s1 s'"
    using opens_device [OF assms(1)] by blast
  have "0 \<le> tfd s1 \<and> iface_ok s1"
    using tun_open_cases [OF assms(2-4)] s1(1) by auto
  then show ?thesis
    using s1(2) tun_open_more [OF s1(1)] by (simp add: same_device_def iface_ok_def)
qed

end

lemma tcp_buildClient_device: "res_all (\<lambda>x. same_device s (snd x)) (tcp_buildClient k h p s)"
  unfolding tcp_buildClient_def Let_def split_beta
  by (intro res_all_If res_all_bind)
    (auto simp: same_device_def dest!: Store_same_device [unfolded same_device_def])

lemma tcp_build_device:
  assumes "tcp_build k s = Inr (0, s')"
  shows "\<exists>s1. tun_open k s = Inr (0, s1) \<and> same_device s1 s'"
proof -
  obtain s1 where s1: "tun_open k s = Inr (0, s1)"
    using assms by (auto simp: tcp_build_def split: if_splits)
  have b: "same_device s1 (snd (tcp_buildServer k p s1))" for p
    by (simp add: tcp_buildServer_def same_device_def Let_def split_beta)
  have "same_device s1 s'"
    using assms b [of "g_local_port (gv s1)"] res_allD [OF tcp_buildClient_device, of k _ _ s1]
    by (fastforce simp: tcp_build_def s1 split: if_splits)
  then show ?thesis using s1 by blast
qed

lemma sip_build_device:
  assumes "sip_build k s = Inr (0, s')"
  shows "\<exists>s1. tun_open k s = Inr (0, s1) \<and> same_device s1 s'"
proof -
  obtain s1 s2 s3 rc where s: "tun_open k s = Inr (0, s1)" "tun_UP k s1 = Inr (0, s2)"
    "tun_setIP k (c_str (g_local_ip (gv s2))) s2 = Inr (rc, s3)"
    "\<exists>rc'. tun_setNETMASK k (c_str (g_local_netmask (gv s3))) s3 = Inr (rc', s')"
    using assms by (auto simp: sip_build_def split: if_splits)
  then have "same_vars s1 s'"
    using tun_config_same_vars same_vars_trans by metis
  then show ?thesis using s(1) same_device_vars by blast
qed

interpretation tcp: plugin_builder k "tcp_build k" for k
  by unfold_locales (rule tcp_build_device)

interpretation sip: plugin_builder k "sip_build k" for k
  by unfold_locales (rule sip_build_device)

subsection \<open>Selecting and building\<close>

text \<open>The pointers and the plugin number belong to the same plugin.\<close>

definition plugin_selected :: "start_fn \<Rightarrow> ('w, 'z) plugin_state_scheme \<Rightarrow> bool" where
  "plugin_selected f s \<longleftrightarrow>
     active_plugin_start s = Some f \<and>
     active_plugin_build s = Some (case f of Tcp_start \<Rightarrow> Tcp_build | Sip_start \<Rightarrow> Sip_build)"

lemma plugin_checkConfig_result:
  assumes "plugin_checkConfig s = Inr (0, s')"
  shows "(\<exists>f. plugin_selected f s' \<and> take 3 (c_str (g_plugin_name (gv s))) = (case f of Tcp_start \<Rightarrow> ''tcp'' | Sip_start \<Rightarrow> ''sip''))
    \<and> iface_name s' = iface_name s \<and> trace s' = trace s"
  using assms
  by (auto simp: plugin_checkConfig_def plugin_selected_def tcp_getters sip_getters Let_def strncmp_eq_take numeral_3_eq_3
      split: if_splits intro: exI [of _ Tcp_start] exI [of _ Sip_start])

lemma same_device_selected:
  fixes s :: "('w, 'z) plugin_state_scheme"
  assumes "tcp_state.more s' = tcp_state.more s"
  shows "active_plugin_start s' = active_plugin_start s \<and> active_plugin_build s' = active_plugin_build s"
  using assms by (cases s; cases s') simp

lemma plugin_build_result:
  assumes "plugin_build k s = Inr (0, s')" "plugin_selected f s" "posix_errno k" "short_names k"
    "buf_ok 100 (iface_name s)"
  shows "plugin_selected f s' \<and> iface_ok s' \<and> 0 \<le> tfd s'"
proof -
  define t where "t = (snd (sys k Pipe s))\<lparr>gv := (gv s)\<lparr>g_pipe_from_plugin := r_pipe (fst (sys k Pipe s))\<rparr>\<rparr>"
  define s1 where "s1 = (snd (sys k Pipe t))\<lparr>gv := (gv t)\<lparr>g_pipe_to_plugin := r_pipe (fst (sys k Pipe t))\<rparr>\<rparr>"
  have s1: "call_build (active_plugin_build s1) k s1 = Inr (0, s')"
    using assms(1) by (auto simp: plugin_build_def Let_def split_beta s1_def t_def split: if_splits)
  have s1': "tcp_state.more s1 = tcp_state.more s" "iface_name s1 = iface_name s"
    by (simp_all add: s1_def t_def)
  have b: "active_plugin_build s1 = Some (case f of Tcp_start \<Rightarrow> Tcp_build | Sip_start \<Rightarrow> Sip_build)"
    using assms(2) same_device_selected [OF s1'(1)] by (simp add: plugin_selected_def)
  have buf: "buf_ok 100 (iface_name s1)"
    using assms(5) s1'(2) by simp
  have "iface_ok s' \<and> 0 \<le> tfd s' \<and> tcp_state.more s' = tcp_state.more s1"
  proof (cases f)
    case Tcp_start
    then show ?thesis using s1 b tcp.device_ready [OF _ assms(3,4) buf, of s'] by simp
  next
    case Sip_start
    then show ?thesis using s1 b sip.device_ready [OF _ assms(3,4) buf, of s'] by simp
  qed
  then show ?thesis
    using s1'(1) same_device_selected [of s' s] assms(2) by (simp add: plugin_selected_def)
qed

end
