(* ===== verification/Options.thy ===== *)
theory Options
  imports Globals
begin

section \<open>Command line: main.c\<close>

text \<open>
  The option tables of \<open>main\<close>, what \<open>getopt_long\<close> of the GNU C library makes of a list
  of argument words with them, and the texts that are printed before the program exits.

  \<open>getopt_all\<close> gives the options in the order in which repeated calls return them, each with
  \<open>optarg\<close>; a question mark stands for an unknown option, an ambiguous abbreviation, or a
  missing or superfluous argument. Words that are no options are passed over (the library moves
  them to the end), and the word of two dashes ends the options.
\<close>

subsection \<open>Texts\<close>

definition PROGRAM_NAME :: string where "PROGRAM_NAME = ''MultiVPN - Multiprotocol VPN tool''"
definition PROGRAM_VERSION :: string where "PROGRAM_VERSION = ''v0.0.1''"
definition PROGRAM_AUTHOR :: string where
  "PROGRAM_AUTHOR = ''Gorka Gorrotxategi - zgor <zgor@int80h.net>, Jose Ignacio Sanchez Martin - Topo[LB] <topolb@users.sourceforge.net>''"

definition newline :: string where "newline = [CHR 0x0A]"
definition tab :: string where "tab = [CHR 0x09]"

text \<open>A function that ends in \<open>exit\<close>: the text it prints and the exit code.\<close>

definition ShowVersion :: "string \<times> int" where
  "ShowVersion = (newline @ PROGRAM_VERSION @ newline @ newline, 0)"

definition ShowBanner :: string where
  "ShowBanner = PROGRAM_NAME @ '' Multiprotocol VPN tool ('' @ PROGRAM_VERSION @ '').'' @ newline @
     PROGRAM_AUTHOR @ newline @ newline"

definition UsageMsg :: "string \<Rightarrow> string \<times> int" where
  "UsageMsg programName =
     (ShowBanner @
      ''Usage: '' @ programName @ '' [OPTIONS]... '' @ newline @
      ''  Options:'' @ newline @
      ''    --debug <debuglevel>'' @ tab @ ''prints debug information'' @ newline @
      ''    -c, --configfile <file>     use specified config file, Required'' @ newline @
      ''    -h, --help'' @ tab @ tab @ ''        display this help and exit'' @ newline @
      ''    -V, --version'' @ tab @ ''        output version information and exit'' @ newline @
      newline, 1)"

text \<open>The name is printed into an array of 2048 characters first.\<close>

definition ShowHelp :: "(string \<times> int) res" where
  "ShowHelp =
     (let programName = PROGRAM_NAME @ '' '' @ PROGRAM_VERSION
      in if 2048 \<le> length programName then Inl OutOfBounds else Inr (UsageMsg programName))"

subsection \<open>Option tables\<close>

text \<open>Long options: name, whether an argument is required, and the character returned.\<close>

definition long_options :: "(string \<times> nat \<times> char) list" where
  "long_options =
     [(''version'', 0, CHR ''V''), (''help'', 0, CHR ''h''), (''debug'', 1, CHR ''d''),
      (''verbose'', 0, CHR ''v''), (''configfile'', 1, CHR ''c'')]"

definition short_options :: string where
  "short_options = ''c:Vvhd:''"

subsection \<open>Scanning the words\<close>

fun takes_arg :: "string \<Rightarrow> char \<Rightarrow> bool option" where
  "takes_arg [] c = None"
| "takes_arg (x # xs) c =
     (if c = x \<and> c \<noteq> CHR '':'' then Some (xs \<noteq> [] \<and> hd xs = CHR '':'') else takes_arg xs c)"

text \<open>A long name may be abbreviated; an exact match comes first.\<close>

definition find_long :: "string \<Rightarrow> (string \<times> nat \<times> char) option" where
  "find_long name =
     (case filter (\<lambda>(n, _). n = name) long_options of
        [e] \<Rightarrow> Some e
      | _ \<Rightarrow> (case filter (\<lambda>(n, _). prefix name n) long_options of [e] \<Rightarrow> Some e | _ \<Rightarrow> None))"

definition bad_option :: "char \<times> string option" where
  "bad_option = (CHR ''?'', None)"

definition long_word :: "string \<Rightarrow> string list \<Rightarrow> (char \<times> string option) \<times> string list" where
  "long_word body ws =
     (let name = takeWhile (\<lambda>c. c \<noteq> CHR ''='') body; assigned = drop (length name) body
      in case find_long name of
           None \<Rightarrow> (bad_option, ws)
         | Some (_, a, c) \<Rightarrow>
             if a = 0 then (if assigned = [] then (c, None) else bad_option, ws)
             else if assigned \<noteq> [] then ((c, Some (tl assigned)), ws)
             else (case ws of [] \<Rightarrow> (bad_option, []) | w # ws \<Rightarrow> ((c, Some w), ws)))"

fun short_word :: "string \<Rightarrow> string list \<Rightarrow> (char \<times> string option) list \<times> string list" where
  "short_word [] ws = ([], ws)"
| "short_word (c # cs) ws =
     (case takes_arg short_options c of
        None \<Rightarrow> let (os, ws) = short_word cs ws in (bad_option # os, ws)
      | Some False \<Rightarrow> let (os, ws) = short_word cs ws in ((c, None) # os, ws)
      | Some True \<Rightarrow>
          if cs \<noteq> [] then ([(c, Some cs)], ws)
          else (case ws of [] \<Rightarrow> ([bad_option], []) | w # ws \<Rightarrow> ([(c, Some w)], ws)))"

lemma long_word_rest: "long_word body ws = (opt, rest) \<Longrightarrow> length rest \<le> length ws"
  by (auto simp: long_word_def Let_def split: option.splits list.splits if_splits)

lemma short_word_rest: "short_word cs ws = (opts, rest) \<Longrightarrow> length rest \<le> length ws"
  by (induction cs ws arbitrary: opts rest rule: short_word.induct)
    (auto simp: Let_def split: option.splits list.splits bool.splits if_splits prod.splits)

function getopt_all :: "string list \<Rightarrow> (char \<times> string option) list" where
  "getopt_all [] = []"
| "getopt_all (w # ws) =
     (if w = ''--'' then []
      else if prefix ''--'' w then
        let (opt, rest) = long_word (drop 2 w) ws in opt # getopt_all rest
      else if w \<noteq> [] \<and> hd w = CHR ''-'' \<and> tl w \<noteq> [] then
        let (opts, rest) = short_word (tl w) ws in opts @ getopt_all rest
      else getopt_all ws)"
  by pat_completeness auto

termination
  by (relation "measure length")
    (auto simp: less_Suc_eq_le dest!: long_word_rest [OF sym] short_word_rest [OF sym])

declare getopt_all.simps(2) [simp del]

subsection \<open>The ways to name the configuration file\<close>

lemma getopt_all_Nil [simp]: "getopt_all [] = []"
  by simp

text \<open>The two tables agree, and an abbreviation of \<open>configfile\<close> is not ambiguous.\<close>

lemma tables_agree: "list_all (\<lambda>(n, a, c). takes_arg short_options c = Some (a = 1)) long_options"
  by code_simp

lemma find_configfile:
  assumes "pre \<noteq> []" "prefix pre ''configfile''"
  shows "find_long pre = Some (''configfile'', 1, CHR ''c'')"
proof -
  have "list_all (\<lambda>p. p = [] \<or> find_long p = Some (''configfile'', 1, CHR ''c'')) (prefixes ''configfile'')"
    by code_simp
  moreover have "pre \<in> set (prefixes ''configfile'')"
    using assms(2) by (simp only: in_set_prefixes)
  ultimately show ?thesis
    using assms(1) by (auto simp: list_all_iff)
qed

lemma configfile_no_assign: "prefix pre ''configfile'' \<Longrightarrow> \<forall>c \<in> set pre. c \<noteq> CHR ''=''"
  by (drule set_mono_prefix) auto

inductive config_words :: "string \<Rightarrow> string list \<Rightarrow> bool" for name :: string where
  short: "config_words name [''-c'', name]"
| attached: "name \<noteq> [] \<Longrightarrow> config_words name [''-c'' @ name]"
| long: "\<lbrakk>pre \<noteq> []; prefix pre ''configfile''\<rbrakk> \<Longrightarrow> config_words name [''--'' @ pre, name]"
| assigned: "\<lbrakk>pre \<noteq> []; prefix pre ''configfile''\<rbrakk> \<Longrightarrow> config_words name [''--'' @ pre @ ''='' @ name]"

lemma config_words_option:
  assumes "config_words name ws"
  shows "getopt_all (ws @ rest) = (CHR ''c'', Some name) # getopt_all rest"
  using assms
proof cases
  case short
  have "takes_arg short_options (CHR ''c'') = Some True" by code_simp
  then show ?thesis
    by (simp add: short getopt_all.simps(2))
next
  case attached
  have "takes_arg short_options (CHR ''c'') = Some True" by code_simp
  then show ?thesis
    using attached(2) by (simp add: attached(1) getopt_all.simps(2))
next
  case (long pre)
  have "takeWhile (\<lambda>c. c \<noteq> CHR ''='') pre = pre"
    using configfile_no_assign [OF long(3)] by (simp add: takeWhile_eq_all_conv)
  then show ?thesis
    using long(2) find_configfile [OF long(2,3)]
    by (simp add: long(1) getopt_all.simps(2) long_word_def Let_def del: takeWhile_eq_all_conv)
next
  case (assigned pre)
  have "takeWhile (\<lambda>c. c \<noteq> CHR ''='') (pre @ CHR ''='' # name) = pre"
    using configfile_no_assign [OF assigned(3)] by (simp add: takeWhile_append_stop)
  then show ?thesis
    using assigned(2) find_configfile [OF assigned(2,3)]
    by (simp add: assigned(1) getopt_all.simps(2) long_word_def Let_def)
qed

lemma debug_word: "getopt_all (''-d'' # level # rest) = (CHR ''d'', Some level) # getopt_all rest"
proof -
  have "takes_arg short_options (CHR ''d'') = Some True" by code_simp
  then show ?thesis
    by (simp add: getopt_all.simps(2))
qed

end
