(* ===== verification/Main_Loop.thy ===== *)
theory Main_Loop
  imports Parser_Facts Plugin Options
begin

section \<open>Start-up and main loop: main.c\<close>

text \<open>
  \<open>main\<close> and \<open>MainLoop\<close>. The file system is a parameter, a function from names to
  contents. The result of \<open>main\<close> is the exit code, or the main loop after a number of
  passes. What is printed is not part of the result.
\<close>

subsection \<open>The main loop\<close>

definition main_pass ::
    "'w kernel \<Rightarrow> int \<Rightarrow> int \<Rightarrow> int set \<times> ('w, 'z) tun_state_scheme \<Rightarrow> (int set \<times> ('w, 'z) tun_state_scheme) res" where
  "main_pass k fdTun maxFd Ss =
     (let (setReading, s) = Ss in
      res_bind (FD_SET (fst (g_pipe_from_plugin (gv s))) setReading) (\<lambda>setReading.
      res_bind (FD_SET fdTun setReading) (\<lambda>setReading.
        let (setReading, s) = do_select k maxFd setReading s;
            s = (if fdTun \<in> setReading then
                   let (r, s) = sys k (Read fdTun (BLOCK_SIZE - 1)) s
                   in if r_ret r \<le> 0 then s
                   else snd (sys k (Write (snd (g_pipe_to_plugin (gv s))) (got r)) s)
                 else if fst (g_pipe_from_plugin (gv s)) \<in> setReading then
                   let (r, s) = sys k (Read (fst (g_pipe_from_plugin (gv s))) BLOCK_SIZE) s
                   in if r_ret r \<le> 0 then s
                   else snd (sys k (Write fdTun (got r)) s)
                 else s)
        in Inr ({}, s))))"

definition MainLoop ::
    "'w kernel \<Rightarrow> int set \<Rightarrow> nat \<Rightarrow> ('w, 'z) tun_state_scheme \<Rightarrow> (int set \<times> ('w, 'z) tun_state_scheme) res" where
  "MainLoop k S n s =
     (let fdTun = tun_getFile s;
          maxFd = (if fdTun > fst (g_pipe_from_plugin (gv s)) then fdTun + 1
                   else fst (g_pipe_from_plugin (gv s)) + 1)
      in passes n (main_pass k fdTun maxFd) (S, s))"

subsection \<open>Command line\<close>

text \<open>\<open>Inl\<close> is the exit code of an option that ends the program.\<close>

definition bad_optarg :: "string option \<Rightarrow> bool" where
  "bad_optarg a \<longleftrightarrow> (case a of None \<Rightarrow> True | Some t \<Rightarrow> t \<noteq> [] \<and> hd t = CHR ''-'')"

definition main_option :: "string \<Rightarrow> char \<Rightarrow> string option \<Rightarrow> t_global_v \<Rightarrow> (int + t_global_v) res" where
  "main_option argv0 opt optarg g =
     (if opt = CHR ''V'' then Inr (Inl (snd ShowVersion))
      else if opt = CHR ''v'' then Inr (Inr (g\<lparr>g_verbose := 1\<rparr>))
      else if opt = CHR ''h'' then res_bind ShowHelp (\<lambda>(_, code). Inr (Inl code))
      else if opt = CHR ''d'' then
        if bad_optarg optarg then Inr (Inl (snd (UsageMsg argv0)))
        else res_bind (atoi optarg) (\<lambda>n.
          let g = g\<lparr>g_debug := sint n\<rparr>
          in if g_debug g = 0 then Inr (Inl (snd (UsageMsg argv0))) else Inr (Inr g))
      else if opt = CHR ''c'' then
        if bad_optarg optarg then Inr (Inl (snd (UsageMsg argv0)))
        else res_bind (strncpy (g_configfile g) optarg 200) (\<lambda>b. Inr (Inr (g\<lparr>g_configfile := b\<rparr>)))
      else Inr (Inl (snd (UsageMsg argv0))))"

fun main_options :: "string \<Rightarrow> (char \<times> string option) list \<Rightarrow> t_global_v \<Rightarrow> (int + t_global_v) res" where
  "main_options argv0 [] g = Inr (Inr g)"
| "main_options argv0 ((opt, optarg) # opts) g =
     res_bind (main_option argv0 opt optarg g) (\<lambda>x.
       case x of Inl code \<Rightarrow> Inr (Inl code) | Inr g \<Rightarrow> main_options argv0 opts g)"

subsection \<open>main\<close>

datatype outcome = Exited int | InMainLoop "int set"

text \<open>From the accepted command line on.\<close>

definition main_run ::
    "'w kernel \<Rightarrow> (string \<Rightarrow> string option) \<Rightarrow> int set \<Rightarrow> nat \<Rightarrow> ('w, 'z) plugin_state_scheme
      \<Rightarrow> (outcome \<times> ('w, 'z) plugin_state_scheme) res" where
  "main_run k files S n s =
     res_bind (ParseConfigFile (files (c_str (g_configfile (gv s)))) (gv s)) (\<lambda>(_, g).
       let s = s\<lparr>gv := g\<rparr> in
       res_bind (plugin_checkConfig s) (\<lambda>(rc, s).
         if rc \<noteq> 0 then Inr (Exited (- 1), s)
         else res_bind (plugin_build k s) (\<lambda>(rc, s).
           if rc \<noteq> 0 then Inr (Exited (- 1), s)
           else
             let (_, s) = plugin_start k s
             in res_bind (MainLoop k S n s) (\<lambda>(S, s). Inr (InMainLoop S, s)))))"

text \<open>Without any argument \<open>argv[0]\<close> is NULL, which is printed as such.\<close>

definition main ::
    "'w kernel \<Rightarrow> (string \<Rightarrow> string option) \<Rightarrow> string list \<Rightarrow> int set \<Rightarrow> nat
      \<Rightarrow> ('w, 'z) plugin_state_scheme \<Rightarrow> (outcome \<times> ('w, 'z) plugin_state_scheme) res" where
  "main k files argv S n s =
     (case argv of
        [] \<Rightarrow> Inr (Exited (snd (UsageMsg ''(null)'')), s)
      | argv0 # words \<Rightarrow>
          res_bind (Globals_Init (gv s)) (\<lambda>g.
          res_bind (main_options argv0 (getopt_all words) g) (\<lambda>x.
            case x of
              Inl code \<Rightarrow> Inr (Exited code, s)
            | Inr g \<Rightarrow>
                if none_str (g_configfile g) then Inr (Exited (snd (UsageMsg argv0)), s\<lparr>gv := g\<rparr>)
                else main_run k files S n (s\<lparr>gv := g\<rparr>))))"

subsection \<open>The main loop is a relay\<close>

lemma do_select_gv [frame]: "gv (snd (do_select k m S s)) = gv s"
  using do_select_effect(1) [where s = s and k = k and m = m and S = S] by (simp add: same_vars_iff)

lemma main_pass_pump:
  "main_pass k fdTun m (S, s) =
     map_sum id (\<lambda>(S, s). ({}, s)) (pump k m
       (fdTun, Read fdTun (BLOCK_SIZE - 1), Write (snd (g_pipe_to_plugin (gv s))))
       (fst (g_pipe_from_plugin (gv s)), Read (fst (g_pipe_from_plugin (gv s))) BLOCK_SIZE, Write fdTun)
       (S, s))"
  by (simp add: main_pass_def pump_def copy_def FD_SET_def Let_def split_beta do_select_gv)

text \<open>
  Its descriptors: the read end of the pipe from the plugin and the write end of the pipe to
  it; the device's descriptor is a constant of the loop.
\<close>

definition main_fds :: "('w, 'z) tun_state_scheme \<Rightarrow> int \<times> int" where
  "main_fds s = (fst (g_pipe_from_plugin (gv s)), snd (g_pipe_to_plugin (gv s)))"

definition main_routes :: "int \<Rightarrow> int \<times> int \<Rightarrow> (int \<times> int) set" where
  "main_routes fdTun fds = (let (pin, pout) = fds in {(fdTun, pout), (pin, fdTun)})"

definition main_fits :: "int \<Rightarrow> int \<times> int \<Rightarrow> bool" where
  "main_fits fdTun fds =
     (let (pin, pout) = fds in selectable pin \<and> selectable fdTun \<and> pin \<noteq> fdTun \<and> pout \<noteq> fdTun)"

lemma main_pass_is_pump:
  assumes "main_pass k fdTun m (S, s) = Inr (S', s')"
  obtains T where "pump k m (fdTun, Read fdTun (BLOCK_SIZE - 1), Write (snd (main_fds s)))
      (fst (main_fds s), Read (fst (main_fds s)) BLOCK_SIZE, Write fdTun) (S, s) = Inr (T, s')" "S' = {}"
  using assms unfolding main_pass_pump main_fds_def fst_conv snd_conv map_sum_def
  by (fastforce split: sum.splits)

lemma main_pass_effect:
  assumes "main_pass k fdTun m (S, s) = Inr (S', s')"
  shows "S' = {} \<and> same_vars s s' \<and> (\<exists>t. trace s' = trace s @ t \<and>
    pumped (Read fdTun (BLOCK_SIZE - 1), Write (snd (main_fds s))) (Read (fst (main_fds s)) BLOCK_SIZE, Write fdTun) t)"
proof -
  obtain T where "pump k m (fdTun, Read fdTun (BLOCK_SIZE - 1), Write (snd (main_fds s)))
      (fst (main_fds s), Read (fst (main_fds s)) BLOCK_SIZE, Write fdTun) (S, s) = Inr (T, s')" "S' = {}"
    by (rule main_pass_is_pump [OF assms])
  then show ?thesis
    using pump_effect by blast
qed

lemma main_pass_runs:
  assumes "main_fits fdTun (main_fds s)"
  shows "\<exists>S' s'. main_pass k fdTun m (S, s) = Inr (S', s')"
  using assms by (simp add: main_pass_def main_fits_def main_fds_def FD_SET_def selectable_def Let_def split_beta)

lemma main_pass_relays:
  assumes "main_fits fdTun (main_fds s)" "main_pass k fdTun m (S, s) = Inr (S', s')"
  shows "same_vars s s' \<and> (\<exists>t. trace s' = trace s @ t \<and> relays (main_routes fdTun (main_fds s)) t)"
proof -
  obtain t where t: "same_vars s s'" "trace s' = trace s @ t"
    "pumped (Read fdTun (BLOCK_SIZE - 1), Write (snd (main_fds s))) (Read (fst (main_fds s)) BLOCK_SIZE, Write fdTun) t"
    using main_pass_effect [OF assms(2)] by blast
  have "relays {(fdTun, snd (main_fds s)), (fst (main_fds s), fdTun)} t"
    by (rule pumped_relays [OF t(3)]) (use assms(1) in \<open>auto simp: main_fits_def\<close>)
  then show ?thesis
    using t by (auto simp: main_routes_def split_beta)
qed

interpretation main: safe_relay "main_pass k fdTun m" main_fds "main_routes fdTun" "main_fits fdTun" for k fdTun m
  by unfold_locales
    (auto simp: main_fds_def same_vars_tun main_pass_runs [unfolded main_fds_def] dest: main_pass_relays [unfolded main_fds_def])

subsection \<open>What start-up leaves behind\<close>

lemma MainLoop_keeps:
  assumes "MainLoop k S n s = Inr (S', s')"
  shows "same_vars s s' \<and> (\<exists>t. trace s' = trace s @ t)"
proof -
  have step: "same_vars u v \<and> (\<exists>t. trace v = trace u @ t)"
    if "main_pass k f m (T, u) = Inr (T', v)" for f m T T' and u v :: "('a, 'b) tun_state_scheme"
    using main_pass_effect [OF that] by blast
  have "passes n (main_pass k f m) x = Inr y \<Longrightarrow>
      same_vars s (snd x) \<and> (\<exists>t. trace (snd x) = trace s @ t) \<Longrightarrow>
      same_vars s (snd y) \<and> (\<exists>t. trace (snd y) = trace s @ t)" for f m x y
    by (erule passes_invariant [rotated]) (auto dest!: step intro: same_vars_trans)
  then show ?thesis
    using assms by (fastforce simp: MainLoop_def Let_def)
qed

definition thread_name :: "start_fn \<Rightarrow> string" where
  "thread_name f = (case f of Tcp_start \<Rightarrow> ''tcp_start'' | Sip_start \<Rightarrow> ''sip_start'')"

lemma same_vars_plugin:
  assumes "same_vars s s'"
  shows "plugin_selected f s' = plugin_selected f s" "iface_ok s' = iface_ok s" "tfd s' = tfd s"
  using assms by (cases s; cases s'; simp add: same_vars_def plugin_selected_def iface_ok_def)+

lemma main_run_phases:
  assumes "main_run k files S n s = Inr (InMainLoop S', s')"
  shows "\<exists>g s1 s2. plugin_checkConfig (s\<lparr>gv := g\<rparr>) = Inr (0, s1) \<and> plugin_build k s1 = Inr (0, s2) \<and>
    MainLoop k S n (snd (plugin_start k s2)) = Inr (S', s')"
  using assms by (fastforce simp: main_run_def Let_def split_beta split: if_splits)

lemma main_run_started:
  assumes "main_run k files S n s = Inr (InMainLoop S', s')" "posix_errno k" "short_names k" "buf_ok 100 (iface_name s)"
  shows "\<exists>f. plugin_selected f s' \<and> PthreadCreate (thread_name f) \<in> set (map fst (trace s')) \<and> iface_ok s' \<and> 0 \<le> tfd s'"
proof -
  obtain g s1 s2 where p: "plugin_checkConfig (s\<lparr>gv := g\<rparr>) = Inr (0, s1)" "plugin_build k s1 = Inr (0, s2)"
    and l: "MainLoop k S n (snd (plugin_start k s2)) = Inr (S', s')"
    using main_run_phases [OF assms(1)] by blast
  obtain f where f: "plugin_selected f s1" "iface_name s1 = iface_name s"
    using plugin_checkConfig_result [OF p(1)] by auto
  have s2: "plugin_selected f s2" "iface_ok s2" "0 \<le> tfd s2"
    using plugin_build_result [OF p(2) f(1) assms(2,3)] assms(4) f(2) by auto
  have s3: "snd (plugin_start k s2) = snd (sys k (PthreadCreate (thread_name f)) s2)"
    using s2(1) by (simp add: plugin_start_def plugin_selected_def thread_name_def Let_def split_beta)
  have v: "same_vars s2 s'" "\<exists>t. trace s' = trace s2 @ (PthreadCreate (thread_name f), fst (sys k (PthreadCreate (thread_name f)) s2)) # t"
    using MainLoop_keeps [OF l]
      same_vars_trans [OF same_vars_sys [where s = s2 and k = k and c = "PthreadCreate (thread_name f)"]]
    by (auto simp: s3 sys_trace)
  show ?thesis
    using s2 same_vars_plugin [OF v(1)] v(2) by auto
qed

subsection \<open>Properties\<close>

text \<open>
  C16. The main loop, for any number of passes and whatever the kernel answers: it stays in
  defined behaviour, changes no variable, and forwards exactly: the bytes written to the
  plugin's pipe are the bytes read from the device, the bytes written to the device are the
  bytes read from the plugin's pipe, in order, none added, dropped or changed.
\<close>

lemma main_loop_forwards:
  assumes "main_fds s = (pin, pout)" "main_fits (tfd s) (pin, pout)"
  shows "\<exists>S' s' new. MainLoop k S n s = Inr (S', s') \<and> same_vars s s' \<and> trace s' = trace s @ new \<and>
    submitted pout new = received (tfd s) new \<and> submitted (tfd s) new = received pin new"
  using main.thread [where s = s and k = k and n = n and S = S and fdTun = "tfd s" and
      m = "if tfd s > fst (g_pipe_from_plugin (gv s)) then tfd s + 1 else fst (g_pipe_from_plugin (gv s)) + 1"] assms
  by (simp add: MainLoop_def tun_getFile_def Let_def relays_def main_routes_def)

definition main_example :: "'w \<Rightarrow> 'w plugin_state" where
  "main_example w = sip_state.extend (sip_example w) (plugin_state.fields None None None None None None)"

lemma main_loop_forwards_witness:
  "\<exists>S' s' new. MainLoop script_kernel {} 3 ((main_example [reply_ready {9}, reply_bytes [1, 2], reply_ok 2])\<lparr>tfd := 9\<rparr>)
     = Inr (S', s') \<and> trace s' = new \<and> submitted 6 new = received 9 new \<and> submitted 9 new = received 3 new"
proof -
  let ?s = "(main_example [reply_ready {9}, reply_bytes [1, 2], reply_ok 2])\<lparr>tfd := 9\<rparr>"
  have "main_fds ?s = (3, 6)" "main_fits (tfd ?s) (3, 6)" "trace ?s = []"
    by (simp_all add: main_fds_def main_example_def sip_state.extend_def plugin_state.fields_def sip_example_def
        tcp_state.extend_def sip_state.fields_def tcp_start_state_def example_globals_def main_fits_def selectable_def
        FD_SETSIZE_def)
  with main_loop_forwards [OF this(1,2), of script_kernel "{}" 3] show ?thesis
    by auto
qed

subsection \<open>Booting the shipped server configuration\<close>

text \<open>The program as it is loaded, and a kernel whose calls all succeed.\<close>

definition program_start :: "'w \<Rightarrow> 'w plugin_state" where
  "program_start w = (main_example w)\<lparr>gv := global_v_zero\<rparr>"

definition calls_succeed :: "'w kernel \<Rightarrow> bool" where
  "calls_succeed k \<longleftrightarrow>
     (\<forall>w. r_ret (fst (k Pipe w)) = 0) \<and> (\<forall>c w. c \<noteq> Pipe \<longrightarrow> 0 < r_ret (fst (k c w)))"

lemma calls_succeedD:
  "calls_succeed k \<Longrightarrow> r_ret (fst (sys k Pipe s)) = 0"
  "\<lbrakk>calls_succeed k; c \<noteq> Pipe\<rbrakk> \<Longrightarrow> 0 < r_ret (fst (sys k c s))"
  by (auto simp: calls_succeed_def sys_reply)

lemma parse_shows:
  assumes "plain_lines ls" "run_shows ls ks vs" "wf_globals g0" "view g0 = view globals_init"
  shows "\<exists>g. ParseConfigFile (Some (unlines ls)) g0 = Inr (0, g) \<and> map (view g) ks = vs"
proof -
  have sq: "spec_run ls (view globals_init) = map_sum id (map_prod id view) (ParseConfigFile (Some (unlines ls)) g0)"
    unfolding assms(4) [symmetric] using assms(1)
    by (intro ParseConfigFile_square [symmetric] assms(3)) (simp add: plain_lines_def list_all_iff)
  then show ?thesis
    using assms(2) unfolding run_shows_def sq
    by (cases "ParseConfigFile (Some (unlines ls)) g0") auto
qed

lemma configfile_option:
  assumes "wf_globals g0" "name \<noteq> []" "hd name \<noteq> CHR ''-''" "NUL \<notin> set name" "length name \<le> 200"
  shows "\<exists>g. main_options argv0 [(CHR ''c'', Some name)] g0 = Inr (Inr g) \<and> c_str (g_configfile g) = name
    \<and> wf_globals g \<and> view g = view g0 \<and> g_debug g = g_debug g0"
proof -
  have ok: "buf_ok 200 (g_configfile g0)"
    using assms(1) by (simp add: wf_globals_def)
  obtain b where b: "strncpy (g_configfile g0) (Some name) 200 = Inr b"
    using strncpy_total [OF ok] by auto
  have "c_str b = name"
    using c_str_strncpy [OF assms(4) ok b] assms(5) by simp
  moreover have "buf_ok 200 b"
    using strncpy_buf_ok [OF ok _ b] by simp
  ultimately show ?thesis
    using b assms(1-3)
    by (auto simp: main_option_def bad_optarg_def wf_globals_def view_def fun_eq_iff split: setting.splits)
qed

lemma tun_open_succeeds:
  assumes "calls_succeed k" "buf_ok 100 (iface_name s)"
  shows "\<exists>s1. tun_open k s = Inr (0, s1)"
proof -
  have nn: "\<not> r_ret (fst (sys k c t)) < 0" if "c \<noteq> Pipe" for c and t :: "('a, 'b) tun_state_scheme"
    using calls_succeedD(2) [OF assms(1) that, of t] by simp
  show ?thesis
    using strncpy_total [OF assms(2) order_refl]
    by (simp add: tun_open_def tun_alloc_def Let_def split_beta nn)
qed

text \<open>What the build of the TCP server calls when every call succeeds.\<close>

lemma tcp_build_server_succeeds:
  assumes "calls_succeed k" "buf_ok 100 (iface_name s)" "g_mode (gv s) = SERVER_MODE"
  shows "\<exists>s' fd. tcp_build k s = Inr (0, s') \<and> g_mode (gv s') = SERVER_MODE \<and> socketServer s' = fd \<and>
    Bind fd 0 (ucast (g_local_port (gv s))) \<in> set (map fst (trace s')) \<and> Listen fd 1 \<in> set (map fst (trace s'))
    \<and> tcp_state.more s' = tcp_state.more s"
proof -
  obtain s1 where s1: "tun_open k s = Inr (0, s1)"
    using tun_open_succeeds [OF assms(1,2)] by blast
  note g = tun_open_keeps [OF s1] tun_open_more [OF s1]
  have nn: "r_ret (fst (sys k c t)) \<noteq> - 1" if "c \<noteq> Pipe" for c and t :: "('a, 'b) tcp_state_scheme"
    using calls_succeedD(2) [OF assms(1) that, of t] by simp
  show ?thesis
    using g assms(3)
    by (simp add: tcp_build_def s1 tcp_buildServer_def Let_def split_beta nn sys_trace INADDR_ANY_def)
qed

lemma plugin_build_server_succeeds:
  assumes "calls_succeed k" "plugin_selected Tcp_start s" "buf_ok 100 (iface_name s)" "g_mode (gv s) = SERVER_MODE"
  shows "\<exists>s' fd. plugin_build k s = Inr (0, s') \<and> plugin_selected Tcp_start s' \<and> g_mode (gv s') = SERVER_MODE \<and>
    socketServer s' = fd \<and> Bind fd 0 (ucast (g_local_port (gv s))) \<in> set (map fst (trace s')) \<and>
    Listen fd 1 \<in> set (map fst (trace s'))"
proof -
  define t where "t = (snd (sys k Pipe s))\<lparr>gv := (gv s)\<lparr>g_pipe_from_plugin := r_pipe (fst (sys k Pipe s))\<rparr>\<rparr>"
  define s1 where "s1 = (snd (sys k Pipe t))\<lparr>gv := (gv t)\<lparr>g_pipe_to_plugin := r_pipe (fst (sys k Pipe t))\<rparr>\<rparr>"
  have e: "plugin_build k s = res_bind (call_build (active_plugin_build s1) k s1) (\<lambda>(rc, s). if rc \<noteq> 0 then Inr (- 1, s) else Inr (0, s))"
    using calls_succeedD(1) [OF assms(1), of s] calls_succeedD(1) [OF assms(1), of t]
    by (simp add: plugin_build_def Let_def split_beta s1_def t_def)
  have s1: "tcp_state.more s1 = tcp_state.more s" "iface_name s1 = iface_name s" "g_mode (gv s1) = SERVER_MODE"
    "g_local_port (gv s1) = g_local_port (gv s)"
    using assms(4) by (simp_all add: s1_def t_def)
  have b: "active_plugin_build s1 = Some Tcp_build"
    using assms(2) same_device_selected [OF s1(1)] by (simp add: plugin_selected_def)
  obtain s' fd where "tcp_build k s1 = Inr (0, s')" "g_mode (gv s') = SERVER_MODE" "socketServer s' = fd"
    "Bind fd 0 (ucast (g_local_port (gv s))) \<in> set (map fst (trace s'))" "Listen fd 1 \<in> set (map fst (trace s'))"
    "tcp_state.more s' = tcp_state.more s1"
    using tcp_build_server_succeeds [OF assms(1), of s1] assms(3) s1 by auto
  then show ?thesis
    using e b s1(1) same_device_selected [of s' s] assms(2) by (simp add: plugin_selected_def)
qed

text \<open>From the command line to the check of the plugin's parameters.\<close>

lemma main_options_parse:
  assumes "main_options prog (getopt_all ws) globals_init = Inr (Inr g)" "c_str (g_configfile g) = name"
    "wf_globals g" "view g = view globals_init"
    and "files name = Some (unlines ls)" "plain_lines ls" "run_shows ls ks vs" "\<not> prefix ''none'' name"
  shows "\<exists>g'. map (view g') ks = vs \<and> g_debug g' = g_debug g \<and> main k files (prog # ws) S n (program_start w) =
    res_bind (plugin_checkConfig ((program_start w)\<lparr>gv := g'\<rparr>)) (\<lambda>(rc, s).
      if rc \<noteq> 0 then Inr (Exited (- 1), s)
      else res_bind (plugin_build k s) (\<lambda>(rc, s).
        if rc \<noteq> 0 then Inr (Exited (- 1), s)
        else
          let (_, s) = plugin_start k s
          in res_bind (MainLoop k S n s) (\<lambda>(S, s). Inr (InMainLoop S, s))))"
proof -
  have start: "gv (program_start w) = global_v_zero"
    by (simp add: program_start_def)
  obtain g' where g': "ParseConfigFile (Some (unlines ls)) g = Inr (0, g')" "map (view g') ks = vs"
    using parse_shows [OF assms(6,7,3,4)] by blast
  have nn: "\<not> none_str (g_configfile g)"
    using assms(2,8) strncmp_eq_prefix [of name "''none''"] by (simp add: none_str_def)
  show ?thesis
    using nn g' ParseConfigFile_debug [OF g'(1)] assms(1,2,5)
    by (intro exI [of _ g']) (simp add: main_def start Globals_Init_zero main_run_def Let_def)
qed

lemma main_parses:
  assumes "files name = Some (unlines ls)" "config_words name ws" "plain_lines ls" "run_shows ls ks vs"
    and "\<not> prefix ''none'' name" "name \<noteq> []" "hd name \<noteq> CHR ''-''" "NUL \<notin> set name" "length name \<le> 200"
  shows "\<exists>g. map (view g) ks = vs \<and> main k files (prog # ws) S n (program_start w) =
    res_bind (plugin_checkConfig ((program_start w)\<lparr>gv := g\<rparr>)) (\<lambda>(rc, s).
      if rc \<noteq> 0 then Inr (Exited (- 1), s)
      else res_bind (plugin_build k s) (\<lambda>(rc, s).
        if rc \<noteq> 0 then Inr (Exited (- 1), s)
        else
          let (_, s) = plugin_start k s
          in res_bind (MainLoop k S n s) (\<lambda>(S, s). Inr (InMainLoop S, s))))"
proof -
  obtain g where g: "main_options prog [(CHR ''c'', Some name)] globals_init = Inr (Inr g)" "c_str (g_configfile g) = name"
    "wf_globals g" "view g = view globals_init"
    using configfile_option [OF wf_globals_init assms(6-9)] by blast
  have "main_options prog (getopt_all ws) globals_init = Inr (Inr g)"
    using config_words_option [OF assms(2), of "[]"] g(1) by (simp only: append_Nil2 getopt_all_Nil)
  from main_options_parse [where files = files and k = k and S = S and n = n and w = w, OF this g(2-4) assms(1,3-5)]
  show ?thesis by blast
qed

lemma tcp_check_selects:
  assumes "c_str (g_plugin_name g) = ''tcp''" "fst (tcp_checkParameters (g\<lparr>g_plugin := TCP_PLUGIN\<rparr>)) = 0"
  shows "\<exists>s'. plugin_checkConfig (s\<lparr>gv := g\<rparr>) = Inr (0, s') \<and> plugin_selected Tcp_start s' \<and>
    gv s' = g\<lparr>g_plugin := TCP_PLUGIN\<rparr> \<and> iface_name s' = iface_name s \<and> world s' = world s \<and> trace s' = trace s \<and>
    plugindata s' = plugindata s"
  using assms by (simp add: plugin_checkConfig_def plugin_selected_def tcp_getters Let_def)

lemma plugin_start_selected:
  "plugin_selected f s \<Longrightarrow> plugin_start k s = (0, snd (sys k (PthreadCreate (thread_name f)) s))"
  by (simp add: plugin_start_def plugin_selected_def thread_name_def Let_def split_beta)

lemma program_start_fields:
  "gv (program_start w) = global_v_zero" "buf_ok 100 (iface_name (program_start w))" "world (program_start w) = w"
  "trace (program_start w) = []" "plugindata (program_start w) = plugindata_zero"
  by (simp_all add: program_start_def main_example_def sip_state.extend_def plugin_state.fields_def sip_example_def
      tcp_state.extend_def sip_state.fields_def tcp_start_state_def buf_ok_zero)

lemma server_boots:
  assumes "calls_succeed k" "files name = Some (unlines test_config_server)" "config_words name ws"
    and "\<not> prefix ''none'' name" "name \<noteq> []" "hd name \<noteq> CHR ''-''" "NUL \<notin> set name" "length name \<le> 200"
  shows "\<exists>s' fd. main k files (argv0 # ws) S 0 (program_start w) = Inr (InMainLoop S, s') \<and>
    g_mode (gv s') = SERVER_MODE \<and> socketServer s' = fd \<and>
    {Bind fd 0 3005, Listen fd 1, PthreadCreate ''tcp_start''} \<subseteq> set (map fst (trace s'))"
proof -
  have r: "run_shows test_config_server [Mode, PluginName, LocalPort, LocalIp, RemoteIp]
      [ModeNo 0, Text ''tcp'', Port 3005, Text ''10.200.200.2'', Text ''10.200.200.1'']"
    by code_simp
  have p: "plain_lines test_config_server"
    by code_simp
  from main_parses [where files = files and name = name and k = k and w = w and prog = argv0 and S = S and n = 0, OF assms(2,3) p r assms(4-8)]
  obtain g where g: "map (view g) [Mode, PluginName, LocalPort, LocalIp, RemoteIp]
      = [ModeNo 0, Text ''tcp'', Port 3005, Text ''10.200.200.2'', Text ''10.200.200.1'']"
    and run: "main k files (argv0 # ws) S 0 (program_start w) =
    res_bind (plugin_checkConfig ((program_start w)\<lparr>gv := g\<rparr>)) (\<lambda>(rc, s).
      if rc \<noteq> 0 then Inr (Exited (- 1), s)
      else res_bind (plugin_build k s) (\<lambda>(rc, s).
        if rc \<noteq> 0 then Inr (Exited (- 1), s)
        else
          let (_, s) = plugin_start k s
          in res_bind (MainLoop k S 0 s) (\<lambda>(S, s). Inr (InMainLoop S, s))))"
    by (elim exE conjE) (rule that)
  from g have v: "g_mode g = 0" "c_str (g_plugin_name g) = ''tcp''" "g_local_port g = 3005"
    "c_str (g_local_ip g) = ''10.200.200.2''" "c_str (g_remote_ip g) = ''10.200.200.1''"
    by (simp_all add: view_def)
  have chk: "fst (tcp_checkParameters (g\<lparr>g_plugin := TCP_PLUGIN\<rparr>)) = 0"
    using v by (simp add: tcp_checkParameters_def tcp_checkMode_def tcp_checkLocalPort_def tcp_checkLocalIP_def
        tcp_checkRemoteIP_def none_str_def global_consts)
  obtain s1 where s1: "plugin_checkConfig ((program_start w)\<lparr>gv := g\<rparr>) = Inr (0, s1)" "plugin_selected Tcp_start s1"
    "gv s1 = g\<lparr>g_plugin := TCP_PLUGIN\<rparr>" "iface_name s1 = iface_name (program_start w)"
    using tcp_check_selects [OF v(2) chk, of "program_start w"] by blast
  have "g_mode (gv s1) = SERVER_MODE" "g_local_port (gv s1) = 3005" "buf_ok 100 (iface_name s1)"
    using v by (simp_all add: s1(3,4) program_start_fields(2) global_consts)
  then obtain s2 fd where s2: "plugin_build k s1 = Inr (0, s2)" "plugin_selected Tcp_start s2"
    "g_mode (gv s2) = SERVER_MODE" "socketServer s2 = fd" "Bind fd 0 3005 \<in> set (map fst (trace s2))"
    "Listen fd 1 \<in> set (map fst (trace s2))"
    using plugin_build_server_succeeds [OF assms(1) s1(2)] by auto
  have "main k files (argv0 # ws) S 0 (program_start w)
      = Inr (InMainLoop S, snd (sys k (PthreadCreate ''tcp_start'') s2))"
    by (simp add: run s1(1) s2(1) plugin_start_selected [OF s2(2)] thread_name_def MainLoop_def Let_def)
  then show ?thesis
    using s2 by (simp add: sys_trace)
qed


definition boot_kernel :: "unit kernel" where
  "boot_kernel c w =
     (case c of Pipe \<Rightarrow> ((reply_ok 0)\<lparr>r_pipe := (3, 4)\<rparr>, w) | _ \<Rightarrow> (reply_ok 7, w))"

lemma boot_kernel_succeeds: "calls_succeed boot_kernel"
  by (auto simp: calls_succeed_def boot_kernel_def reply_ok_def split: xcall.split)

definition server_files :: "string \<Rightarrow> string option" where
  "server_files name = (if name = ''vpn.conf'' then Some (unlines test_config_server) else None)"


lemma main_reaches_run:
  assumes "main k files argv S n s = Inr (InMainLoop S', s')"
  shows "\<exists>g. main_run k files S n (s\<lparr>gv := g\<rparr>) = Inr (InMainLoop S', s')"
proof (cases argv)
  case Nil
  then show ?thesis using assms(1) by (simp add: main_def)
next
  case (Cons argv0 words)
  then obtain x where "(case x of Inl code \<Rightarrow> Inr (Exited code, s)
    | Inr g \<Rightarrow> if none_str (g_configfile g) then Inr (Exited (snd (UsageMsg argv0)), s\<lparr>gv := g\<rparr>)
        else main_run k files S n (s\<lparr>gv := g\<rparr>)) = Inr (InMainLoop S', s')"
    using assms(1) by (auto simp: main_def)
  then show ?thesis
    by (cases x) (auto split: if_splits)
qed



end
