(* ===== verification/Queues.thy ===== *)
theory Queues
  imports Relay
begin

section \<open>Queues between two devices\<close>

text \<open>
  The abstract view of a tunnel: ten queues of bytes, five for each direction, and steps that
  move bytes from one queue to the next. What the environment (devices, pipes, connections) does
  is stated as laws on a kernel and the queues, with the documented behaviour of the calls: a
  read takes the first bytes of a queue, a write adds to the end of one. Two locales say when a
  system of threads moves bytes and when it gets them all through, whatever the transport.
\<close>

subsection \<open>Queues\<close>

datatype side = Client | Server

datatype place = Tap_in | To_plugin | Wire | From_plugin | Tap_out

fun other :: "side \<Rightarrow> side" where
  "other Client = Server"
| "other Server = Client"

lemma other_other [simp]: "other (other h) = h" "other h \<noteq> h" "h \<noteq> other h"
  by (cases h; simp)+

fun onward :: "place \<Rightarrow> place" where
  "onward Tap_in = To_plugin"
| "onward To_plugin = Wire"
| "onward Wire = From_plugin"
| "onward From_plugin = Tap_out"
| "onward Tap_out = Tap_out"

text \<open>The places in the order in which bytes pass them.\<close>

fun rank :: "place \<Rightarrow> nat" where
  "rank Tap_in = 0"
| "rank To_plugin = 1"
| "rank Wire = 2"
| "rank From_plugin = 3"
| "rank Tap_out = 4"

lemma rank_inject: "rank p = rank p' \<Longrightarrow> p = p'"
  by (cases p; cases p') simp_all

instantiation place :: linorder
begin

definition less_eq_place :: "place \<Rightarrow> place \<Rightarrow> bool" where
  "less_eq_place p p' \<longleftrightarrow> rank p \<le> rank p'"

definition less_place :: "place \<Rightarrow> place \<Rightarrow> bool" where
  "less_place p p' \<longleftrightarrow> rank p < rank p'"

instance
  by standard (auto simp: less_eq_place_def less_place_def intro: rank_inject)

end

lemma less_onward: "p \<noteq> Tap_out \<Longrightarrow> p < onward p"
  by (cases p) (simp_all add: less_place_def)

text \<open>\<open>Q d p\<close>: the bytes that came from host \<open>d\<close> and are at \<open>p\<close>, oldest first.\<close>

type_synonym queues = "side \<Rightarrow> place \<Rightarrow> byte list"

definition put :: "side \<Rightarrow> place \<Rightarrow> byte list \<Rightarrow> queues \<Rightarrow> queues" where
  "put d p bs Q = Q(d := (Q d)(p := bs))"

definition move :: "side \<Rightarrow> place \<Rightarrow> nat \<Rightarrow> queues \<Rightarrow> queues" where
  "move d p j Q = put d (onward p) (Q d (onward p) @ take j (Q d p)) (put d p (drop j (Q d p)) Q)"

inductive hop :: "queues \<Rightarrow> queues \<Rightarrow> bool" where
  hop: "\<lbrakk>p \<noteq> Tap_out; 0 < j; j \<le> length (Q d p)\<rbrakk> \<Longrightarrow> hop Q (move d p j Q)"

inductive_cases hopE: "hop Q Q'"

text \<open>All bytes of a direction, the ones farthest along first.\<close>

definition stream :: "queues \<Rightarrow> side \<Rightarrow> byte list" where
  "stream Q d = Q d Tap_out @ Q d From_plugin @ Q d Wire @ Q d To_plugin @ Q d Tap_in"

definition distance_of :: "queues \<Rightarrow> side \<Rightarrow> nat" where
  "distance_of Q d = 4 * length (Q d Tap_in) + 3 * length (Q d To_plugin) + 2 * length (Q d Wire) + length (Q d From_plugin)"

definition distance :: "queues \<Rightarrow> nat" where
  "distance Q = distance_of Q Client + distance_of Q Server"

lemma stream_move: "p \<noteq> Tap_out \<Longrightarrow> stream (move d p j Q) e = stream Q e"
  by (cases p) (auto simp: stream_def move_def put_def)

lemma hop_stream: "hop Q Q' \<Longrightarrow> stream Q' d = stream Q d"
  by (auto simp: stream_move elim!: hopE)

lemma distance_move:
  assumes "p \<noteq> Tap_out" "0 < j" "j \<le> length (Q d p)"
  shows "distance (move d p j Q) < distance Q"
proof -
  have "distance_of (move d p j Q) d < distance_of Q d"
    using assms by (cases p) (auto simp: distance_of_def move_def put_def)
  moreover have "distance_of (move d p j Q) e = distance_of Q e" if "e \<noteq> d" for e
    using that by (simp add: distance_of_def move_def put_def)
  ultimately show ?thesis
    by (cases d) (auto simp: distance_def)
qed

lemma hop_distance: "hop Q Q' \<Longrightarrow> distance Q' < distance Q"
  by (auto simp: distance_move elim!: hopE)

text \<open>Hops end.\<close>

lemma hop_wf: "wfP (\<lambda>Q' Q. hop Q Q')"
  by (rule wfp_if_convertible_to_nat [of _ distance]) (rule hop_distance)

lemma arrived:
  assumes "distance Q = 0"
  shows "Q d Tap_out = stream Q d"
  using assms by (cases d) (auto simp: distance_def distance_of_def stream_def)

lemma under_way:
  assumes "distance Q \<noteq> 0"
  shows "\<exists>d p. p \<noteq> Tap_out \<and> Q d p \<noteq> []"
proof (rule ccontr)
  assume "\<not> ?thesis"
  then have "Q d p = []" if "p \<noteq> Tap_out" for d p
    using that by blast
  then show False
    using assms by (simp add: distance_def distance_of_def)
qed

subsection \<open>What the environment does\<close>

text \<open>
  \<open>takes\<close>: a call of the program returns the first bytes of the queue, and they are gone from it;
  \<open>gives\<close>: the call adds its bytes to the end of the queue; \<open>waits\<close>: \<open>select\<close> touches
  no queue. \<open>q\<close> reads the queues off the outside world.
\<close>

definition takes :: "'w kernel \<Rightarrow> ('w \<Rightarrow> queues) \<Rightarrow> xcall \<Rightarrow> side \<Rightarrow> place \<Rightarrow> bool" where
  "takes k q rd d p \<longleftrightarrow>
     (\<forall>w. let (r, w') = k rd w; j = length (got r) in
        j \<le> length (q w d p) \<and> got r = take j (q w d p) \<and> q w' = put d p (drop j (q w d p)) (q w))"

definition gives :: "'w kernel \<Rightarrow> ('w \<Rightarrow> queues) \<Rightarrow> (byte list \<Rightarrow> xcall) \<Rightarrow> side \<Rightarrow> place \<Rightarrow> bool" where
  "gives k q wr d p \<longleftrightarrow> (\<forall>bs w. q (snd (k (wr bs) w)) = put d p (q w d p @ bs) (q w))"

definition waits :: "'w kernel \<Rightarrow> ('w \<Rightarrow> queues) \<Rightarrow> bool" where
  "waits k q \<longleftrightarrow> (\<forall>m S w. q (snd (k (Select m S) w)) = q w)"

text \<open>
  For progress: \<open>select\<close> succeeds and reports a descriptor it was given exactly when there is
  something to read, and a read of a queue that is not empty returns something.
\<close>

definition offers :: "'w kernel \<Rightarrow> ('w \<Rightarrow> queues) \<Rightarrow> int \<Rightarrow> xcall \<Rightarrow> side \<Rightarrow> place \<Rightarrow> bool" where
  "offers k q fd rd d p \<longleftrightarrow>
     (\<forall>m S w. 0 \<le> r_ret (fst (k (Select m S) w)) \<and>
        (fd \<in> S \<and> fd < m \<longrightarrow> (fd \<in> r_ready (fst (k (Select m S) w)) \<longleftrightarrow> q w d p \<noteq> []))) \<and>
     (\<forall>w. q w d p \<noteq> [] \<longrightarrow> got (fst (k rd w)) \<noteq> [])"

subsection \<open>A pass is a hop\<close>

lemma put_same [simp]: "put d p (Q d p) Q = Q"
  by (simp add: put_def)

lemma copy_moves:
  assumes "takes k q rd d p" "gives k q wr d (onward p)" "p \<noteq> Tap_out"
  shows "\<exists>j. q (world (copy k rd wr s)) = move d p j (q (world s)) \<and> j \<le> length (q (world s) d p) \<and>
    j = length (got (fst (k rd (world s))))"
proof -
  obtain r w where k: "k rd (world s) = (r, w)"
    by fastforce
  define j where "j = length (got r)"
  have j: "j \<le> length (q (world s) d p)" "got r = take j (q (world s) d p)" "q w = put d p (drop j (q (world s) d p)) (q (world s))"
    using assms(1) [unfolded takes_def, rule_format, of "world s"] by (simp_all add: k j_def Let_def)
  have o: "onward p \<noteq> p"
    using less_onward [OF assms(3)] by simp
  have g: "q (snd (k (wr bs) v)) = put d (onward p) (q v d (onward p) @ bs) (q v)" for bs v
    using assms(2) by (simp add: gives_def)
  have "q (world (copy k rd wr s)) = move d p j (q (world s))"
  proof (cases "r_ret r \<le> 0")
    case True
    then have "j = 0" by (simp add: j_def)
    then show ?thesis
      using True j(3) by (simp add: copy_def Let_def split_beta sys_reply sys_world k move_def)
  next
    case False
    have "world (copy k rd wr s) = snd (k (wr (got r)) w)"
      using False by (simp add: copy_def Let_def split_beta sys_reply sys_world k)
    then show ?thesis
      using j(2,3) o by (simp add: g move_def put_def)
  qed
  then show ?thesis
    using j(1) k by (auto simp: j_def)
qed

lemma copy_world:
  assumes "got (fst (k rd (world s))) \<noteq> []"
  shows "world (copy k rd wr s) = snd (k (wr (got (fst (k rd (world s))))) (snd (k rd (world s))))"
proof -
  have "0 < r_ret (fst (k rd (world s)))"
    using assms got_failed by (metis not_less)
  then show ?thesis
    by (simp add: copy_def Let_def split_beta sys_reply sys_world)
qed

lemma move_0: "move d p 0 Q = Q"
  by (simp add: move_def)

lemma copy_hops:
  assumes "takes k q rd d p" "gives k q wr d (onward p)" "p \<noteq> Tap_out"
  shows "hop\<^sup>=\<^sup>= (q (world s)) (q (world (copy k rd wr s)))"
    and "got (fst (k rd (world s))) \<noteq> [] \<Longrightarrow> hop (q (world s)) (q (world (copy k rd wr s)))"
  using copy_moves [OF assms, of s] assms(3)
  by (auto simp: move_0 intro: hop.intros)

text \<open>The same for a pass over two sources.\<close>

definition leg :: "'w kernel \<Rightarrow> ('w \<Rightarrow> queues) \<Rightarrow> xcall \<Rightarrow> (byte list \<Rightarrow> xcall) \<Rightarrow> side \<Rightarrow> place \<Rightarrow> bool" where
  "leg k q rd wr d p \<longleftrightarrow> takes k q rd d p \<and> gives k q wr d (onward p) \<and> p \<noteq> Tap_out"

lemma world_select: "waits k q \<Longrightarrow> q (world (snd (do_select k m S s))) = q (world s)"
  by (simp add: do_select_def Let_def split_beta sys_world waits_def)

lemma pump_hops:
  assumes "leg k q ra wa d1 p1" "leg k q rb wb d2 p2" "waits k q"
    and "pump k m (a, ra, wa) (b, rb, wb) (S, s) = Inr (S', s')"
  shows "hop\<^sup>=\<^sup>= (q (world s)) (q (world s'))"
proof -
  obtain T where T: "s' = (let (T', t) = do_select k m T s in
      if a \<in> T' then copy k ra wa t else if b \<in> T' then copy k rb wb t else t)"
    by (rule pump_run [OF assms(4)])
  show ?thesis
    using copy_hops(1) [of k q ra d1 p1 wa "snd (do_select k m T s)"]
      copy_hops(1) [of k q rb d2 p2 wb "snd (do_select k m T s)"] assms(1,2)
    by (simp add: T Let_def split_beta leg_def world_select [OF assms(3)])
qed

text \<open>When select tells the truth, a pass serves the first source, and the second if the first is empty.\<close>

lemma pump_serves:
  assumes "pump k m (a, ra, wa) (b, rb, wb) (S, s) = Inr (S', s')"
    and "offers k q a ra d1 p1" "offers k q b rb d2 p2" "a < m" "b < m"
  obtains T where "s' = (let t = snd (do_select k m T s) in
    if q (world s) d1 p1 \<noteq> [] then copy k ra wa t else if q (world s) d2 p2 \<noteq> [] then copy k rb wb t else t)"
proof -
  let ?T = "insert a (insert b S)"
  have "a \<in> fst (do_select k m ?T s) \<longleftrightarrow> q (world s) d1 p1 \<noteq> []" "b \<in> fst (do_select k m ?T s) \<longleftrightarrow> q (world s) d2 p2 \<noteq> []"
    using assms(2-5) by (simp_all add: do_select_def Let_def split_beta sys_reply offers_def not_less [symmetric])
  then have "s' = (let t = snd (do_select k m ?T s) in
      if q (world s) d1 p1 \<noteq> [] then copy k ra wa t else if q (world s) d2 p2 \<noteq> [] then copy k rb wb t else t)"
    using assms(1) by (auto simp: pump_def FD_SET_def Let_def split_beta split: if_splits)
  then show ?thesis by (rule that)
qed

lemma pump_progress:
  assumes "leg k q ra wa d1 p1" "leg k q rb wb d2 p2" "waits k q"
    and "pump k m (a, ra, wa) (b, rb, wb) (S, s) = Inr (S', s')"
    and "offers k q a ra d1 p1" "offers k q b rb d2 p2" "a < m" "b < m"
    and "q (world s) d1 p1 \<noteq> [] \<or> q (world s) d2 p2 \<noteq> []"
  shows "hop (q (world s)) (q (world s'))"
proof -
  obtain T where s': "s' = (let t = snd (do_select k m T s) in
      if q (world s) d1 p1 \<noteq> [] then copy k ra wa t else if q (world s) d2 p2 \<noteq> [] then copy k rb wb t else t)"
    by (rule pump_serves [OF assms(4-8)])
  have "q (world (snd (do_select k m T s))) = q (world s)"
    by (rule world_select [OF assms(3)])
  then show ?thesis
    using assms(1,2,5,6,9) copy_hops(2) [of k q ra d1 p1 wa "snd (do_select k m T s)"]
      copy_hops(2) [of k q rb d2 p2 wb "snd (do_select k m T s)"]
    by (auto simp: s' leg_def offers_def Let_def)
qed

subsection \<open>Systems that move bytes\<close>

text \<open>
  A system is given by the pass of each thread; a step is a pass of any thread, a run a schedule
  of passes.
\<close>

inductive sys_step :: "('th \<Rightarrow> 'n \<Rightarrow> 'n res) \<Rightarrow> 'n \<Rightarrow> 'n \<Rightarrow> bool" for pass :: "'th \<Rightarrow> 'n \<Rightarrow> 'n res" where
  step: "pass th n = Inr n' \<Longrightarrow> sys_step pass n n'"

inductive_simps sys_step_iff: "sys_step pass n n'"

fun run_passes :: "('th \<Rightarrow> 'n \<Rightarrow> 'n res) \<Rightarrow> 'th list \<Rightarrow> 'n \<Rightarrow> 'n res" where
  "run_passes pass [] n = Inr n"
| "run_passes pass (th # ths) n = res_bind (pass th n) (run_passes pass ths)"

lemma run_passes_append: "run_passes pass (xs @ ys) n = res_bind (run_passes pass xs n) (run_passes pass ys)"
  by (induction xs arbitrary: n) (auto simp: res_bind_assoc intro!: res_bind_cong)

lemma run_passes_reachable: "run_passes pass ths n = Inr n' \<Longrightarrow> (sys_step pass)\<^sup>*\<^sup>* n n'"
  by (induction ths arbitrary: n) (auto intro: converse_rtranclp_into_rtranclp sys_step.step)

text \<open>
  \<open>queue_system\<close>: from good states every pass is a hop of the queues or leaves them alone, and
  leads to a good state. Every run then conserves the bytes of each direction.
\<close>

locale queue_system =
  fixes pass :: "'th \<Rightarrow> 'n \<Rightarrow> 'n res"
    and content :: "'n \<Rightarrow> queues"
    and good :: "'n \<Rightarrow> bool"
  assumes pass_moves: "\<lbrakk>good n; pass th n = Inr n'\<rbrakk> \<Longrightarrow> good n' \<and> hop\<^sup>=\<^sup>= (content n) (content n')"
begin

lemma reachable_good:
  "\<lbrakk>(sys_step pass)\<^sup>*\<^sup>* n n'; good n\<rbrakk> \<Longrightarrow> good n' \<and> hop\<^sup>*\<^sup>* (content n) (content n')"
proof (induction rule: rtranclp_induct)
  case (step m n')
  then obtain th where p: "pass th m = Inr n'"
    by (auto simp: sys_step_iff)
  have g: "good m" "hop\<^sup>*\<^sup>* (content n) (content m)"
    using step.IH step.prems by simp_all
  have "good n'" "hop\<^sup>=\<^sup>= (content m) (content n')"
    using pass_moves [OF g(1) p] by simp_all
  then show ?case
    using g(2) by (auto intro: rtranclp.rtrancl_into_rtrancl)
qed simp

lemma reachable_stream:
  assumes "(sys_step pass)\<^sup>*\<^sup>* n n'" "good n"
  shows "stream (content n') d = stream (content n) d"
proof -
  have "hop\<^sup>*\<^sup>* Q Q' \<Longrightarrow> stream Q' d = stream Q d" for Q Q'
    by (induction rule: rtranclp_induct) (simp_all add: hop_stream)
  then show ?thesis
    using reachable_good [OF assms] by blast
qed

lemma run_closer: "\<lbrakk>run_passes pass ths n = Inr n'; good n\<rbrakk> \<Longrightarrow> distance (content n') \<le> distance (content n)"
proof (induction ths arbitrary: n)
  case (Cons th ths)
  then obtain m where m: "pass th n = Inr m" "run_passes pass ths m = Inr n'"
    by auto
  show ?case
    using pass_moves [OF Cons.prems(2) m(1)] Cons.IH [OF m(2)] hop_distance [of "content n" "content m"] by auto
qed simp

end

text \<open>
  \<open>live_system\<close>: moreover no pass leaves defined behaviour, every queue but the last ones has a
  thread that reads it, and the pass of a thread with something to read is a hop. Every schedule
  that gives each thread a turn in each of enough rounds then gets everything through.
\<close>

locale live_system = queue_system +
  fixes sources :: "'th \<Rightarrow> (side \<times> place) set"
  assumes pass_runs: "good n \<Longrightarrow> \<exists>n'. pass th n = Inr n'"
    and pass_progress: "\<lbrakk>good n; pass th n = Inr n'; (d, p) \<in> sources th; content n d p \<noteq> []\<rbrakk> \<Longrightarrow> hop (content n) (content n')"
    and some_reader: "p \<noteq> Tap_out \<Longrightarrow> \<exists>th. (d, p) \<in> sources th"
begin

lemma run_total: "good n \<Longrightarrow> \<exists>n'. run_passes pass ths n = Inr n'"
proof (induction ths arbitrary: n)
  case (Cons th ths)
  then show ?case using pass_runs [OF Cons.prems, of th] pass_moves by fastforce
qed simp

lemma turn_progress:
  "\<lbrakk>run_passes pass ths n = Inr n'; good n; th \<in> set ths; (d, p) \<in> sources th; content n d p \<noteq> []\<rbrakk>
    \<Longrightarrow> distance (content n') < distance (content n)"
proof (induction ths arbitrary: n)
  case (Cons th' ths)
  then obtain m where m: "pass th' n = Inr m" "run_passes pass ths m = Inr n'"
    by auto
  have g: "good m" "hop\<^sup>=\<^sup>= (content n) (content m)"
    using pass_moves [OF Cons.prems(2) m(1)] by simp_all
  show ?case
  proof (cases "hop (content n) (content m)")
    case True
    then show ?thesis
      using hop_distance run_closer [OF m(2) g(1)] order_le_less_trans by blast
  next
    case False
    then have "content m = content n" "th \<noteq> th'"
      using g(2) pass_progress [OF Cons.prems(2) m(1)] Cons.prems(4,5) by auto
    then show ?thesis
      using Cons.IH [OF m(2) g(1)] Cons.prems(3-5) by simp
  qed
qed simp

text \<open>A round gives every thread at least one turn.\<close>

lemma round_progress:
  assumes "run_passes pass r n = Inr n'" "good n" "set r = UNIV"
  shows "distance (content n') \<le> distance (content n) - 1"
proof (cases "distance (content n) = 0")
  case True
  then show ?thesis using run_closer [OF assms(1,2)] by simp
next
  case False
  then obtain d p where "p \<noteq> Tap_out" "content n d p \<noteq> []"
    using under_way by blast
  then obtain th where "(d, p) \<in> sources th" "content n d p \<noteq> []"
    using some_reader by blast
  then have "distance (content n') < distance (content n)"
    using turn_progress [OF assms(1,2)] assms(3) by blast
  then show ?thesis by simp
qed

lemma rounds_closer:
  "\<lbrakk>run_passes pass (concat rounds) n = Inr n'; good n; \<forall>r \<in> set rounds. set r = UNIV\<rbrakk>
    \<Longrightarrow> distance (content n') \<le> distance (content n) - length rounds"
proof (induction rounds arbitrary: n)
  case (Cons r rounds)
  then obtain m where m: "run_passes pass r n = Inr m" "run_passes pass (concat rounds) m = Inr n'"
    by (auto simp: run_passes_append)
  have "good m"
    using reachable_good [OF run_passes_reachable [OF m(1)]] Cons.prems(2) by simp
  then show ?case
    using round_progress [OF m(1) Cons.prems(2)] Cons.IH [OF m(2)] Cons.prems(3) by simp
qed simp

lemma rounds_deliver:
  assumes "good n" "\<forall>r \<in> set rounds. set r = UNIV" "distance (content n) \<le> length rounds"
  shows "\<exists>n'. run_passes pass (concat rounds) n = Inr n' \<and> (\<forall>d. content n' d Tap_out = stream (content n) d)"
proof -
  obtain n' where n': "run_passes pass (concat rounds) n = Inr n'"
    using run_total [OF assms(1)] by blast
  have "distance (content n') = 0"
    using rounds_closer [OF n' assms(1,2)] assms(3) by simp
  then show ?thesis
    using n' arrived reachable_stream [OF run_passes_reachable [OF n'] assms(1)] by auto
qed

end

end
