(* ===== verification/Dataplane.thy ===== *)
theory Dataplane
  imports Main_Loop
begin

section \<open>Two hosts, end to end\<close>

text \<open>
  The main loop and the plugin's thread of one host run at the same time, and so do those of the
  other host. The loops change no variable of the program, so each thread is given as a run of
  its own, with a kernel of its own, from the state in which it enters its loop: what the other
  thread and the other host do in between is part of what that kernel answers. Every
  interleaving of the threads' calls is covered this way. The channels between the threads,
  the two pipes of a host and the TCP connection, connect the runs: what one end received is a
  prefix of what the other end accepted.
\<close>

subsection \<open>Calls made and bytes accepted\<close>

definition events :: "('w, 'z) sys_state_scheme \<Rightarrow> ('w, 'z) sys_state_scheme \<Rightarrow> (xcall \<times> reply) list" where
  "events s s' = drop (length (trace s)) (trace s')"

lemma events_append: "trace s' = trace s @ t \<Longrightarrow> events s s' = t"
  by (simp add: events_def)

text \<open>
  A write may take fewer bytes than it is given; its result says how many. The loops compare
  the result with 0 only, for a message.
\<close>

definition accepted :: "int \<Rightarrow> (xcall \<times> reply) list \<Rightarrow> byte list" where
  "accepted fd t = concat (map (\<lambda>(c, r). take (nat (r_ret r)) (sent_to fd c)) t)"

lemma accepted_simps [simp]:
  "accepted fd [] = []" "accepted fd (t @ u) = accepted fd t @ accepted fd u"
  "accepted fd ((c, r) # t) = take (nat (r_ret r)) (sent_to fd c) @ accepted fd t"
  by (simp_all add: accepted_def)

fun full_write :: "xcall \<times> reply \<Rightarrow> bool" where
  "full_write (Write fd bs, r) \<longleftrightarrow> r_ret r = int (length bs)"
| "full_write (Send fd bs, r) \<longleftrightarrow> r_ret r = int (length bs)"
| "full_write _ \<longleftrightarrow> True"

lemma full_write_accepts: "full_write (c, r) \<Longrightarrow> take (nat (r_ret r)) (sent_to fd c) = sent_to fd c"
  by (cases c) simp_all

lemma accepted_full: "list_all full_write t \<Longrightarrow> accepted fd t = submitted fd t"
  by (induction t) (auto simp: full_write_accepts)

text \<open>What is not accepted stays missing.\<close>

lemma accepted_at_most: "length (accepted fd t) \<le> length (submitted fd t)"
  by (induction t) auto

lemma accepted_shortfall:
  assumes "(c, r) \<in> set t"
  shows "length (accepted fd t) + (length (sent_to fd c) - nat (r_ret r)) \<le> length (submitted fd t)"
proof -
  obtain u v where "t = u @ (c, r) # v"
    using split_list [OF assms] by blast
  then show ?thesis
    using accepted_at_most [of fd u] accepted_at_most [of fd v] by simp
qed

text \<open>A channel is first in, first out: it loses nothing before what it delivers.\<close>

definition carries :: "int \<Rightarrow> (xcall \<times> reply) list \<Rightarrow> int \<Rightarrow> (xcall \<times> reply) list \<Rightarrow> bool" where
  "carries a t b u \<longleftrightarrow> prefix (received b u) (accepted a t)"

subsection \<open>The runs of the loops\<close>

lemma main_events:
  assumes "MainLoop k S n s = Inr (T, s')" "main_fits (tfd s) (main_fds s)"
  shows "relays (main_routes (tfd s) (main_fds s)) (events s s')"
proof -
  obtain m where "passes n (main_pass k (tfd s) m) (S, s) = Inr (T, s')"
    using assms(1) by (auto simp: MainLoop_def tun_getFile_def Let_def)
  from main.many_passes [OF assms(2) this] show ?thesis
    by (auto simp: events_append)
qed

lemma client_events:
  assumes "tcp_startClient k S n s = Inr (T, s')" "plugin_fits (client_fds s)"
  shows "relays (plugin_routes (client_fds s)) (events s s')"
proof -
  obtain m where "passes n (client_pass k m) (S, s) = Inr (T, s')"
    using assms(1) by (auto simp: tcp_startClient_def Let_def)
  from client.many_passes [OF assms(2) this] show ?thesis
    by (auto simp: events_append)
qed

lemma server_events:
  assumes "tcp_startServer k S n s = Inr (T, s')" "plugin_fits (server_fds (server_accept k s))"
  shows "relays (plugin_routes (server_fds (server_accept k s))) (events s s')"
proof -
  obtain m where "passes n (server_pass k m) (S, server_accept k s) = Inr (T, s')"
    using assms(1) by (auto simp: tcp_startServer_def Let_def)
  from server.many_passes [OF assms(2) this] obtain new
    where n: "trace s' = trace (server_accept k s) @ new" "relays (plugin_routes (server_fds (server_accept k s))) new"
    by blast
  obtain q where "trace (server_accept k s) = trace s @ [(Accept (socketServer s), q)]"
    by (auto simp: server_accept_def Let_def split_beta sys_trace)
  then have "events s s' = (Accept (socketServer s), q) # new"
    using n(1) by (simp add: events_def)
  then show ?thesis
    using n(2) by (auto simp: relays_def)
qed

lemmas thread_events = main_events client_events server_events

lemma relayed:
  assumes "relays R t" "(a, b) \<in> R" "list_all full_write t"
  shows "accepted b t = received a t"
  using assms by (auto simp: relays_def accepted_full)

text \<open>Four relays in a row, joined by channels.\<close>

lemma chain:
  assumes "accepted b1 t1 = received a1 t1" "accepted b2 t2 = received a2 t2"
    "accepted b3 t3 = received a3 t3" "accepted b4 t4 = received a4 t4"
    and "carries b1 t1 a2 t2" "carries b2 t2 a3 t3" "carries b3 t3 a4 t4"
  shows "prefix (accepted b4 t4) (received a1 t1)"
  using assms by (metis carries_def prefix_order.trans)

subsection \<open>Properties\<close>

text \<open>
  C10. From the client's device to the server's: the client's main loop and TCP thread, the
  server's TCP thread and main loop, each after any number of passes and interleaved in any
  way. When the two pipes and the connection deliver in order and writes take all they are
  given, the bytes written to the server's TAP device are the first of the bytes read from the
  client's, in order: nothing is lost, repeated, changed or made up before them.
\<close>

lemma client_to_server:
  assumes runs: "MainLoop km S1 n1 a = Inr (T1, a1)" "tcp_startClient kc S2 n2 c = Inr (T2, c1)"
      "tcp_startServer ks S3 n3 d = Inr (T3, d1)" "MainLoop kn S4 n4 b = Inr (T4, b1)"
    and fds: "main_fds a = (pinA, poutA)" "client_fds c = (qinA, qoutA, sockA)"
      "main_fds b = (pinB, poutB)" "server_fds (server_accept ks d) = (qinB, qoutB, sockB)"
    and fits: "main_fits (tfd a) (pinA, poutA)" "plugin_fits (qinA, qoutA, sockA)"
      "main_fits (tfd b) (pinB, poutB)" "plugin_fits (qinB, qoutB, sockB)"
    and writes: "\<forall>t \<in> {events a a1, events c c1, events d d1, events b b1}. list_all full_write t"
    and channels: "carries poutA (events a a1) qinA (events c c1)" "carries sockA (events c c1) sockB (events d d1)"
      "carries qoutB (events d d1) pinB (events b b1)"
  shows "prefix (accepted (tfd b) (events b b1)) (received (tfd a) (events a a1))"
proof (rule chain [OF _ _ _ _ channels])
  show "accepted poutA (events a a1) = received (tfd a) (events a a1)"
    using relayed [OF thread_events(1) [OF runs(1)]] fds fits writes by (simp add: main_routes_def)
  show "accepted sockA (events c c1) = received qinA (events c c1)"
    using relayed [OF thread_events(2) [OF runs(2)]] fds fits writes by (simp add: plugin_routes_def)
  show "accepted qoutB (events d d1) = received sockB (events d d1)"
    using relayed [OF thread_events(3) [OF runs(3)]] fds fits writes by (simp add: plugin_routes_def)
  show "accepted (tfd b) (events b b1) = received pinB (events b b1)"
    using relayed [OF thread_events(1) [OF runs(4)]] fds fits writes by (simp add: main_routes_def)
qed

text \<open>
  From the server's device to the client's: the same, in the other direction over the same
  threads.
\<close>

lemma server_to_client:
  assumes runs: "MainLoop km S1 n1 a = Inr (T1, a1)" "tcp_startClient kc S2 n2 c = Inr (T2, c1)"
      "tcp_startServer ks S3 n3 d = Inr (T3, d1)" "MainLoop kn S4 n4 b = Inr (T4, b1)"
    and fds: "main_fds a = (pinA, poutA)" "client_fds c = (qinA, qoutA, sockA)"
      "main_fds b = (pinB, poutB)" "server_fds (server_accept ks d) = (qinB, qoutB, sockB)"
    and fits: "main_fits (tfd a) (pinA, poutA)" "plugin_fits (qinA, qoutA, sockA)"
      "main_fits (tfd b) (pinB, poutB)" "plugin_fits (qinB, qoutB, sockB)"
    and writes: "\<forall>t \<in> {events a a1, events c c1, events d d1, events b b1}. list_all full_write t"
    and channels: "carries poutB (events b b1) qinB (events d d1)" "carries sockB (events d d1) sockA (events c c1)"
      "carries qoutA (events c c1) pinA (events a a1)"
  shows "prefix (accepted (tfd a) (events a a1)) (received (tfd b) (events b b1))"
proof (rule chain [OF _ _ _ _ channels])
  show "accepted poutB (events b b1) = received (tfd b) (events b b1)"
    using relayed [OF thread_events(1) [OF runs(4)]] fds fits writes by (simp add: main_routes_def)
  show "accepted sockB (events d d1) = received qinB (events d d1)"
    using relayed [OF thread_events(3) [OF runs(3)]] fds fits writes by (simp add: plugin_routes_def)
  show "accepted qoutA (events c c1) = received sockA (events c c1)"
    using relayed [OF thread_events(2) [OF runs(2)]] fds fits writes by (simp add: plugin_routes_def)
  show "accepted (tfd a) (events a a1) = received pinA (events a a1)"
    using relayed [OF thread_events(1) [OF runs(1)]] fds fits writes by (simp add: main_routes_def)
qed

text \<open>
  C34. A short write is never made up for: whatever the client thread does before and after, a
  send that took fewer bytes than it was given leaves the connection that many bytes behind
  what was read from the pipe, for ever.
\<close>

lemma short_send_loses:
  assumes "tcp_startClient k S n s = Inr (T, s')" "client_fds s = (pin, pout, sock)" "plugin_fits (pin, pout, sock)"
    and "(Send sock bs, r) \<in> set (events s s')"
  shows "length (accepted sock (events s s')) + (length bs - nat (r_ret r)) \<le> length (received pin (events s s'))"
  using client_events [OF assms(1)] accepted_shortfall [OF assms(4), of sock] assms(2,3)
  by (simp add: relays_def plugin_routes_def)

text \<open>
  C33. Frame boundaries are lost: two frames that wait in the pipe from the plugin together reach
  the device as one, in one pass of the main loop and one write.
\<close>

lemma waiting_frames_merge:
  assumes "main_fds s = (pin, pout)" "main_fits fdTun (pin, pout)"
    and "k (Select m (insert fdTun (insert pin S))) (world s) = (reply_ready {pin}, w1)"
    and "k (Read pin BLOCK_SIZE) w1 = (reply_bytes (take BLOCK_SIZE (f1 @ f2)), w2)"
    and "f1 \<noteq> []" "length f1 + length f2 \<le> BLOCK_SIZE"
  shows "\<exists>s' q. main_pass k fdTun m (S, s) = Inr ({}, s') \<and>
    trace s' = trace s @ [(Select m (insert fdTun (insert pin S)), reply_ready {pin}),
      (Read pin BLOCK_SIZE, reply_bytes (f1 @ f2)), (Write fdTun (f1 @ f2), q)]"
proof -
  have g: "got (reply_bytes (f1 @ f2)) = f1 @ f2" "\<not> r_ret (reply_bytes (f1 @ f2)) \<le> 0"
    using assms(5) by (cases f1; simp add: got_def reply_bytes_def reply_ok_def)+
  have p: "pin = fst (g_pipe_from_plugin (gv s))"
    using assms(1) by (simp add: main_fds_def)
  have z: "\<not> r_ret (reply_ready R) < 0" "r_ready (reply_ready R) = R" for R
    by (simp_all add: reply_ready_def reply_ok_def)
  show ?thesis
    using assms(2-4,6) g
    by (auto simp: main_pass_def main_fits_def selectable_def FD_SET_def do_select_def sys_def Let_def p z
        split: prod.split)
qed


subsection \<open>Two example hosts\<close>

definition host_example :: "int \<Rightarrow> 'w \<Rightarrow> 'w plugin_state" where
  "host_example mode w = (main_example w)\<lparr>gv := example_globals mode, tfd := 9, socketRemote := 7, socketConnected := 7\<rparr>"

lemma host_example_ok:
  "main_fds (host_example m rs) = (3, 6)" "client_fds (host_example m rs) = (5, 4, 7)" "tfd (host_example m rs) = 9"
  "main_fits 9 (3, 6)" "plugin_fits (5, 4, 7)" "trace (host_example m rs) = []" "world (host_example m rs) = rs"
  "gv (host_example m rs) = example_globals m" "socketRemote (host_example m rs) = 7" "socketServer (host_example m rs) = 0"
  "socketConnected (host_example m rs) = 7"
  by (simp_all add: host_example_def main_fds_def client_fds_def main_example_def sip_state.extend_def
      plugin_state.fields_def sip_example_def tcp_state.extend_def sip_state.fields_def tcp_start_state_def
      example_globals_def main_fits_def plugin_fits_def selectable_def FD_SETSIZE_def)

text \<open>One pass of each loop on a script of three replies.\<close>

lemma example_passes:
  "\<exists>T s'. MainLoop script_kernel {} 1 (host_example m [reply_ready {9}, reply_bytes [1, 2], reply_ok 2]) = Inr (T, s') \<and>
     trace s' = [(Select 10 {9, 3}, reply_ready {9}), (Read 9 1504, reply_bytes [1, 2]), (Write 6 [1, 2], reply_ok 2)]"
  "\<exists>T s'. MainLoop script_kernel {} 1 (host_example m [reply_ready {3}, reply_bytes [1, 2], reply_ok 2]) = Inr (T, s') \<and>
     trace s' = [(Select 10 {9, 3}, reply_ready {3}), (Read 3 1505, reply_bytes [1, 2]), (Write 9 [1, 2], reply_ok 2)]"
  "\<exists>T s'. tcp_startClient script_kernel {} 1 (host_example m [reply_ready {5}, reply_bytes [1, 2], reply_ok 2]) = Inr (T, s') \<and>
     trace s' = [(Select 8 {7, 5}, reply_ready {5}), (Read 5 1504, reply_bytes [1, 2]), (Send 7 [1, 2], reply_ok 2)]"
  "\<exists>T s'. tcp_startClient script_kernel {} 1 (host_example m [reply_ready {7}, reply_bytes [1, 2], reply_ok 2]) = Inr (T, s') \<and>
     trace s' = [(Select 8 {7, 5}, reply_ready {7}), (Recv 7 1504, reply_bytes [1, 2]), (Write 4 [1, 2], reply_ok 2)]"
  "\<exists>T s'. tcp_startServer script_kernel {} 1 (host_example m [reply_ok 7, reply_ready {5}, reply_bytes [1, 2], reply_ok 2]) = Inr (T, s') \<and>
     trace s' = [(Accept 0, reply_ok 7), (Select 8 {7, 5}, reply_ready {5}), (Read 5 1504, reply_bytes [1, 2]), (Send 7 [1, 2], reply_ok 2)]"
  "\<exists>T s'. tcp_startServer script_kernel {} 1 (host_example m [reply_ok 7, reply_ready {7}, reply_bytes [1, 2], reply_ok 2]) = Inr (T, s') \<and>
     trace s' = [(Accept 0, reply_ok 7), (Select 8 {7, 5}, reply_ready {7}), (Recv 7 1504, reply_bytes [1, 2]), (Write 4 [1, 2], reply_ok 2)]"
  by (simp_all add: MainLoop_def tun_getFile_def tcp_startClient_def tcp_startServer_def server_accept_def server_maxfd_def Let_def
      host_example_ok main_pass_def client_pass_def server_pass_def example_globals_def FD_SET_def FD_SETSIZE_def
      do_select_def sys_def script_kernel_def reply_ready_def reply_bytes_def reply_ok_def global_consts got_def)

lemma server_fds_example:
  "server_fds (server_accept script_kernel (host_example m (reply_ok 7 # rs))) = (5, 4, 7)"
  by (simp add: server_fds_def server_accept_def sys_def Let_def script_kernel_def host_example_ok reply_ok_def example_globals_def)


lemmas example_bytes = reply_bytes_def reply_ready_def reply_ok_def got_def

lemma client_to_server_witness:
  "\<exists>a1 b1 T1 T4. MainLoop script_kernel {} 1 (host_example CLIENT_MODE [reply_ready {9}, reply_bytes [1, 2], reply_ok 2]) = Inr (T1, a1) \<and>
     MainLoop script_kernel {} 1 (host_example SERVER_MODE [reply_ready {3}, reply_bytes [1, 2], reply_ok 2]) = Inr (T4, b1) \<and>
     prefix (accepted 9 (trace b1)) (received 9 (trace a1)) \<and> accepted 9 (trace b1) = [1, 2]"
proof -
  obtain T1 a1 T2 c1 T3 d1 T4 b1 where
    r: "MainLoop script_kernel {} 1 (host_example CLIENT_MODE [reply_ready {9}, reply_bytes [1, 2], reply_ok 2]) = Inr (T1, a1)"
      "tcp_startClient script_kernel {} 1 (host_example CLIENT_MODE [reply_ready {5}, reply_bytes [1, 2], reply_ok 2]) = Inr (T2, c1)"
      "tcp_startServer script_kernel {} 1 (host_example SERVER_MODE [reply_ok 7, reply_ready {7}, reply_bytes [1, 2], reply_ok 2]) = Inr (T3, d1)"
      "MainLoop script_kernel {} 1 (host_example SERVER_MODE [reply_ready {3}, reply_bytes [1, 2], reply_ok 2]) = Inr (T4, b1)"
    and t: "trace a1 = [(Select 10 {9, 3}, reply_ready {9}), (Read 9 1504, reply_bytes [1, 2]), (Write 6 [1, 2], reply_ok 2)]"
      "trace c1 = [(Select 8 {7, 5}, reply_ready {5}), (Read 5 1504, reply_bytes [1, 2]), (Send 7 [1, 2], reply_ok 2)]"
      "trace d1 = [(Accept 0, reply_ok 7), (Select 8 {7, 5}, reply_ready {7}), (Recv 7 1504, reply_bytes [1, 2]), (Write 4 [1, 2], reply_ok 2)]"
      "trace b1 = [(Select 10 {9, 3}, reply_ready {3}), (Read 3 1505, reply_bytes [1, 2]), (Write 9 [1, 2], reply_ok 2)]"
    using example_passes(1) [of CLIENT_MODE] example_passes(3) [of CLIENT_MODE]
      example_passes(6) [of SERVER_MODE] example_passes(2) [of SERVER_MODE] by blast
  have "prefix (accepted (tfd (host_example SERVER_MODE [reply_ready {3}, reply_bytes [1, 2], reply_ok 2]))
      (events (host_example SERVER_MODE [reply_ready {3}, reply_bytes [1, 2], reply_ok 2]) b1))
    (received (tfd (host_example CLIENT_MODE [reply_ready {9}, reply_bytes [1, 2], reply_ok 2]))
      (events (host_example CLIENT_MODE [reply_ready {9}, reply_bytes [1, 2], reply_ok 2]) a1))"
    by (rule client_to_server [OF r host_example_ok(1,2,1) server_fds_example])
      (simp_all add: host_example_ok events_def t carries_def example_bytes)
  then show ?thesis
    using r(1,4) by (simp add: host_example_ok events_def t example_bytes)
qed

lemma server_to_client_witness:
  "\<exists>a1 b1 T1 T4. MainLoop script_kernel {} 1 (host_example CLIENT_MODE [reply_ready {3}, reply_bytes [1, 2], reply_ok 2]) = Inr (T1, a1) \<and>
     MainLoop script_kernel {} 1 (host_example SERVER_MODE [reply_ready {9}, reply_bytes [1, 2], reply_ok 2]) = Inr (T4, b1) \<and>
     prefix (accepted 9 (trace a1)) (received 9 (trace b1)) \<and> accepted 9 (trace a1) = [1, 2]"
proof -
  obtain T1 a1 T2 c1 T3 d1 T4 b1 where
    r: "MainLoop script_kernel {} 1 (host_example CLIENT_MODE [reply_ready {3}, reply_bytes [1, 2], reply_ok 2]) = Inr (T1, a1)"
      "tcp_startClient script_kernel {} 1 (host_example CLIENT_MODE [reply_ready {7}, reply_bytes [1, 2], reply_ok 2]) = Inr (T2, c1)"
      "tcp_startServer script_kernel {} 1 (host_example SERVER_MODE [reply_ok 7, reply_ready {5}, reply_bytes [1, 2], reply_ok 2]) = Inr (T3, d1)"
      "MainLoop script_kernel {} 1 (host_example SERVER_MODE [reply_ready {9}, reply_bytes [1, 2], reply_ok 2]) = Inr (T4, b1)"
    and t: "trace a1 = [(Select 10 {9, 3}, reply_ready {3}), (Read 3 1505, reply_bytes [1, 2]), (Write 9 [1, 2], reply_ok 2)]"
      "trace c1 = [(Select 8 {7, 5}, reply_ready {7}), (Recv 7 1504, reply_bytes [1, 2]), (Write 4 [1, 2], reply_ok 2)]"
      "trace d1 = [(Accept 0, reply_ok 7), (Select 8 {7, 5}, reply_ready {5}), (Read 5 1504, reply_bytes [1, 2]), (Send 7 [1, 2], reply_ok 2)]"
      "trace b1 = [(Select 10 {9, 3}, reply_ready {9}), (Read 9 1504, reply_bytes [1, 2]), (Write 6 [1, 2], reply_ok 2)]"
    using example_passes(2) [of CLIENT_MODE] example_passes(4) [of CLIENT_MODE]
      example_passes(5) [of SERVER_MODE] example_passes(1) [of SERVER_MODE] by blast
  have "prefix (accepted (tfd (host_example CLIENT_MODE [reply_ready {3}, reply_bytes [1, 2], reply_ok 2]))
      (events (host_example CLIENT_MODE [reply_ready {3}, reply_bytes [1, 2], reply_ok 2]) a1))
    (received (tfd (host_example SERVER_MODE [reply_ready {9}, reply_bytes [1, 2], reply_ok 2]))
      (events (host_example SERVER_MODE [reply_ready {9}, reply_bytes [1, 2], reply_ok 2]) b1))"
    by (rule server_to_client [OF r host_example_ok(1,2,1) server_fds_example])
      (simp_all add: host_example_ok events_def t carries_def example_bytes)
  then show ?thesis
    using r(1,4) by (simp add: host_example_ok events_def t example_bytes)
qed

lemma short_send_loses_witness:
  "\<exists>T s'. tcp_startClient script_kernel {} 1 (host_example CLIENT_MODE [reply_ready {5}, reply_bytes [1, 2], reply_ok 1]) = Inr (T, s') \<and>
     length (accepted 7 (trace s')) + 1 \<le> length (received 5 (trace s'))"
proof -
  let ?s = "host_example CLIENT_MODE [reply_ready {5}, reply_bytes [1, 2], reply_ok 1]"
  obtain T s' where r: "tcp_startClient script_kernel {} 1 ?s = Inr (T, s')"
    "trace s' = [(Select 8 {7, 5}, reply_ready {5}), (Read 5 1504, reply_bytes [1, 2]), (Send 7 [1, 2], reply_ok 1)]"
    by (rule exE, rule exI)
      (simp_all add: tcp_startClient_def Let_def host_example_ok client_pass_def example_globals_def FD_SET_def FD_SETSIZE_def
        do_select_def sys_def script_kernel_def example_bytes global_consts)
  have m: "(Send 7 [1, 2], reply_ok 1) \<in> set (events ?s s')"
    by (simp add: events_def host_example_ok r(2))
  show ?thesis
    using short_send_loses [OF r(1) host_example_ok(2,5) m] r(1)
    by (simp add: events_def host_example_ok reply_ok_def)
qed

lemma waiting_frames_merge_witness:
  "\<exists>s' q. main_pass script_kernel 9 10 ({}, host_example CLIENT_MODE [reply_ready {3}, reply_bytes [1, 2]]) = Inr ({}, s') \<and>
     trace s' = [(Select 10 {9, 3}, reply_ready {3}), (Read 3 BLOCK_SIZE, reply_bytes [1, 2]), (Write 9 [1, 2], q)]"
proof -
  let ?s = "host_example CLIENT_MODE [reply_ready {3}, reply_bytes [1, 2]]"
  have "script_kernel (Select 10 (insert 9 (insert 3 {}))) (world ?s) = (reply_ready {3}, [reply_bytes [1, 2]])"
    "script_kernel (Read 3 BLOCK_SIZE) [reply_bytes [1, 2]] = (reply_bytes (take BLOCK_SIZE ([1] @ [2])), [])"
    by (simp_all add: script_kernel_def host_example_ok global_consts)
  from waiting_frames_merge [OF host_example_ok(1,4) this] show ?thesis
    by (simp add: global_consts host_example_ok)
qed

end
