(* ===== verification/Sip_Dataplane.thy ===== *)
theory Sip_Dataplane
  imports Dataplane
begin

section \<open>Two hosts over SIP, end to end\<close>

text \<open>
  The counterpart of \<open>Dataplane\<close> for SIP: the main loop and the sending loop of one host, the
  event loop and the main loop of the other, each as a run of its own with a kernel of its own,
  so that their calls may be interleaved in any way. The channels are the two pipes, and what
  PJSIP hands to the receiver: the first of the headers that the sender put into its requests.
\<close>

lemma sip_loop_events:
  assumes "sip_loop_tun_events k z S n s = Inr (T, s')" "fst (g_pipe_to_plugin (gv s)) = fd" "selectable fd"
    and "z \<le> sizeof_int" "memory_left k" "pjsip_works k" "reads_bounded k" "reads_bytes k"
  shows "headers (events s s') = map b64 (blocks fd (events s s'))"
    "concat (blocks fd (events s s')) = received fd (events s s')"
    "f \<in> set (blocks fd (events s s')) \<Longrightarrow> f \<noteq> [] \<and> length f < BLOCK_SIZE"
proof -
  obtain t where t: "trace s' = trace s @ t" "headers t = map b64 (blocks fd t)" "concat (blocks fd t) = received fd t"
    "\<forall>f \<in> set (blocks fd t). length f < BLOCK_SIZE \<and> (reads_bytes k \<longrightarrow> f \<noteq> [])"
    using sip_loop_result [OF assms(4-7), where n = n and S = S and m = "fd + 1" and s = s] assms(1-3)
    by (auto simp: sip_loop_tun_events_def)
  show "headers (events s s') = map b64 (blocks fd (events s s'))" "concat (blocks fd (events s s')) = received fd (events s s')"
    using t by (simp_all add: events_append)
  show "f \<in> set (blocks fd (events s s')) \<Longrightarrow> f \<noteq> [] \<and> length f < BLOCK_SIZE"
    using t(1,4) assms(8) by (simp add: events_append)
qed

text \<open>Some of the headers, the first ones, are the texts of the first blocks.\<close>

lemma prefix_texts:
  assumes "prefix texts (map g bs)"
  shows "\<exists>fs. texts = map g fs \<and> set fs \<subseteq> set bs \<and> prefix (concat fs) (concat bs)"
proof -
  obtain fs zs where "bs = fs @ zs" "texts = map g fs"
    using assms by (auto simp: prefix_def map_eq_append_conv)
  then show ?thesis by auto
qed



subsection \<open>An example\<close>

text \<open>A kernel that takes every write whole, and the receiver on it.\<close>

definition taking_kernel :: "unit kernel" where
  "taking_kernel c w = (reply_ok (case c of Write fd bs \<Rightarrow> int (length bs) | _ \<Rightarrow> 1), w)"

lemma quiet_state_ok:
  "decoder_ok quiet_state" "\<not> g_complete quiet_state" "g_debug (gv quiet_state) \<le> 1" "trace quiet_state = []"
  "snd (g_pipe_from_plugin (gv quiet_state)) = 4"
proof -
  show "decoder_ok quiet_state"
    using table_state_ok by (simp add: quiet_state_def decoder_ok_def table_state_def)
qed (simp_all add: quiet_state_def sip_example_ok example_globals_def)

lemma example_receiver:
  "\<exists>d1. sip_loop_sip_events taking_kernel 0 [Rx_Request \<lparr>is_options = True, multivpn = Some (b64 [1, 2])\<rparr>] quiet_state
      = Inr (False, d1) \<and> list_all full_write (trace d1) \<and> submitted 4 (trace d1) = [1, 2]"
proof -
  have m: "memory_left taking_kernel"
    by (simp add: memory_left_def taking_kernel_def reply_ok_def)
  have f: "[1, 2 :: byte] \<noteq> []" "\<not> prints_beyond (gv quiet_state) [1, 2]" "length [1, 2 :: byte] < BLOCK_SIZE"
    using quiet_state_ok(3) by (simp_all add: prints_beyond_def global_consts)
  obtain s' s1 where r: "on_rx_request taking_kernel 0 (tunnel_request [1, 2]) quiet_state = Inr (True, s')"
    "\<not> g_complete s'" "base64_decode taking_kernel (b64 [1, 2]) quiet_state = Inr (Decoded [1, 2] (length [1, 2 :: byte]), s1)"
    "s' = snd (sys taking_kernel (RespondStateless 666 ''Traffic Accepted'') (snd (sys taking_kernel (Write 4 [1, 2]) s1)))"
    using accept_frame_state [OF quiet_state_ok(1) m f, of 0] quiet_state_ok(2) unfolding quiet_state_ok(5) by auto
  obtain t where t: "trace s1 = t" "\<forall>c \<in> set (map fst t). is_malloc c"
    using decode_b64 [OF quiet_state_ok(1) m f(1,3)] r(3) quiet_state_ok(4) by auto
  have w: "full_write x \<and> sent_to 4 (fst x) = []" if "x \<in> set t" for x
    using t(2) that by (cases x; cases "fst x") auto
  have "list_all full_write t" "submitted 4 t = []"
    using w by (auto simp: list_all_iff submitted_def)
  then have "list_all full_write (trace s')" "submitted 4 (trace s') = [1, 2]"
    by (simp_all add: r(4) sys_trace t(1) sys_reply taking_kernel_def reply_ok_def)
  then show ?thesis
    using r(1,2) quiet_state_ok(2)
    by (simp add: sip_loop_sip_events.simps [of taking_kernel] handle_event_simps tunnel_request_def)
qed

lemma example_kernels:
  "4 \<le> sizeof_int" "selectable 5" "memory_left taking_kernel" "reads_bytes (pipe_kernel [1, 2])"
  by (simp_all add: sizeof_int_def selectable_def FD_SETSIZE_def memory_left_def taking_kernel_def reads_bytes_def
      pipe_kernel_def reply_ok_def reply_bytes_def got_def)

lemma example_sender:
  obtains T2 c1 where "sip_loop_tun_events (pipe_kernel [1, 2]) 4 {} 1 (sip_example ()) = Inr (T2, c1)"
    "blocks 5 (trace c1) = [[1, 2]]"
proof -
  obtain T2 c1 where c: "sip_loop_tun_events (pipe_kernel [1, 2]) 4 {} 1 (sip_example ()) = Inr (T2, c1)"
    using sip_loop_result [OF example_kernels(1) pipe_kernel_laws [of "[1, 2]"], where s = "sip_example ()" and n = 1 and m = 6
        and S = "{}"] example_kernels(2)
    by (auto simp: sip_loop_tun_events_def sip_example_ok)
  moreover have "blocks 5 (trace c1) = [[1, 2]]"
    using pipe_kernel_pass [OF _ _ c] by (simp add: global_consts)
  ultimately show thesis
    using that by blast
qed



end
