(* ===== verification/Network.thy ===== *)
theory Network
  imports Dataplane Queues
begin

section \<open>The network as a state machine\<close>

text \<open>
  Two hosts over TCP as one system whose step is one pass of one of its four threads. The
  environment (devices, pipes, the connection) is a kernel per host over a common outside world;
  it obeys the laws of \<open>Queues\<close>, whose two locales are interpreted on the system.
\<close>

subsection \<open>The four threads\<close>

text \<open>
  A thread, one pass of its loop, and the state of the network: the outside world and the
  descriptor set of each thread. The variables of a host do not change in the loops; \<open>vars\<close>
  gives them, with the outside world put in for each pass.
\<close>

datatype thread = Main_thread side | Plugin_thread side

record 'w net =
  net_world :: 'w
  sets :: "thread \<Rightarrow> int set"

fun host_of :: "thread \<Rightarrow> side" where
  "host_of (Main_thread h) = h"
| "host_of (Plugin_thread h) = h"

fun thread_pass :: "'w kernel \<Rightarrow> thread \<Rightarrow> int set \<Rightarrow> 'w plugin_state \<Rightarrow> (int set \<times> 'w plugin_state) res" where
  "thread_pass k (Main_thread h) S s = MainLoop k S 1 s"
| "thread_pass k (Plugin_thread Client) S s = tcp_startClient k S 1 s"
| "thread_pass k (Plugin_thread Server) S s = server_pass k (server_maxfd s) (S, s)"

definition net_pass ::
    "(side \<Rightarrow> 'w kernel) \<Rightarrow> (side \<Rightarrow> 'w plugin_state) \<Rightarrow> thread \<Rightarrow> 'w net \<Rightarrow> 'w net res" where
  "net_pass k vars th n =
     res_bind (thread_pass (k (host_of th)) th (sets n th) ((vars (host_of th))\<lparr>world := net_world n\<rparr>)) (\<lambda>(S, s).
       Inr \<lparr>net_world = world s, sets = (sets n)(th := S)\<rparr>)"

abbreviation net_step :: "(side \<Rightarrow> 'w kernel) \<Rightarrow> (side \<Rightarrow> 'w plugin_state) \<Rightarrow> 'w net \<Rightarrow> 'w net \<Rightarrow> bool" where
  "net_step k vars \<equiv> sys_step (net_pass k vars)"

abbreviation run_net ::
    "(side \<Rightarrow> 'w kernel) \<Rightarrow> (side \<Rightarrow> 'w plugin_state) \<Rightarrow> thread list \<Rightarrow> 'w net \<Rightarrow> 'w net res" where
  "run_net k vars \<equiv> run_passes (net_pass k vars)"

text \<open>
  The descriptors of a host: the device, the four pipe ends and the socket of its plugin; and
  what the environment does with them.
\<close>

definition socket_of :: "side \<Rightarrow> 'w plugin_state \<Rightarrow> int" where
  "socket_of h s = (case h of Client \<Rightarrow> socketRemote s | Server \<Rightarrow> socketConnected s)"

definition host_fits :: "side \<Rightarrow> 'w plugin_state \<Rightarrow> bool" where
  "host_fits h s \<longleftrightarrow> main_fits (tfd s) (main_fds s) \<and>
     plugin_fits (fst (g_pipe_to_plugin (gv s)), snd (g_pipe_from_plugin (gv s)), socket_of h s)"

definition host_env :: "'w kernel \<Rightarrow> ('w \<Rightarrow> queues) \<Rightarrow> side \<Rightarrow> 'w plugin_state \<Rightarrow> bool" where
  "host_env k q h s \<longleftrightarrow> waits k q \<and>
     leg k q (Read (tfd s) (BLOCK_SIZE - 1)) (Write (snd (g_pipe_to_plugin (gv s)))) h Tap_in \<and>
     leg k q (Read (fst (g_pipe_from_plugin (gv s))) BLOCK_SIZE) (Write (tfd s)) (other h) From_plugin \<and>
     leg k q (Read (fst (g_pipe_to_plugin (gv s))) (BLOCK_SIZE - 1)) (Send (socket_of h s)) h To_plugin \<and>
     leg k q (Recv (socket_of h s) (BLOCK_SIZE - 1)) (Write (snd (g_pipe_from_plugin (gv s)))) (other h) Wire"

definition host_ready :: "'w kernel \<Rightarrow> ('w \<Rightarrow> queues) \<Rightarrow> side \<Rightarrow> 'w plugin_state \<Rightarrow> bool" where
  "host_ready k q h s \<longleftrightarrow>
     offers k q (tfd s) (Read (tfd s) (BLOCK_SIZE - 1)) h Tap_in \<and>
     offers k q (fst (g_pipe_from_plugin (gv s))) (Read (fst (g_pipe_from_plugin (gv s))) BLOCK_SIZE) (other h) From_plugin \<and>
     offers k q (fst (g_pipe_to_plugin (gv s))) (Read (fst (g_pipe_to_plugin (gv s))) (BLOCK_SIZE - 1)) h To_plugin \<and>
     offers k q (socket_of h s) (Recv (socket_of h s) (BLOCK_SIZE - 1)) (other h) Wire"

text \<open>The two queues that a thread reads.\<close>

fun sources :: "thread \<Rightarrow> (side \<times> place) set" where
  "sources (Main_thread h) = {(h, Tap_in), (other h, From_plugin)}"
| "sources (Plugin_thread h) = {(h, To_plugin), (other h, Wire)}"

lemmas pump_moves = pump_hops pump_progress

lemma below_max: "x < (if y < x then x + 1 else y + 1)" "y < (if y < x then x + 1 else y + 1)" for x y :: int
  by simp_all

lemma block_sizes: "Suc 0 < BLOCK_SIZE" "0 < BLOCK_SIZE"
  by (simp_all add: global_consts)

text \<open>The main thread of a host, whatever its plugin.\<close>

lemma MainLoop_pump:
  assumes "MainLoop k S 1 s = Inr (S', s')"
  shows "\<exists>T. pump k (if tfd s > fst (g_pipe_from_plugin (gv s)) then tfd s + 1 else fst (g_pipe_from_plugin (gv s)) + 1)
      (tfd s, Read (tfd s) (BLOCK_SIZE - 1), Write (snd (g_pipe_to_plugin (gv s))))
      (fst (g_pipe_from_plugin (gv s)), Read (fst (g_pipe_from_plugin (gv s))) BLOCK_SIZE, Write (tfd s)) (S, s) = Inr (T, s')"
  using assms by (auto simp: MainLoop_def tun_getFile_def Let_def main_pass_pump map_sum_def split: sum.splits)

lemma MainLoop_moves:
  assumes "MainLoop k S 1 s = Inr (S', s')" "waits k q"
    and "leg k q (Read (tfd s) (BLOCK_SIZE - 1)) (Write (snd (g_pipe_to_plugin (gv s)))) d Tap_in"
    and "leg k q (Read (fst (g_pipe_from_plugin (gv s))) BLOCK_SIZE) (Write (tfd s)) e From_plugin"
  shows "hop\<^sup>=\<^sup>= (q (world s)) (q (world s'))"
    and "\<lbrakk>offers k q (tfd s) (Read (tfd s) (BLOCK_SIZE - 1)) d Tap_in;
      offers k q (fst (g_pipe_from_plugin (gv s))) (Read (fst (g_pipe_from_plugin (gv s))) BLOCK_SIZE) e From_plugin;
      q (world s) d Tap_in \<noteq> [] \<or> q (world s) e From_plugin \<noteq> []\<rbrakk> \<Longrightarrow> hop (q (world s)) (q (world s'))"
proof -
  obtain T where "pump k (if tfd s > fst (g_pipe_from_plugin (gv s)) then tfd s + 1 else fst (g_pipe_from_plugin (gv s)) + 1)
      (tfd s, Read (tfd s) (BLOCK_SIZE - 1), Write (snd (g_pipe_to_plugin (gv s))))
      (fst (g_pipe_from_plugin (gv s)), Read (fst (g_pipe_from_plugin (gv s))) BLOCK_SIZE, Write (tfd s)) (S, s) = Inr (T, s')"
    using MainLoop_pump [OF assms(1)] by blast
  note m = pump_moves [OF assms(3,4,2) this]
  show "hop\<^sup>=\<^sup>= (q (world s)) (q (world s'))"
    by (rule m(1))
  show "\<lbrakk>offers k q (tfd s) (Read (tfd s) (BLOCK_SIZE - 1)) d Tap_in;
      offers k q (fst (g_pipe_from_plugin (gv s))) (Read (fst (g_pipe_from_plugin (gv s))) BLOCK_SIZE) e From_plugin;
      q (world s) d Tap_in \<noteq> [] \<or> q (world s) e From_plugin \<noteq> []\<rbrakk> \<Longrightarrow> hop (q (world s)) (q (world s'))"
    by (rule m(2)) (simp_all add: below_max)
qed

text \<open>
  Every thread has two ports, a descriptor with the calls that read and pass on, and two sources,
  in the order in which it serves them.
\<close>

type_synonym port = "int \<times> xcall \<times> (byte list \<Rightarrow> xcall)"

fun ports :: "thread \<Rightarrow> 'w plugin_state \<Rightarrow> port \<times> port" where
  "ports (Main_thread h) s =
     ((tfd s, Read (tfd s) (BLOCK_SIZE - 1), Write (snd (g_pipe_to_plugin (gv s)))),
      (fst (g_pipe_from_plugin (gv s)), Read (fst (g_pipe_from_plugin (gv s))) BLOCK_SIZE, Write (tfd s)))"
| "ports (Plugin_thread h) s =
     ((socket_of h s, Recv (socket_of h s) (BLOCK_SIZE - 1), Write (snd (g_pipe_from_plugin (gv s)))),
      (fst (g_pipe_to_plugin (gv s)), Read (fst (g_pipe_to_plugin (gv s))) (BLOCK_SIZE - 1), Send (socket_of h s)))"

fun first_source :: "thread \<Rightarrow> side \<times> place" where
  "first_source (Main_thread h) = (h, Tap_in)"
| "first_source (Plugin_thread h) = (other h, Wire)"

fun second_source :: "thread \<Rightarrow> side \<times> place" where
  "second_source (Main_thread h) = (other h, From_plugin)"
| "second_source (Plugin_thread h) = (h, To_plugin)"

lemma thread_pass_pump:
  assumes "thread_pass k th S s = Inr (S', s')" "ports th s = ((a, ra, wa), (b, rb, wb))"
  obtains m T where "pump k m (a, ra, wa) (b, rb, wb) (S, s) = Inr (T, s')" "a < m" "b < m"
proof -
  consider h where "th = Main_thread h" | "th = Plugin_thread Client" | "th = Plugin_thread Server"
    by (metis thread.exhaust side.exhaust)
  then show ?thesis
  proof cases
    case 1
    have "\<exists>T. pump k (if a > b then a + 1 else b + 1) (a, ra, wa) (b, rb, wb) (S, s) = Inr (T, s')"
      using MainLoop_pump [of k S s S' s'] assms by (auto simp: 1)
    then show ?thesis
      using that below_max by blast
  next
    case 2
    have "pump k (if a > b then a + 1 else b + 1) (a, ra, wa) (b, rb, wb) (S, s) = Inr (S', s')"
      using assms by (auto simp: 2 socket_of_def tcp_startClient_def Let_def client_pass_pump)
    then show ?thesis
      using that below_max by blast
  next
    case 3
    have "pump k (if a > b then a + 1 else b + 1) (a, ra, wa) (b, rb, wb) (S, s) = Inr (S', s')"
      using assms by (auto simp: 3 socket_of_def server_pass_pump server_maxfd_def)
    then show ?thesis
      using that below_max by blast
  qed
qed

text \<open>The laws on a thread's ports.\<close>

lemma host_env_ports:
  assumes "host_env k q (host_of th) s" "ports th s = ((a, ra, wa), (b, rb, wb))"
    and "first_source th = (d1, p1)" "second_source th = (d2, p2)"
  shows "waits k q" "leg k q ra wa d1 p1" "leg k q rb wb d2 p2"
  using assms by (cases th; auto simp: host_env_def)+

lemma host_ready_ports:
  assumes "host_ready k q (host_of th) s" "ports th s = ((a, ra, wa), (b, rb, wb))"
    and "first_source th = (d1, p1)" "second_source th = (d2, p2)"
  shows "offers k q a ra d1 p1" "offers k q b rb d2 p2"
  using assms by (cases th; auto simp: host_ready_def)+

lemma sources_ports: "sources th = {first_source th, second_source th}"
  by (cases th) auto

lemma thread_pass_moves:
  assumes "thread_pass k th S s = Inr (S', s')" "host_env k q (host_of th) s"
  shows "hop\<^sup>=\<^sup>= (q (world s)) (q (world s')) \<and>
    (host_ready k q (host_of th) s \<and> (\<exists>(d, p) \<in> sources th. q (world s) d p \<noteq> []) \<longrightarrow> hop (q (world s)) (q (world s')))"
proof -
  obtain a ra wa b rb wb where p: "ports th s = ((a, ra, wa), (b, rb, wb))"
    by (metis prod.exhaust)
  obtain d1 p1 d2 p2 where d: "first_source th = (d1, p1)" "second_source th = (d2, p2)"
    by (metis prod.exhaust)
  obtain m T where m: "pump k m (a, ra, wa) (b, rb, wb) (S, s) = Inr (T, s')" "a < m" "b < m"
    by (rule thread_pass_pump [OF assms(1) p])
  note e = host_env_ports [OF assms(2) p d]
  show ?thesis
    using pump_hops [OF e(2,3,1) m(1)] pump_progress [OF e(2,3,1) m(1) _ _ m(2,3)] host_ready_ports [OF _ p d]
    by (auto simp: sources_ports d)
qed

text \<open>Which copy a pass makes, when the environment is ready.\<close>

lemma thread_pass_serves:
  assumes "thread_pass k th S s = Inr (S', s')" "host_ready k q (host_of th) s"
    and "ports th s = ((a, ra, wa), (b, rb, wb))" "first_source th = (d1, p1)" "second_source th = (d2, p2)"
  obtains m T where "s' = (let t = snd (do_select k m T s) in
    if q (world s) d1 p1 \<noteq> [] then copy k ra wa t else if q (world s) d2 p2 \<noteq> [] then copy k rb wb t else t)"
proof -
  obtain m T where m: "pump k m (a, ra, wa) (b, rb, wb) (S, s) = Inr (T, s')" "a < m" "b < m"
    by (rule thread_pass_pump [OF assms(1,3)])
  show ?thesis
    by (rule pump_serves [OF m(1) host_ready_ports [OF assms(2-5)] m(2,3)]) (rule that)
qed

subsection \<open>Runs of the network\<close>

definition net_env ::
    "(side \<Rightarrow> 'w kernel) \<Rightarrow> (side \<Rightarrow> 'w plugin_state) \<Rightarrow> ('w \<Rightarrow> queues) \<Rightarrow> bool" where
  "net_env k vars q \<longleftrightarrow> (\<forall>h. host_env (k h) q h (vars h))"

definition net_ready ::
    "(side \<Rightarrow> 'w kernel) \<Rightarrow> (side \<Rightarrow> 'w plugin_state) \<Rightarrow> ('w \<Rightarrow> queues) \<Rightarrow> bool" where
  "net_ready k vars q \<longleftrightarrow> (\<forall>h. host_ready (k h) q h (vars h) \<and> host_fits h (vars h))"

lemma socket_of_world [simp]: "socket_of h (s\<lparr>world := w\<rparr>) = socket_of h s"
  by (cases h) (simp_all add: socket_of_def)

lemma host_world [simp]:
  "host_env k q h (s\<lparr>world := w\<rparr>) = host_env k q h s"
  "host_ready k q h (s\<lparr>world := w\<rparr>) = host_ready k q h s"
  "host_fits h (s\<lparr>world := w\<rparr>) = host_fits h s"
  by (simp_all add: host_env_def host_ready_def host_fits_def main_fds_def)

lemma net_pass_moves:
  assumes "net_env k vars q" "net_pass k vars th n = Inr n'"
  shows "hop\<^sup>=\<^sup>= (q (net_world n)) (q (net_world n'))"
    and "\<lbrakk>net_ready k vars q; (d, p) \<in> sources th; q (net_world n) d p \<noteq> []\<rbrakk> \<Longrightarrow> hop (q (net_world n)) (q (net_world n'))"
proof -
  obtain S s where s: "thread_pass (k (host_of th)) th (sets n th) ((vars (host_of th))\<lparr>world := net_world n\<rparr>) = Inr (S, s)"
    "net_world n' = world s"
    using assms(2) by (auto simp: net_pass_def)
  have e: "host_env (k (host_of th)) q (host_of th) ((vars (host_of th))\<lparr>world := net_world n\<rparr>)"
    using assms(1) by (simp add: net_env_def)
  note m = thread_pass_moves [OF s(1) e]
  show "hop\<^sup>=\<^sup>= (q (net_world n)) (q (net_world n'))"
    using m s(2) by simp
  show "hop (q (net_world n)) (q (net_world n'))"
    if "net_ready k vars q" "(d, p) \<in> sources th" "q (net_world n) d p \<noteq> []"
    using m that s(2) by (auto simp: net_ready_def)
qed

lemma net_pass_runs:
  assumes "net_ready k vars q"
  shows "\<exists>n'. net_pass k vars th n = Inr n'"
proof -
  have f: "host_fits h ((vars h)\<lparr>world := net_world n\<rparr>)" for h
    using assms by (simp add: net_ready_def)
  have "\<exists>S s. thread_pass (k (host_of th)) th (sets n th) ((vars (host_of th))\<lparr>world := net_world n\<rparr>) = Inr (S, s)"
  proof (cases th)
    case (Main_thread h)
    then show ?thesis
      using main_pass_runs [of "tfd (vars h)" "(vars h)\<lparr>world := net_world n\<rparr>"] f [of h]
      by (simp add: MainLoop_def tun_getFile_def Let_def host_fits_def)
  next
    case (Plugin_thread h)
    have pf: "plugin_fits (fst (g_pipe_to_plugin (gv (vars h))), snd (g_pipe_from_plugin (gv (vars h))), socket_of h (vars h))"
      using f [of h] by (simp add: host_fits_def)
    with Plugin_thread show ?thesis
      by (cases h) (simp_all add: plugin_pump_runs tcp_startClient_def client_pass_pump server_pass_pump socket_of_def Let_def)
  qed
  then show ?thesis
    by (auto simp: net_pass_def)
qed

lemma some_source: "p \<noteq> Tap_out \<Longrightarrow> \<exists>th. (d, p) \<in> sources th"
proof -
  have o: "other (other d) = d" by (cases d) simp_all
  assume "p \<noteq> Tap_out"
  then consider "p = Tap_in" | "p = To_plugin" | "p = Wire" | "p = From_plugin" by (cases p) simp_all
  then show ?thesis
  proof cases
    case 1 then show ?thesis by (intro exI [of _ "Main_thread d"]) simp
  next
    case 2 then show ?thesis by (intro exI [of _ "Plugin_thread d"]) simp
  next
    case 3 then show ?thesis by (intro exI [of _ "Plugin_thread (other d)"]) (simp add: o)
  next
    case 4 then show ?thesis by (intro exI [of _ "Main_thread (other d)"]) (simp add: o)
  qed
qed

text \<open>The network is a system that moves bytes, and a live one when select and the reads work.\<close>

interpretation tcp_net: queue_system "net_pass k vars" "\<lambda>n. q (net_world n)" "\<lambda>n. net_env k vars q" for k vars q
  by unfold_locales (use net_pass_moves(1) in simp)

interpretation live_net: live_system "net_pass k vars" "\<lambda>n. q (net_world n)" "\<lambda>n. net_env k vars q \<and> net_ready k vars q" sources
  for k vars q
proof unfold_locales
  show "\<lbrakk>net_env k vars q \<and> net_ready k vars q; net_pass k vars th n = Inr n'; (d, p) \<in> sources th; q (net_world n) d p \<noteq> []\<rbrakk>
    \<Longrightarrow> hop (q (net_world n)) (q (net_world n'))" for n th n' d p
    using net_pass_moves(2) [of k vars q th n n' d p] by simp
  show "\<lbrakk>net_env k vars q \<and> net_ready k vars q; net_pass k vars th n = Inr n'\<rbrakk> \<Longrightarrow>
    (net_env k vars q \<and> net_ready k vars q) \<and> hop\<^sup>=\<^sup>= (q (net_world n)) (q (net_world n'))" for n th n'
    using net_pass_moves(1) [of k vars q th n n'] by simp
  show "net_env k vars q \<and> net_ready k vars q \<Longrightarrow> \<exists>n'. net_pass k vars th n = Inr n'" for n th
    using net_pass_runs [of k vars q th n] by simp
qed (rule some_source)

subsection \<open>Properties\<close>

lemma ports_world [simp]: "ports th (s\<lparr>world := w\<rparr>) = ports th s"
  by (cases th) simp_all

text \<open>A pass of the network with something to serve: three calls, and a move of the queues.\<close>

lemma net_pass_copy:
  assumes "net_env k vars q" "net_ready k vars q" "ports th (vars (host_of th)) = ((a, ra, wa), (b, rb, wb))"
    and "first_source th = (d1, p1)" "second_source th = (d2, p2)"
    and "(rd, wr, d, p) = (if q (net_world n) d1 p1 \<noteq> [] then (ra, wa, d1, p1) else (rb, wb, d2, p2))"
    and "q (net_world n) d p \<noteq> []"
  obtains n' c w bs where "net_pass k vars th n = Inr n'" "w = snd (k (host_of th) c (net_world n))" "\<exists>m T. c = Select m T"
    "q w = q (net_world n)" "bs = got (fst (k (host_of th) rd w))" "bs \<noteq> []"
    "net_world n' = snd (k (host_of th) (wr bs) (snd (k (host_of th) rd w)))"
    "q (net_world n') = move d p (length bs) (q (net_world n))"
proof -
  let ?h = "host_of th" and ?s = "(vars (host_of th))\<lparr>world := net_world n\<rparr>"
  obtain n' where n': "net_pass k vars th n = Inr n'"
    using net_pass_runs [OF assms(2)] by blast
  then obtain S' s' where s': "thread_pass (k ?h) th (sets n th) ?s = Inr (S', s')" "net_world n' = world s'"
    by (auto simp: net_pass_def)
  have r: "host_ready (k ?h) q ?h ?s" and e: "host_env (k ?h) q ?h ?s"
    using assms(1,2) by (simp_all add: net_ready_def net_env_def)
  have pt: "ports th ?s = ((a, ra, wa), (b, rb, wb))"
    using assms(3) by simp
  obtain m T where mT: "s' = (let t = snd (do_select (k ?h) m T ?s) in if q (world ?s) d1 p1 \<noteq> [] then copy (k ?h) ra wa t
      else if q (world ?s) d2 p2 \<noteq> [] then copy (k ?h) rb wb t else t)"
    by (rule thread_pass_serves [OF s'(1) r pt assms(4,5)])
  define t where "t = snd (do_select (k ?h) m T ?s)"
  note env = host_env_ports [OF e pt assms(4,5)] and ready = host_ready_ports [OF r pt assms(4,5)]
  have c: "s' = copy (k ?h) rd wr t" "leg (k ?h) q rd wr d p" "\<exists>fd. offers (k ?h) q fd rd d p"
    using mT assms(6,7) env ready by (auto simp: t_def Let_def split: if_splits)
  have w: "world t = snd (k ?h (Select m T) (net_world n))" "q (world t) = q (net_world n)"
    using world_select [OF env(1), of m T ?s] by (simp_all add: t_def do_select_def Let_def split_beta sys_world)
  have g: "got (fst (k ?h rd (world t))) \<noteq> []"
    using c(3) assms(7) w(2) by (auto simp: offers_def)
  have "q (world s') = move d p (length (got (fst (k ?h rd (world t))))) (q (net_world n))"
    using copy_moves [of "k ?h" q rd d p wr t] c(1,2) w(2) by (auto simp: leg_def)
  then show ?thesis
    using that [OF n' w(1) _ w(2) refl g] s'(2) c(1) copy_world [of "k ?h" rd t, OF g] by auto
qed


text \<open>
  C9. Refinement: under the documented behaviour of devices, pipes and the connection, every
  pass of every thread of the two hosts is a step of the abstract system, which moves bytes
  from the front of one queue to the end of the next, or leaves the queues as they are.
\<close>

lemma net_step_refines:
  assumes "net_step k vars n n'" "net_env k vars q"
  shows "hop\<^sup>=\<^sup>= (q (net_world n)) (q (net_world n'))"
  using assms(1) net_pass_moves(1) [OF assms(2)] by (auto simp: sys_step_iff)



subsection \<open>An example network\<close>

text \<open>
  The environment as queues: each descriptor of a host reads from one and writes to one. The
  pipes are 3 to 6, the device is \<open>tap\<close>, any other descriptor is the connection.
\<close>

definition take_from :: "side \<Rightarrow> place \<Rightarrow> nat \<Rightarrow> queues \<Rightarrow> reply \<times> queues" where
  "take_from d p n Q = (reply_bytes (take n (Q d p)), put d p (drop n (Q d p)) Q)"

definition add_to :: "side \<Rightarrow> place \<Rightarrow> byte list \<Rightarrow> queues \<Rightarrow> reply \<times> queues" where
  "add_to d p bs Q = (reply_ok (int (length bs)), put d p (Q d p @ bs) Q)"

definition waiting :: "int \<Rightarrow> side \<Rightarrow> queues \<Rightarrow> int set" where
  "waiting tap h Q = {fd. fd = tap \<and> Q h Tap_in \<noteq> [] \<or> fd = 3 \<and> Q (other h) From_plugin \<noteq> [] \<or>
     fd = 5 \<and> Q h To_plugin \<noteq> [] \<or> fd \<notin> {tap, 3, 5} \<and> Q (other h) Wire \<noteq> []}"

definition queue_kernel :: "int \<Rightarrow> side \<Rightarrow> queues kernel" where
  "queue_kernel tap h c Q =
     (case c of
        Select m S \<Rightarrow> (reply_ready (S \<inter> waiting tap h Q), Q)
      | Read fd n \<Rightarrow>
          if fd = tap then take_from h Tap_in n Q
          else if fd = 3 then take_from (other h) From_plugin n Q
          else if fd = 5 then take_from h To_plugin n Q
          else (reply_ok (- 1), Q)
      | Recv fd n \<Rightarrow> take_from (other h) Wire n Q
      | Write fd bs \<Rightarrow>
          if fd = 6 then add_to h To_plugin bs Q
          else if fd = tap then add_to (other h) Tap_out bs Q
          else if fd = 4 then add_to (other h) From_plugin bs Q
          else (reply_ok (- 1), Q)
      | Send fd bs \<Rightarrow> add_to h Wire bs Q
      | _ \<Rightarrow> (reply_ok (- 1), Q))"

definition example_vars :: "side \<Rightarrow> queues plugin_state" where
  "example_vars h = host_example (case h of Client \<Rightarrow> CLIENT_MODE | Server \<Rightarrow> SERVER_MODE) (\<lambda>d p. [])"

lemma got_bytes: "got (reply_bytes bs) = bs"
  by (simp add: got_def reply_bytes_def reply_ok_def)

lemma example_leg:
  assumes "p \<noteq> Tap_out" "\<And>Q. queue_kernel tap h rd Q = take_from d p n Q"
    and "\<And>bs Q. queue_kernel tap h (wr bs) Q = add_to d (onward p) bs Q"
  shows "leg (queue_kernel tap h) (\<lambda>Q. Q) rd wr d p"
  using assms(1)
  by (simp add: leg_def takes_def gives_def assms(2,3) take_from_def add_to_def got_bytes Let_def)
    (simp add: put_def min_def)

lemma example_offers:
  assumes "\<And>Q. queue_kernel tap h rd Q = take_from d p n Q" "0 < n" "\<And>Q. fd \<in> waiting tap h Q \<longleftrightarrow> Q d p \<noteq> []"
  shows "offers (queue_kernel tap h) (\<lambda>Q. Q) fd rd d p"
  unfolding offers_def assms(1) take_from_def fst_conv got_bytes
  by (simp add: queue_kernel_def reply_ready_def reply_ok_def assms(2,3))

lemma example_vars_ok:
  "tfd (example_vars h) = 9" "g_pipe_from_plugin (gv (example_vars h)) = (3, 4)"
  "g_pipe_to_plugin (gv (example_vars h)) = (5, 6)" "socket_of h (example_vars h) = 7"
  "main_fds (example_vars h) = (3, 6)"
  by (cases h; simp add: example_vars_def host_example_ok example_globals_def socket_of_def)+

text \<open>The laws hold for any host with these descriptors.\<close>

lemma queue_kernel_laws:
  assumes "tfd s = tap" "g_pipe_from_plugin (gv s) = (3, 4)" "g_pipe_to_plugin (gv s) = (5, 6)" "tap \<notin> {3, 4, 5, 6}"
    and "socket_of h s \<notin> {tap, 3, 5}"
  shows "host_env (queue_kernel tap h) (\<lambda>Q. Q) h s" "host_ready (queue_kernel tap h) (\<lambda>Q. Q) h s"
proof -
  show "host_env (queue_kernel tap h) (\<lambda>Q. Q) h s"
    using assms(4) unfolding host_env_def assms(1-3) fst_conv snd_conv
    by (intro conjI example_leg) (simp_all add: queue_kernel_def waits_def)
  show "host_ready (queue_kernel tap h) (\<lambda>Q. Q) h s"
    using assms(4,5) unfolding host_ready_def assms(1-3) fst_conv snd_conv
    by (intro conjI example_offers) (simp_all add: queue_kernel_def waiting_def, simp_all add: block_sizes)
qed

lemma example_env: "net_env (queue_kernel 9) example_vars (\<lambda>Q. Q)"
  using queue_kernel_laws(1) [OF example_vars_ok(1-3)] by (simp add: net_env_def example_vars_ok)

lemma example_ready: "net_ready (queue_kernel 9) example_vars (\<lambda>Q. Q)"
  using queue_kernel_laws(2) [OF example_vars_ok(1-3)]
  by (simp add: net_ready_def host_fits_def example_vars_ok host_example_ok)

text \<open>Two bytes at the client's device, one at the server's.\<close>

definition example_net :: "queues net" where
  "example_net = \<lparr>net_world = (\<lambda>d p. if p = Tap_in then (case d of Client \<Rightarrow> [1, 2] | Server \<Rightarrow> [3]) else []),
     sets = (\<lambda>th. {})\<rparr>"

definition example_round :: "thread list" where
  "example_round = [Main_thread Client, Plugin_thread Client, Plugin_thread Server, Main_thread Server]"

lemma example_round_all: "set example_round = UNIV"
proof -
  have "th \<in> set example_round" for th
    by (cases th; cases "host_of th"; simp add: example_round_def)
  then show ?thesis by blast
qed

lemma example_step: "\<exists>n'. net_step (queue_kernel 9) example_vars example_net n'"
  using net_pass_runs [OF example_ready] sys_step.step by metis

lemma net_step_refines_witness:
  "\<exists>n'. net_step (queue_kernel 9) example_vars example_net n' \<and> hop\<^sup>=\<^sup>= (net_world example_net) (net_world n')"
  using example_step net_step_refines [OF _ example_env] by blast



end
