(* ===== verification/Frames.thy ===== *)
theory Frames
  imports Network
begin

section \<open>Frames of the device\<close>

text \<open>
  The TAP device hands over one Ethernet frame for each read, the oldest one; what does not fit
  into the buffer of the read is gone (the documented behaviour of the Linux driver). \<open>MainLoop\<close>
  reads with a buffer of 1504 bytes. This theory says what becomes of the frames: in one main
  loop, whatever else happens, and from device to device in the network of two hosts.
\<close>

subsection \<open>A device of frames\<close>

text \<open>A read fails, or takes the next frame and returns what fits of it.\<close>

definition frame_read :: "nat \<Rightarrow> byte list list \<Rightarrow> reply \<Rightarrow> byte list list \<Rightarrow> bool" where
  "frame_read n fs r fs' \<longleftrightarrow> r_ret r \<le> 0 \<and> fs' = fs \<or> (\<exists>f. f \<noteq> [] \<and> fs = f # fs' \<and> got r = take n f)"

text \<open>
  \<open>fr w\<close> are the frames that wait in the device \<open>fd\<close>; any call may find that others have arrived.
\<close>

definition frame_device :: "'w kernel \<Rightarrow> ('w \<Rightarrow> byte list list) \<Rightarrow> int \<Rightarrow> bool" where
  "frame_device k fr fd \<longleftrightarrow>
     (\<forall>n w. \<exists>arrived. frame_read n (fr w @ arrived) (fst (k (Read fd n) w)) (fr (snd (k (Read fd n) w)))) \<and>
     (\<forall>c w. \<not> reads_from fd c \<longrightarrow> (\<exists>arrived. fr (snd (k c w)) = fr w @ arrived))"

lemma frame_device_read:
  assumes "frame_device k fr fd"
  obtains arrived where "frame_read n (fr w @ arrived) (fst (k (Read fd n) w)) (fr (snd (k (Read fd n) w)))"
  using assms by (meson frame_device_def)

lemma frame_device_other:
  assumes "frame_device k fr fd" "\<not> reads_from fd c"
  obtains arrived where "fr (snd (k c w)) = fr w @ arrived"
  using assms by (meson frame_device_def)

text \<open>What a pass of \<open>MainLoop\<close> reads of a frame.\<close>

definition fitting :: "byte list \<Rightarrow> byte list" where
  "fitting f = take (BLOCK_SIZE - 1) f"

lemma fitting_whole: "fitting f = f \<longleftrightarrow> length f < BLOCK_SIZE"
  by (auto simp: fitting_def take_all_iff global_consts)

lemma fitting_Nil: "fitting f = [] \<longleftrightarrow> f = []"
  by (simp add: fitting_def global_consts)

text \<open>The blocks written to a descriptor, one for each call.\<close>

fun block_written :: "int \<Rightarrow> xcall \<Rightarrow> byte list list" where
  "block_written fd (Write fd' bs) = (if fd' = fd then [bs] else [])"
| "block_written fd _ = []"

definition written :: "int \<Rightarrow> (xcall \<times> reply) list \<Rightarrow> byte list list" where
  "written fd t = concat (map (\<lambda>(c, r). block_written fd c) t)"

lemma written_simps [simp]:
  "written fd [] = []" "written fd (t @ u) = written fd t @ written fd u"
  "written fd ((c, r) # t) = block_written fd c @ written fd t"
  by (simp_all add: written_def)

subsection \<open>One main loop\<close>

text \<open>
  From \<open>s\<close> to \<open>s'\<close> the frames \<open>gone\<close> left the device, and each was written, cut, with a call of
  its own.
\<close>

definition hands_on ::
    "('w \<Rightarrow> byte list list) \<Rightarrow> int \<Rightarrow> ('w, 'z) sys_state_scheme \<Rightarrow> ('w, 'z) sys_state_scheme \<Rightarrow> bool" where
  "hands_on fr out s s' \<longleftrightarrow>
     (\<exists>new gone arrived. trace s' = trace s @ new \<and> fr (world s) @ arrived = gone @ fr (world s') \<and>
        written out new = map fitting gone)"

lemma hands_on_refl: "hands_on fr out s s"
  by (fastforce simp: hands_on_def)

lemma hands_on_trans:
  assumes "hands_on fr out s t" "hands_on fr out t u"
  shows "hands_on fr out s u"
proof -
  obtain n1 g1 a1 n2 g2 a2 where
    "trace t = trace s @ n1" "fr (world s) @ a1 = g1 @ fr (world t)" "written out n1 = map fitting g1"
    "trace u = trace t @ n2" "fr (world t) @ a2 = g2 @ fr (world u)" "written out n2 = map fitting g2"
    using assms unfolding hands_on_def by blast
  then have "trace u = trace s @ (n1 @ n2) \<and> fr (world s) @ (a1 @ a2) = (g1 @ g2) @ fr (world u) \<and>
      written out (n1 @ n2) = map fitting (g1 @ g2)"
    by (metis append_assoc map_append written_simps(2))
  then show ?thesis
    unfolding hands_on_def by blast
qed

text \<open>A call that neither reads the device nor writes to \<open>out\<close> hands nothing on.\<close>

lemma hands_on_sys:
  assumes "frame_device k fr fd" "\<not> reads_from fd c" "block_written out c = []"
  shows "hands_on fr out s (snd (sys k c s))"
proof -
  obtain arrived where "fr (snd (k c (world s))) = fr (world s) @ arrived"
    by (rule frame_device_other [OF assms(1,2)])
  then show ?thesis
    using assms(3) by (fastforce simp: hands_on_def sys_trace sys_world)
qed

lemma hands_on_other:
  assumes "frame_device k fr fd" "\<not> reads_from fd rd" "block_written out rd = []"
    and "\<And>bs. \<not> reads_from fd (wr bs) \<and> block_written out (wr bs) = []"
  shows "hands_on fr out s (copy k rd wr s)"
proof -
  have "hands_on fr out s (snd (sys k rd s))"
    by (rule hands_on_sys [OF assms(1-3)])
  moreover have "hands_on fr out t (snd (sys k (wr bs) t))" for bs and t :: "('a, 'b) sys_state_scheme"
    using hands_on_sys [OF assms(1)] assms(4) by blast
  ultimately show ?thesis
    by (simp add: copy_def Let_def split_beta hands_on_trans)
qed

text \<open>A pass over the device hands on one frame or none.\<close>

lemma hands_on_device:
  assumes "frame_device k fr fd" "fd \<noteq> out"
  shows "hands_on fr out s (copy k (Read fd (BLOCK_SIZE - 1)) (Write out) s)"
proof -
  define r where "r = fst (sys k (Read fd (BLOCK_SIZE - 1)) s)"
  define t where "t = snd (sys k (Read fd (BLOCK_SIZE - 1)) s)"
  have t: "trace t = trace s @ [(Read fd (BLOCK_SIZE - 1), r)]"
    by (simp add: t_def r_def sys_trace)
  obtain a where a: "frame_read (BLOCK_SIZE - 1) (fr (world s) @ a) r (fr (world t))"
    unfolding t_def r_def sys_reply sys_world by (rule frame_device_read [OF assms(1)])
  have c: "copy k (Read fd (BLOCK_SIZE - 1)) (Write out) s = (if r_ret r \<le> 0 then t else snd (sys k (Write out (got r)) t))"
    by (simp add: copy_def r_def t_def Let_def split_beta)
  consider "r_ret r \<le> 0" "fr (world t) = fr (world s) @ a"
    | f where "f \<noteq> []" "fr (world s) @ a = f # fr (world t)" "got r = fitting f"
    using a by (auto simp: frame_read_def fitting_def)
  then show ?thesis
  proof cases
    case 1
    then show ?thesis
      unfolding c hands_on_def using t by fastforce
  next
    case 2
    then have "0 < r_ret r"
      using fitting_Nil got_failed by (metis not_less)
    moreover obtain b where "fr (snd (k (Write out (got r)) (world t))) = fr (world t) @ b"
      using frame_device_other [OF assms(1), of "Write out (got r)"] by auto
    ultimately show ?thesis
      using t 2 unfolding hands_on_def c
      by (intro exI [of _ "[(Read fd (BLOCK_SIZE - 1), r), (Write out (got r), fst (sys k (Write out (got r)) t))]"]
          exI [of _ "[f]"] exI [of _ "a @ b"]) (simp add: sys_trace sys_world)
  qed
qed

text \<open>A pass, and any number of them.\<close>

lemma main_pass_hands_on:
  assumes "frame_device k fr fd" "main_fits fd (main_fds s)" "main_pass k fd m (S, s) = Inr (S', s')"
  shows "hands_on fr (snd (main_fds s)) s s'"
proof -
  let ?pin = "fst (main_fds s)" and ?pout = "snd (main_fds s)"
  have d: "?pin \<noteq> fd" "?pout \<noteq> fd"
    using assms(2) by (auto simp: main_fits_def split_beta)
  obtain R where "pump k m (fd, Read fd (BLOCK_SIZE - 1), Write ?pout) (?pin, Read ?pin BLOCK_SIZE, Write fd) (S, s) = Inr (R, s')"
    by (rule main_pass_is_pump [OF assms(3)])
  then obtain T where T: "s' = (let (T', t) = do_select k m T s in
      if fd \<in> T' then copy k (Read fd (BLOCK_SIZE - 1)) (Write ?pout) t
      else if ?pin \<in> T' then copy k (Read ?pin BLOCK_SIZE) (Write fd) t else t)"
    by (rule pump_run)
  have "hands_on fr ?pout s (snd (do_select k m T s))"
    by (simp add: do_select_def Let_def split_beta hands_on_sys [OF assms(1)])
  moreover have "hands_on fr ?pout t (copy k (Read fd (BLOCK_SIZE - 1)) (Write ?pout) t)"
    "hands_on fr ?pout t (copy k (Read ?pin BLOCK_SIZE) (Write fd) t)" for t :: "('a, 'b) tun_state_scheme"
    using d by (auto intro: hands_on_device [OF assms(1), simplified] hands_on_other [OF assms(1)])
  ultimately show ?thesis
    by (auto simp: T Let_def split_beta intro: hands_on_trans)
qed

lemma passes_hand_on:
  "\<lbrakk>frame_device k fr fd; main_fits fd (main_fds s); passes n (main_pass k fd m) (S, s) = Inr (S', s')\<rbrakk>
    \<Longrightarrow> hands_on fr (snd (main_fds s)) s s'"
proof (induction n arbitrary: S s)
  case (Suc n)
  then obtain T t where t: "main_pass k fd m (S, s) = Inr (T, t)" "passes n (main_pass k fd m) (T, t) = Inr (S', s')"
    by auto
  have "main_fds t = main_fds s"
    using main_pass_effect [OF t(1)] by (auto simp: main_fds_def same_vars_tun)
  then show ?case
    using main_pass_hands_on [OF Suc.prems(1,2) t(1)] Suc.IH [OF Suc.prems(1) _ t(2)] Suc.prems(2)
    by (auto intro: hands_on_trans)
qed (simp add: hands_on_refl)

text \<open>
  C17. Frames in one main loop, for any number of passes, whatever the kernel answers otherwise:
  every frame that leaves the device is written to the plugin's pipe with one write of its own, in
  order, but only its first 1504 bytes. So frames pass whole exactly when none is longer: an
  Ethernet frame of full size has 1514 bytes, and loses its last ten.
\<close>

lemma frames_are_cut:
  assumes "main_fds s = (pin, pout)" "main_fits (tfd s) (pin, pout)" "frame_device k fr (tfd s)"
  shows "\<exists>S' s' new gone arrived. MainLoop k S n s = Inr (S', s') \<and> trace s' = trace s @ new \<and>
    fr (world s) @ arrived = gone @ fr (world s') \<and> written pout new = map (take (BLOCK_SIZE - 1)) gone \<and>
    (written pout new = gone \<longleftrightarrow> (\<forall>f \<in> set gone. length f < BLOCK_SIZE))"
proof -
  define m where "m = (if tfd s > pin then tfd s + 1 else pin + 1)"
  have f: "main_fits (tfd s) (main_fds s)" "snd (main_fds s) = pout"
    using assms(1,2) by simp_all
  have run: "MainLoop k S n s = passes n (main_pass k (tfd s) m) (S, s)"
    using assms(1) by (simp add: MainLoop_def tun_getFile_def Let_def main_fds_def m_def)
  obtain S' s' where s': "passes n (main_pass k (tfd s) m) (S, s) = Inr (S', s')"
    using main.any_number_of_passes [OF f(1)] by blast
  from passes_hand_on [OF assms(3) f(1) this] obtain new gone arrived where
    "trace s' = trace s @ new" "fr (world s) @ arrived = gone @ fr (world s')" "written pout new = map fitting gone"
    unfolding hands_on_def f(2) by blast
  moreover have "map fitting gone = gone \<longleftrightarrow> (\<forall>f \<in> set gone. length f < BLOCK_SIZE)"
    using map_eq_conv [of fitting gone "\<lambda>f. f"] by (simp add: fitting_whole)
  ultimately show ?thesis
    using s' by (auto simp: run fitting_def [abs_def])
qed

subsection \<open>From device to device\<close>

text \<open>
  In the network of two hosts the queue of bytes that wait at a device is what the main loop will
  read of its frames. A device of frames then obeys the laws of \<open>Queues\<close>, whatever the
  frames' lengths.
\<close>

definition framed :: "('w \<Rightarrow> side \<Rightarrow> byte list list) \<Rightarrow> ('w \<Rightarrow> queues) \<Rightarrow> 'w \<Rightarrow> queues" where
  "framed fr q w d p = (if p = Tap_in then concat (map fitting (fr w d)) else q w d p)"

definition tap_frames :: "'w kernel \<Rightarrow> ('w \<Rightarrow> side \<Rightarrow> byte list list) \<Rightarrow> ('w \<Rightarrow> queues) \<Rightarrow> side \<Rightarrow> int \<Rightarrow> bool" where
  "tap_frames k fr q h fd \<longleftrightarrow>
     (\<forall>n w. let (r, w') = k (Read fd n) w in
        frame_read n (fr w h) r (fr w' h) \<and> fr w' (other h) = fr w (other h) \<and> q w' = q w)"

lemma tap_takes:
  assumes "tap_frames k fr q h fd"
  shows "takes k (framed fr q) (Read fd (BLOCK_SIZE - 1)) h Tap_in"
  unfolding takes_def
proof
  fix w
  obtain r w' where k: "k (Read fd (BLOCK_SIZE - 1)) w = (r, w')" by fastforce
  have t: "frame_read (BLOCK_SIZE - 1) (fr w h) r (fr w' h)" "fr w' (other h) = fr w (other h)" "q w' = q w"
    using assms [unfolded tap_frames_def, rule_format, of "BLOCK_SIZE - 1" w] k by simp_all
  have o: "fr w' d = fr w d" if "d \<noteq> h" for d
    using t(2) that by (cases d; cases h) simp_all
  consider "got r = []" "fr w' h = fr w h" | f where "fr w h = f # fr w' h" "got r = fitting f"
    using t(1) by (auto simp: frame_read_def fitting_def)
  then show "let (r, w') = k (Read fd (BLOCK_SIZE - 1)) w; j = length (got r) in
      j \<le> length (framed fr q w h Tap_in) \<and> got r = take j (framed fr q w h Tap_in) \<and>
      framed fr q w' = put h Tap_in (drop j (framed fr q w h Tap_in)) (framed fr q w)"
    using k by cases (auto simp: framed_def put_def fun_eq_iff o t(3))
qed

text \<open>
  A host whose device is one of frames: the device reports that frames wait and hands them over,
  the other calls obey the laws of \<open>Network\<close>.
\<close>

definition tap_ready :: "'w kernel \<Rightarrow> ('w \<Rightarrow> side \<Rightarrow> byte list list) \<Rightarrow> side \<Rightarrow> int \<Rightarrow> bool" where
  "tap_ready k fr h fd \<longleftrightarrow>
     (\<forall>m S w. 0 \<le> r_ret (fst (k (Select m S) w)) \<and>
        (fd \<in> S \<and> fd < m \<longrightarrow> (fd \<in> r_ready (fst (k (Select m S) w)) \<longleftrightarrow> fr w h \<noteq> []))) \<and>
     (\<forall>n w. fr w h \<noteq> [] \<and> 0 < n \<longrightarrow> got (fst (k (Read fd n) w)) \<noteq> []) \<and> (\<forall>w. [] \<notin> set (fr w h))"

definition frame_host ::
    "'w kernel \<Rightarrow> ('w \<Rightarrow> side \<Rightarrow> byte list list) \<Rightarrow> ('w \<Rightarrow> queues) \<Rightarrow> side \<Rightarrow> 'w plugin_state \<Rightarrow> bool" where
  "frame_host k fr q h s \<longleftrightarrow>
     (let Q = framed fr q; pin = fst (g_pipe_from_plugin (gv s)); qin = fst (g_pipe_to_plugin (gv s)); sock = socket_of h s;
          rp = Read pin BLOCK_SIZE; rq = Read qin (BLOCK_SIZE - 1); rs = Recv sock (BLOCK_SIZE - 1)
      in tap_frames k fr q h (tfd s) \<and> tap_ready k fr h (tfd s) \<and> waits k Q \<and>
         gives k Q (Write (snd (g_pipe_to_plugin (gv s)))) h To_plugin \<and>
         leg k Q rp (Write (tfd s)) (other h) From_plugin \<and> offers k Q pin rp (other h) From_plugin \<and>
         leg k Q rq (Send sock) h To_plugin \<and> offers k Q qin rq h To_plugin \<and>
         leg k Q rs (Write (snd (g_pipe_from_plugin (gv s)))) (other h) Wire \<and> offers k Q sock rs (other h) Wire)"

lemma tap_offers:
  assumes "tap_ready k fr h fd"
  shows "offers k (framed fr q) fd (Read fd (BLOCK_SIZE - 1)) h Tap_in"
proof -
  have "framed fr q w h Tap_in \<noteq> [] \<longleftrightarrow> fr w h \<noteq> []" for w
    using assms by (cases "fr w h") (auto simp: framed_def tap_ready_def fitting_Nil dest: spec [of _ w])
  then show ?thesis
    using assms by (simp add: offers_def tap_ready_def global_consts)
qed

lemma frame_host_laws:
  assumes "frame_host k fr q h s"
  shows "host_env k (framed fr q) h s" "host_ready k (framed fr q) h s"
  using assms tap_takes [of k fr q h "tfd s"] tap_offers [of k fr h "tfd s" q]
  unfolding frame_host_def host_env_def host_ready_def Let_def leg_def by simp_all


subsection \<open>An example\<close>

text \<open>
  The environment of \<open>Network\<close> with devices of frames; empty frames are skipped. It also keeps the
  frames that were written to the devices.
\<close>

record frame_world =
  fw_frames :: "side \<Rightarrow> byte list list"
  fw_queues :: queues
  fw_out :: "side \<Rightarrow> byte list list"

definition frames_at :: "frame_world \<Rightarrow> side \<Rightarrow> byte list list" where
  "frames_at w h = filter (\<lambda>f. f \<noteq> []) (fw_frames w h)"

definition frame_kernel :: "side \<Rightarrow> frame_world kernel" where
  "frame_kernel h c w =
     (if reads_from 9 c then
        case (c, frames_at w h) of
          (Read fd n, f # fs) \<Rightarrow> (reply_bytes (take n f), w\<lparr>fw_frames := (fw_frames w)(h := fs)\<rparr>)
        | _ \<Rightarrow> (reply_ok (- 1), w)
      else
        let (r, Q) = queue_kernel 9 h c (framed frames_at fw_queues w)
        in (r, w\<lparr>fw_queues := Q, fw_out := (fw_out w)(h := fw_out w h @ block_written 9 c)\<rparr>))"

definition full_frame :: "byte list" where
  "full_frame = replicate 1514 7"

lemma full_frame: "full_frame \<noteq> []" "length full_frame = 1514" "take (BLOCK_SIZE - 1) full_frame = replicate 1504 7"
  by (simp_all add: full_frame_def global_consts take_replicate)

definition frame_net :: "frame_world net" where
  "frame_net = \<lparr>net_world = \<lparr>fw_frames = (\<lambda>d. case d of Client \<Rightarrow> [full_frame, [1, 2]] | Server \<Rightarrow> [[3]]),
     fw_queues = (\<lambda>d p. []), fw_out = (\<lambda>d. [])\<rparr>, sets = (\<lambda>th. {})\<rparr>"

definition frame_vars :: "side \<Rightarrow> frame_world plugin_state" where
  "frame_vars h = host_example (case h of Client \<Rightarrow> CLIENT_MODE | Server \<Rightarrow> SERVER_MODE) (net_world frame_net)"

lemma frame_vars_ok:
  "tfd (frame_vars h) = 9" "g_pipe_from_plugin (gv (frame_vars h)) = (3, 4)"
  "g_pipe_to_plugin (gv (frame_vars h)) = (5, 6)" "socket_of h (frame_vars h) = 7" "main_fds (frame_vars h) = (3, 6)"
  by (cases h; simp add: frame_vars_def host_example_ok example_globals_def socket_of_def)+

lemma frames_at_update:
  "frames_at (w\<lparr>fw_queues := Q, fw_out := X\<rparr>) = frames_at w"
  "frames_at w h = f # fs \<Longrightarrow> f \<noteq> [] \<and>
     frames_at (w\<lparr>fw_frames := (fw_frames w)(h := fs)\<rparr>) = (frames_at w)(h := fs)"
  by (auto simp: fun_eq_iff frames_at_def filter_eq_Cons_iff)

text \<open>Away from the devices it is the environment of queues.\<close>

lemma frame_kernel_queues:
  assumes "\<not> reads_from 9 c"
  shows "fst (frame_kernel h c w) = fst (queue_kernel 9 h c (framed frames_at fw_queues w))"
    and "framed frames_at fw_queues (snd (frame_kernel h c w)) = snd (queue_kernel 9 h c (framed frames_at fw_queues w))"
proof -
  have "snd (queue_kernel 9 h c Q) e Tap_in = Q e Tap_in" for Q e
    using assms by (cases c) (auto simp: queue_kernel_def take_from_def add_to_def put_def)
  then show "framed frames_at fw_queues (snd (frame_kernel h c w)) = snd (queue_kernel 9 h c (framed frames_at fw_queues w))"
    using assms by (auto simp: fun_eq_iff frame_kernel_def split_beta Let_def framed_def frames_at_update)
qed (use assms in \<open>simp add: frame_kernel_def split_beta Let_def\<close>)

lemma frame_kernel_laws:
  assumes "\<not> reads_from 9 rd"
  shows "takes (queue_kernel 9 h) (\<lambda>Q. Q) rd d p \<Longrightarrow> takes (frame_kernel h) (framed frames_at fw_queues) rd d p"
    and "offers (queue_kernel 9 h) (\<lambda>Q. Q) fd rd d p \<Longrightarrow> offers (frame_kernel h) (framed frames_at fw_queues) fd rd d p"
  using assms by (simp_all add: takes_def offers_def Let_def split_beta frame_kernel_queues)

lemma frame_kernel_gives:
  assumes "gives (queue_kernel 9 h) (\<lambda>Q. Q) wr d p" "\<And>bs. \<not> reads_from 9 (wr bs)"
  shows "gives (frame_kernel h) (framed frames_at fw_queues) wr d p"
  using assms by (simp add: gives_def frame_kernel_queues)

lemma frame_kernel_read:
  "frame_kernel h (Read 9 n) w = (case frames_at w h of [] \<Rightarrow> (reply_ok (- 1), w)
     | f # fs \<Rightarrow> (reply_bytes (take n f), w\<lparr>fw_frames := (fw_frames w)(h := fs)\<rparr>))"
  by (simp add: frame_kernel_def split: list.split)

lemma frame_kernel_frames:
  "frame_read n (frames_at w h) (fst (frame_kernel h (Read 9 n) w)) (frames_at (snd (frame_kernel h (Read 9 n) w)) h)"
  "frames_at (snd (frame_kernel h (Read 9 n) w)) (other h) = frames_at w (other h)"
  "fw_queues (snd (frame_kernel h (Read 9 n) w)) = fw_queues w"
  by (cases "frames_at w h"; cases h; auto simp: frame_kernel_read frame_read_def frames_at_update got_bytes reply_ok_def)+

lemma frame_kernel_device: "frame_device (frame_kernel h) (\<lambda>w. frames_at w h) 9"
proof -
  have "frames_at (snd (frame_kernel h c w)) h = frames_at w h" if "\<not> reads_from 9 c" for c w
    using that by (simp add: frame_kernel_def split_beta Let_def frames_at_update)
  then show ?thesis
    by (auto simp: frame_device_def frame_kernel_frames intro!: exI [of _ "[] :: byte list list"])
qed

lemma frame_kernel_host: "frame_host (frame_kernel h) frames_at fw_queues h (frame_vars h)"
proof -
  let ?Q = "framed frames_at fw_queues"
  have t: "tap_frames (frame_kernel h) frames_at fw_queues h 9"
    using frame_kernel_frames by (simp add: tap_frames_def Let_def split_beta)
  have "frames_at w h \<noteq> [] \<longleftrightarrow> framed frames_at fw_queues w h Tap_in \<noteq> []" "[] \<notin> set (frames_at w h)" for w
    by (auto simp: framed_def frames_at_def fitting_Nil filter_empty_conv)
  then have r: "tap_ready (frame_kernel h) frames_at h 9"
    by (auto simp: tap_ready_def frame_kernel_queues frame_kernel_read got_bytes queue_kernel_def reply_ready_def
        reply_ok_def waiting_def split: list.split dest!: frames_at_update(2))
  note l = queue_kernel_laws [OF example_vars_ok(1-3) [of h], of h, unfolded host_env_def host_ready_def leg_def example_vars_ok fst_conv snd_conv]
  show ?thesis
    using t r l unfolding frame_host_def frame_vars_ok Let_def leg_def fst_conv snd_conv
    by (simp add: waits_def frame_kernel_queues frame_kernel_laws frame_kernel_gives)
qed

lemma frames_are_cut_witness:
  "\<exists>S' s' new gone arrived. MainLoop (frame_kernel Client) {} 1 (frame_vars Client) = Inr (S', s') \<and> trace s' = new \<and>
     [full_frame, [1, 2]] @ arrived = gone @ frames_at (world s') Client \<and> written 6 new = map (take (BLOCK_SIZE - 1)) gone"
proof -
  have w: "frames_at (world (frame_vars Client)) Client = [full_frame, [1, 2]]" "trace (frame_vars Client) = []"
    by (simp_all add: frame_vars_def host_example_ok frame_net_def frames_at_def full_frame)
  show ?thesis
    using frames_are_cut [where s = "frame_vars Client" and pin = 3 and pout = 6 and n = 1 and S = "{}",
        unfolded frame_vars_ok(1), OF frame_vars_ok(5) host_example_ok(4) frame_kernel_device [of Client]]
    unfolding w append_Nil by blast
qed


end
