(* ===== verification/Frame_Transport.thy ===== *)
theory Frame_Transport
  imports Frames
begin

section \<open>Frames that travel alone\<close>

text \<open>
  The tunnel does not mark where a frame ends. It still keeps frames apart when each one is through
  before the next is read: then every buffer on the way holds one frame, and one read of it takes
  all. This theory follows a frame through the four threads.
\<close>

subsection \<open>Hosts that read all there is\<close>

text \<open>
  A read of a pipe or of the connection returns all that waits, up to the size of the buffer; a
  write to a device is one frame of it.
\<close>

definition drains :: "'w kernel \<Rightarrow> ('w \<Rightarrow> queues) \<Rightarrow> (nat \<Rightarrow> xcall) \<Rightarrow> side \<Rightarrow> place \<Rightarrow> bool" where
  "drains k q rd d p \<longleftrightarrow> (\<forall>n w. got (fst (k (rd n) w)) = take n (q w d p))"

definition tap_sends :: "'w kernel \<Rightarrow> ('w \<Rightarrow> side \<Rightarrow> byte list list) \<Rightarrow> side \<Rightarrow> int \<Rightarrow> bool" where
  "tap_sends k out h fd \<longleftrightarrow>
     (\<forall>bs w. out (snd (k (Write fd bs) w)) = (out w)(h := out w h @ [bs])) \<and>
     (\<forall>c w. (\<forall>bs. c \<noteq> Write fd bs) \<longrightarrow> out (snd (k c w)) = out w)"

definition whole_host ::
    "'w kernel \<Rightarrow> ('w \<Rightarrow> side \<Rightarrow> byte list list) \<Rightarrow> ('w \<Rightarrow> side \<Rightarrow> byte list list) \<Rightarrow> ('w \<Rightarrow> queues) \<Rightarrow> side
      \<Rightarrow> 'w plugin_state \<Rightarrow> bool" where
  "whole_host k fr out q h s \<longleftrightarrow> frame_host k fr q h s \<and> host_fits h s \<and> tap_sends k out h (tfd s) \<and>
     tfd s \<notin> {fst (g_pipe_to_plugin (gv s)), snd (g_pipe_from_plugin (gv s)), socket_of h s} \<and>
     (\<forall>c w. \<not> reads_from (tfd s) c \<longrightarrow> fr (snd (k c w)) = fr w) \<and>
     drains k (framed fr q) (Read (fst (g_pipe_from_plugin (gv s)))) (other h) From_plugin \<and>
     drains k (framed fr q) (Read (fst (g_pipe_to_plugin (gv s)))) h To_plugin \<and>
     drains k (framed fr q) (Recv (socket_of h s)) (other h) Wire"

text \<open>On the way from \<open>h\<close> there is something at \<open>p\<close> only, and at the device.\<close>

definition only :: "queues \<Rightarrow> side \<Rightarrow> place \<Rightarrow> bool" where
  "only Q h p \<longleftrightarrow> (\<forall>d p'. p' \<noteq> Tap_out \<and> Q d p' \<noteq> [] \<longrightarrow> d = h \<and> p' \<in> {p, Tap_in})"

fun carrier :: "side \<Rightarrow> place \<Rightarrow> thread" where
  "carrier h Tap_in = Main_thread h"
| "carrier h To_plugin = Plugin_thread h"
| "carrier h Wire = Plugin_thread (other h)"
| "carrier h p = Main_thread (other h)"

lemma only_empty: "\<lbrakk>only Q h p; d \<noteq> h; p' \<noteq> Tap_out\<rbrakk> \<Longrightarrow> Q d p' = []"
  by (auto simp: only_def)

lemma only_move:
  assumes "only Q h p" "p \<noteq> Tap_in" "p \<noteq> Tap_out"
  shows "only (move h p (length (Q h p)) Q) h (onward p)"
    and "onward p \<noteq> Tap_out \<Longrightarrow> move h p (length (Q h p)) Q h (onward p) = Q h p"
proof -
  show "only (move h p (length (Q h p)) Q) h (onward p)"
    using assms by (auto simp: only_def move_def put_def split: if_splits)
  show "move h p (length (Q h p)) Q h (onward p) = Q h p" if "onward p \<noteq> Tap_out"
    using assms that by (cases p) (auto simp: only_def move_def put_def)
qed

lemma whole_laws:
  assumes "\<forall>h. whole_host (k h) fr out q h (vars h)"
  shows "net_env k vars (framed fr q)" "net_ready k vars (framed fr q)"
  using assms by (simp_all add: whole_host_def net_env_def net_ready_def frame_host_laws)

lemma whole_quiet:
  assumes "whole_host k fr out q h s"
  shows "fr (snd (k (Select m T) w)) = fr w" "out (snd (k (Select m T) w)) = out w"
  using assms by (simp_all add: whole_host_def tap_sends_def)

lemma whole_frames:
  assumes "whole_host k fr out q h s"
  shows "f \<in> set (fr w h) \<Longrightarrow> f \<noteq> []" "tap_frames k fr q h (tfd s)"
  using assms by (auto simp: whole_host_def frame_host_def tap_ready_def Let_def)

text \<open>The calls that take bytes from a place onward, on the host whose thread does it.\<close>

fun carrying_calls :: "place \<Rightarrow> side \<Rightarrow> 'w plugin_state \<Rightarrow> xcall \<times> (byte list \<Rightarrow> xcall)" where
  "carrying_calls To_plugin h s = (Read (fst (g_pipe_to_plugin (gv s))) (BLOCK_SIZE - 1), Send (socket_of h s))"
| "carrying_calls Wire h s = (Recv (socket_of h s) (BLOCK_SIZE - 1), Write (snd (g_pipe_from_plugin (gv s))))"
| "carrying_calls _ h s = (Read (fst (g_pipe_from_plugin (gv s))) BLOCK_SIZE, Write (tfd s))"

lemma whole_drains:
  assumes "whole_host k fr out q h s" "carrying_calls p h s = (rd, wr)" "p \<in> {To_plugin, Wire, From_plugin}"
    and "framed fr q w (if p = To_plugin then h else other h) p = bs" "length bs \<le> BLOCK_SIZE - 1"
  shows "got (fst (k rd w)) = bs"
  using assms by (auto simp: whole_host_def drains_def)

lemma whole_calls:
  assumes "whole_host k fr out q h s" "carrying_calls p h s = (rd, wr)" "p \<in> {To_plugin, Wire, From_plugin}"
  shows "fr (snd (k (wr bs) (snd (k rd w)))) = fr w"
    and "out (snd (k (wr bs) (snd (k rd w)))) = (if p = From_plugin then (out w)(h := out w h @ [bs]) else out w)"
proof -
  have tap: "tfd s \<noteq> fst (g_pipe_from_plugin (gv s))"
    using assms(1) by (auto simp: whole_host_def host_fits_def main_fits_def main_fds_def)
  show "fr (snd (k (wr bs) (snd (k rd w)))) = fr w"
    using assms tap by (auto simp: whole_host_def)
  show "out (snd (k (wr bs) (snd (k rd w)))) = (if p = From_plugin then (out w)(h := out w h @ [bs]) else out w)"
    using assms by (auto simp: whole_host_def tap_sends_def)
qed

lemma carried:
  assumes w: "\<forall>h. whole_host (k h) fr out q h (vars h)"
    and "only (framed fr q (net_world n)) h p" "p \<in> {To_plugin, Wire, From_plugin}"
    and bs: "framed fr q (net_world n) h p = bs" "bs \<noteq> []" "length bs \<le> BLOCK_SIZE - 1"
  shows "\<exists>n'. net_pass k vars (carrier h p) n = Inr n' \<and> framed fr q (net_world n') = move h p (length bs) (framed fr q (net_world n)) \<and>
    fr (net_world n') = fr (net_world n) \<and>
    out (net_world n') = (if p = From_plugin then (out (net_world n))(other h := out (net_world n) (other h) @ [bs]) else out (net_world n))"
proof -
  let ?Q = "framed fr q" and ?th = "carrier h p"
  let ?h = "host_of ?th"
  have wh: "whole_host (k ?h) fr out q ?h (vars ?h)"
    using w by blast
  obtain a ra wa b rb wb where pt: "ports ?th (vars ?h) = ((a, ra, wa), (b, rb, wb))"
    by (metis prod.exhaust)
  obtain d1 p1 d2 p2 where sr: "first_source ?th = (d1, p1)" "second_source ?th = (d2, p2)"
    by (metis prod.exhaust)
  obtain rd wr where c: "carrying_calls p ?h (vars ?h) = (rd, wr)"
    by fastforce
  have e: "?Q (net_world n) (other h) p' = []" if "p' \<noteq> Tap_out" for p'
    using only_empty [OF assms(2) _ that, of "other h"] by simp
  have sv: "(rd, wr, h, p) = (if ?Q (net_world n) d1 p1 \<noteq> [] then (ra, wa, d1, p1) else (rb, wb, d2, p2))"
    using assms(3) sr pt c bs e by auto
  obtain n' c' v xs where n': "net_pass k vars ?th n = Inr n'" "v = snd (k ?h c' (net_world n))" "\<exists>m T. c' = Select m T"
    "?Q v = ?Q (net_world n)" "xs = got (fst (k ?h rd v))"
    "net_world n' = snd (k ?h (wr xs) (snd (k ?h rd v)))" "?Q (net_world n') = move h p (length xs) (?Q (net_world n))"
    by (rule net_pass_copy [OF whole_laws [OF w] pt sr sv, unfolded bs(1), OF bs(2)]) blast
  have "?Q v (if p = To_plugin then ?h else other ?h) p = bs"
    using assms(3) bs(1) n'(4) by auto
  then have xs: "xs = bs"
    unfolding n'(5) by (rule whole_drains [OF wh c assms(3) _ bs(3)])
  have "fr v = fr (net_world n)" "out v = out (net_world n)" "p = From_plugin \<Longrightarrow> ?h = other h"
    using n'(2,3) whole_quiet [OF wh] by auto
  then show ?thesis
    using n'(1,6,7) whole_calls [OF wh c assms(3)] by (auto simp: xs)
qed

text \<open>The device's own thread reads one frame.\<close>

lemma whole_read:
  assumes wh: "whole_host k fr out q h s" and "fr w h = f # fs"
    and xs: "xs = got (fst (k (Read (tfd s) (BLOCK_SIZE - 1)) w))" "xs \<noteq> []"
    and u: "u = snd (k (Read (tfd s) (BLOCK_SIZE - 1)) w)" and w': "w' = snd (k (Write (snd (g_pipe_to_plugin (gv s))) xs) u)"
  shows "xs = fitting f" "fr w' = (fr w)(h := fs)" "out w' = out w"
proof -
  have "frame_read (BLOCK_SIZE - 1) (f # fs) (fst (k (Read (tfd s) (BLOCK_SIZE - 1)) w)) (fr u h)" "fr u (other h) = fr w (other h)"
    using whole_frames(2) [OF wh, unfolded tap_frames_def, rule_format, of "BLOCK_SIZE - 1" w] assms(2)
    by (simp_all add: u Let_def split_beta)
  then have f: "xs = fitting f" "fr u h = fs" "fr u (other h) = fr w (other h)"
    using xs by (auto simp: frame_read_def fitting_def)
  show "xs = fitting f" by (rule f(1))
  have "fr u d = ((fr w)(h := fs)) d" for d
    using f(2,3) by (cases "d = h"; cases d; cases h) auto
  then have "fr u = (fr w)(h := fs)" by blast
  moreover have "out u = out w"
    using wh by (simp add: u whole_host_def tap_sends_def)
  moreover have "snd (g_pipe_to_plugin (gv s)) \<noteq> tfd s"
    using wh by (auto simp: whole_host_def host_fits_def main_fits_def main_fds_def)
  ultimately show "fr w' = (fr w)(h := fs)" "out w' = out w"
    using wh by (simp_all add: w' whole_host_def tap_sends_def)
qed

lemma frame_enters:
  assumes w: "\<forall>h. whole_host (k h) fr out q h (vars h)"
    and "only (framed fr q (net_world n)) h Tap_in" "fr (net_world n) h = f # fs"
  shows "\<exists>n'. net_pass k vars (Main_thread h) n = Inr n' \<and>
    only (framed fr q (net_world n')) h To_plugin \<and> framed fr q (net_world n') h To_plugin = fitting f \<and>
    fr (net_world n') = (fr (net_world n))(h := fs) \<and> out (net_world n') = out (net_world n)"
proof -
  let ?Q = "framed fr q" and ?tap = "tfd (vars h)"
  have wh: "whole_host (k h) fr out q h (vars h)"
    using w by blast
  have ff: "f \<noteq> []"
    using whole_frames(1) [OF wh, of f "net_world n"] assms(3) by simp
  have Q: "?Q (net_world n) h Tap_in = fitting f @ concat (map fitting fs)"
    by (simp add: framed_def assms(3))
  let ?pin = "fst (g_pipe_from_plugin (gv (vars h)))" and ?pout = "snd (g_pipe_to_plugin (gv (vars h)))"
  have pt: "ports (Main_thread h) (vars (host_of (Main_thread h))) =
      ((?tap, Read ?tap (BLOCK_SIZE - 1), Write ?pout), (?pin, Read ?pin BLOCK_SIZE, Write ?tap))"
    by simp
  have sr: "first_source (Main_thread h) = (h, Tap_in)" "second_source (Main_thread h) = (other h, From_plugin)"
    by simp_all
  have Q0: "?Q (net_world n) h Tap_in \<noteq> []"
    using ff by (simp add: Q fitting_Nil)
  have sv: "(Read ?tap (BLOCK_SIZE - 1), Write ?pout, h, Tap_in) = (if ?Q (net_world n) h Tap_in \<noteq> []
      then (Read ?tap (BLOCK_SIZE - 1), Write ?pout, h, Tap_in) else (Read ?pin BLOCK_SIZE, Write ?tap, other h, From_plugin))"
    using Q0 by simp
  obtain n' c v xs where n': "net_pass k vars (Main_thread h) n = Inr n'" "v = snd (k h c (net_world n))" "\<exists>m T. c = Select m T"
    "xs = got (fst (k h (Read ?tap (BLOCK_SIZE - 1)) v))" "xs \<noteq> []"
    "net_world n' = snd (k h (Write (snd (g_pipe_to_plugin (gv (vars h)))) xs) (snd (k h (Read ?tap (BLOCK_SIZE - 1)) v)))"
    "?Q (net_world n') = move h Tap_in (length xs) (?Q (net_world n))"
    by (rule net_pass_copy [OF whole_laws [OF w] pt sr sv Q0, unfolded host_of.simps]) blast
  have v: "fr v = fr (net_world n)" "out v = out (net_world n)"
    using n'(2,3) whole_quiet [OF wh] by auto
  note rd = whole_read [OF wh _ n'(4,5) refl n'(6), of f fs, unfolded v, OF assms(3)]
  have "only (?Q (net_world n')) h To_plugin" "?Q (net_world n') h To_plugin = fitting f"
    using assms(2) Q by (auto simp: n'(7) rd(1) only_def move_def put_def split: if_splits)
  then show ?thesis
    using n'(1) rd(2,3) by blast
qed

text \<open>
  One turn of each of the four threads carries one frame across, if nothing else is under way.
\<close>

definition turn_of :: "side \<Rightarrow> thread list" where
  "turn_of h = [Main_thread h, Plugin_thread h, Plugin_thread (other h), Main_thread (other h)]"

lemma frame_crosses:
  assumes w: "\<forall>h. whole_host (k h) fr out q h (vars h)"
    and "only (framed fr q (net_world n)) h Tap_in" "fr (net_world n) h = f # fs"
  shows "\<exists>n'. run_net k vars (turn_of h) n = Inr n' \<and> only (framed fr q (net_world n')) h Tap_in \<and>
    fr (net_world n') h = fs \<and> out (net_world n') (other h) = out (net_world n) (other h) @ [fitting f]"
proof -
  let ?Q = "framed fr q"
  have f: "fitting f \<noteq> []" "length (fitting f) \<le> BLOCK_SIZE - 1"
    using whole_frames(1) [where f = f and w = "net_world n", OF w [rule_format, of h]] assms(3)
    by (simp_all add: fitting_Nil) (simp add: fitting_def)
  obtain n1 where n1: "net_pass k vars (Main_thread h) n = Inr n1" "only (?Q (net_world n1)) h To_plugin"
    "?Q (net_world n1) h To_plugin = fitting f" "fr (net_world n1) = (fr (net_world n))(h := fs)" "out (net_world n1) = out (net_world n)"
    using frame_enters [OF assms] by blast
  obtain n2 where n2: "net_pass k vars (Plugin_thread h) n1 = Inr n2" "?Q (net_world n2) = move h To_plugin (length (fitting f)) (?Q (net_world n1))"
    "fr (net_world n2) = fr (net_world n1)" "out (net_world n2) = out (net_world n1)"
    using carried [OF w n1(2) _ n1(3) f] by auto
  have Q2: "only (?Q (net_world n2)) h Wire" "?Q (net_world n2) h Wire = fitting f"
    using only_move [OF n1(2)] n1(3) n2(2) by simp_all
  obtain n3 where n3: "net_pass k vars (Plugin_thread (other h)) n2 = Inr n3" "?Q (net_world n3) = move h Wire (length (fitting f)) (?Q (net_world n2))"
    "fr (net_world n3) = fr (net_world n2)" "out (net_world n3) = out (net_world n2)"
    using carried [OF w Q2(1) _ Q2(2) f] by auto
  have Q3: "only (?Q (net_world n3)) h From_plugin" "?Q (net_world n3) h From_plugin = fitting f"
    using only_move [OF Q2(1)] Q2(2) n3(2) by simp_all
  obtain n4 where n4: "net_pass k vars (Main_thread (other h)) n3 = Inr n4" "?Q (net_world n4) = move h From_plugin (length (fitting f)) (?Q (net_world n3))"
    "fr (net_world n4) = fr (net_world n3)" "out (net_world n4) = (out (net_world n3))(other h := out (net_world n3) (other h) @ [fitting f])"
    using carried [OF w Q3(1) _ Q3(2) f] by auto
  have "only (?Q (net_world n4)) h Tap_out"
    using only_move(1) [OF Q3(1)] Q3(2) n4(2) by simp
  then have "only (?Q (net_world n4)) h Tap_in"
    by (auto simp: only_def)
  then show ?thesis
    using n1 n2 n3 n4 by (simp add: turn_of_def)
qed

lemma frames_cross:
  assumes w: "\<forall>h. whole_host (k h) fr out q h (vars h)"
    and "only (framed fr q (net_world n)) h Tap_in"
  shows "\<exists>n'. run_net k vars (concat (replicate (length (fr (net_world n) h)) (turn_of h))) n = Inr n' \<and>
    fr (net_world n') h = [] \<and> out (net_world n') (other h) = out (net_world n) (other h) @ map fitting (fr (net_world n) h)"
  using assms(2)
proof (induction "fr (net_world n) h" arbitrary: n)
  case Nil
  then show ?case by (simp add: eq_commute [of "[]"])
next
  case (Cons f fs)
  obtain n1 where n1: "run_net k vars (turn_of h) n = Inr n1" "only (framed fr q (net_world n1)) h Tap_in"
    "fr (net_world n1) h = fs" "out (net_world n1) (other h) = out (net_world n) (other h) @ [fitting f]"
    using frame_crosses [OF w Cons.prems Cons.hyps(2) [symmetric]] by blast
  show ?case
    using Cons.hyps(1) [OF n1(3) [symmetric] n1(2)] n1 by (auto simp: Cons.hyps(2) [symmetric] run_passes_append)
qed

subsection \<open>Frames one after the other\<close>


subsection \<open>An example\<close>

lemma frame_kernel_whole: "whole_host (frame_kernel h) frames_at fw_out fw_queues h (frame_vars h)"
proof -
  have "fw_out (snd (frame_kernel h (Write 9 bs) w)) = (fw_out w)(h := fw_out w h @ [bs])" for bs w
    by (simp add: frame_kernel_def split_beta Let_def)
  moreover have "fw_out (snd (frame_kernel h c w)) = fw_out w" if "\<forall>bs. c \<noteq> Write 9 bs" for c w
    using that by (cases c) (auto simp: frame_kernel_def split_beta Let_def split: list.split)
  moreover have "frames_at (snd (frame_kernel h c w)) = frames_at w" if "\<not> reads_from 9 c" for c w
    using that by (simp add: frame_kernel_def split_beta Let_def frames_at_update)
  ultimately show ?thesis
    using frame_kernel_host [of h]
    by (simp add: whole_host_def host_fits_def frame_vars_ok host_example_ok tap_sends_def drains_def frame_kernel_queues
        queue_kernel_def take_from_def got_bytes)
qed

definition lone_net :: "frame_world net" where
  "lone_net = \<lparr>net_world = \<lparr>fw_frames = (\<lambda>d. if d = Client then [[1, 2], [3]] else []),
     fw_queues = (\<lambda>d p. []), fw_out = (\<lambda>d. [])\<rparr>, sets = (\<lambda>th. {})\<rparr>"


end
