(* ===== verification/Sip_Network.thy ===== *)
theory Sip_Network
  imports Network
begin

section \<open>Two hosts over SIP as a state machine\<close>

text \<open>
  Two hosts over SIP as one system whose step is one pass of one of its six threads: the main
  loop, the loop that sends and the event loop of each host. Unlike over TCP, a host's decoder
  changes, what is on the wire are texts, and taking a request is the environment's step. The
  system refines the same queues.
\<close>

subsection \<open>The environment\<close>

text \<open>
  What is outside the two programs: a kernel per host over a common world; the queues of devices
  and pipes in it; the header texts of the requests that are on their way from each host, oldest
  first; the header that a host has put into the request under construction; and the world after
  PJSIP has taken the next request for a host from the network, to hand it to the callback.
\<close>

record 'w sip_env =
  env_kernel :: "side \<Rightarrow> 'w kernel"
  env_queues :: "'w \<Rightarrow> queues"
  env_wire :: "'w \<Rightarrow> side \<Rightarrow> byte list list"
  env_header :: "'w \<Rightarrow> side \<Rightarrow> byte list"
  env_take :: "side \<Rightarrow> 'w \<Rightarrow> 'w"

text \<open>The queues in bytes: on the wire, the frames that the texts stand for.\<close>

definition sip_queues :: "'w sip_env \<Rightarrow> 'w \<Rightarrow> queues" where
  "sip_queues E w d p = (if p = Wire then concat (map frame_of (env_wire E w d)) else env_queues E w d p)"

subsection \<open>The six threads\<close>

datatype sip_thread = Sip_main side | Tun_events side | Sip_events side

record 'w sip_net =
  sip_world :: 'w
  hosts :: "side \<Rightarrow> 'w plugin_state"
  sip_sets :: "sip_thread \<Rightarrow> int set"

fun sip_host :: "sip_thread \<Rightarrow> side" where
  "sip_host (Sip_main h) = h"
| "sip_host (Tun_events h) = h"
| "sip_host (Sip_events h) = h"

text \<open>
  One pass of each loop. The event loop handles the next request for the host, and waits when
  there is none.
\<close>

fun sip_thread_pass ::
    "'w sip_env \<Rightarrow> nat \<Rightarrow> int \<Rightarrow> sip_thread \<Rightarrow> int set \<Rightarrow> 'w plugin_state \<Rightarrow> (int set \<times> 'w plugin_state) res" where
  "sip_thread_pass E z j (Sip_main h) S s = MainLoop (env_kernel E h) S 1 s"
| "sip_thread_pass E z j (Tun_events h) S s = sip_loop_tun_events (env_kernel E h) z S 1 s"
| "sip_thread_pass E z j (Sip_events h) S s =
     (case env_wire E (world s) (other h) of
        [] \<Rightarrow> Inr (S, s)
      | text # _ \<Rightarrow>
          res_bind (sip_loop_sip_events (env_kernel E h) j [Rx_Request \<lparr>is_options = True, multivpn = Some text\<rparr>]
              (s\<lparr>world := env_take E h (world s)\<rparr>)) (\<lambda>(_, s). Inr (S, s)))"

definition sip_pass :: "'w sip_env \<Rightarrow> nat \<Rightarrow> int \<Rightarrow> sip_thread \<Rightarrow> 'w sip_net \<Rightarrow> 'w sip_net res" where
  "sip_pass E z j th n =
     res_bind (sip_thread_pass E z j th (sip_sets n th) ((hosts n (sip_host th))\<lparr>world := sip_world n\<rparr>)) (\<lambda>(S, s).
       Inr \<lparr>sip_world = world s, hosts = (hosts n)(sip_host th := s), sip_sets = (sip_sets n)(th := S)\<rparr>)"

subsection \<open>Laws\<close>

text \<open>
  Queues as for TCP, but for the plugin's side of them: there is no socket. The calls that
  allocate, build, send and answer touch no queue; only sending changes the wire, by the header
  of the request that was built; taking a request removes the oldest one.
\<close>

fun off_queues :: "xcall \<Rightarrow> bool" where
  "off_queues (Malloc n) \<longleftrightarrow> True"
| "off_queues (CreateOptionsRequest t f) \<longleftrightarrow> True"
| "off_queues (Pjsip f) \<longleftrightarrow> True"
| "off_queues (AddHeader n v) \<longleftrightarrow> True"
| "off_queues SendTransaction \<longleftrightarrow> True"
| "off_queues (RespondStateless c r) \<longleftrightarrow> True"
| "off_queues _ \<longleftrightarrow> False"

definition wire_laws :: "'w sip_env \<Rightarrow> side \<Rightarrow> bool" where
  "wire_laws E h \<longleftrightarrow>
     (\<forall>c w. c \<noteq> SendTransaction \<longrightarrow> env_wire E (snd (env_kernel E h c w)) = env_wire E w) \<and>
     (\<forall>c w. off_queues c \<longrightarrow> env_queues E (snd (env_kernel E h c w)) = env_queues E w) \<and>
     (\<forall>n v w. env_header E (snd (env_kernel E h (AddHeader n v) w)) h = v) \<and>
     (\<forall>w. env_wire E (snd (env_kernel E h SendTransaction w)) = (env_wire E w)(h := env_wire E w h @ [env_header E w h])) \<and>
     (\<forall>w v vs. env_wire E w (other h) = v # vs \<longrightarrow>
        env_wire E (env_take E h w) = (env_wire E w)(other h := vs) \<and> env_queues E (env_take E h w) = env_queues E w)"

definition sip_laws :: "'w sip_env \<Rightarrow> side \<Rightarrow> ('w, 'z) plugin_state_scheme \<Rightarrow> bool" where
  "sip_laws E h s \<longleftrightarrow>
     (let k = env_kernel E h; q = sip_queues E in
      waits k q \<and> leg k q (Read (tfd s) (BLOCK_SIZE - 1)) (Write (snd (g_pipe_to_plugin (gv s)))) h Tap_in \<and>
      leg k q (Read (fst (g_pipe_from_plugin (gv s))) BLOCK_SIZE) (Write (tfd s)) (other h) From_plugin \<and>
      takes k q (Read (fst (g_pipe_to_plugin (gv s))) (BLOCK_SIZE - 1)) h To_plugin \<and>
      gives k q (Write (snd (g_pipe_from_plugin (gv s)))) (other h) From_plugin \<and>
      wire_laws E h \<and> memory_left k \<and> pjsip_works k \<and> reads_bounded k \<and> reads_bytes k)"

definition sip_offers :: "'w sip_env \<Rightarrow> side \<Rightarrow> ('w, 'z) plugin_state_scheme \<Rightarrow> bool" where
  "sip_offers E h s \<longleftrightarrow>
     (let k = env_kernel E h; q = sip_queues E in
      offers k q (tfd s) (Read (tfd s) (BLOCK_SIZE - 1)) h Tap_in \<and>
      offers k q (fst (g_pipe_from_plugin (gv s))) (Read (fst (g_pipe_from_plugin (gv s))) BLOCK_SIZE) (other h) From_plugin \<and>
      offers k q (fst (g_pipe_to_plugin (gv s))) (Read (fst (g_pipe_to_plugin (gv s))) (BLOCK_SIZE - 1)) h To_plugin)"

text \<open>
  A host that can take part: its descriptors fit, messages are switched off (one of them reads
  beyond short blocks), its decoder has no table or a right one, and its event loop runs.
\<close>

definition sip_host_ok :: "('w, 'z) plugin_state_scheme \<Rightarrow> bool" where
  "sip_host_ok s \<longleftrightarrow> main_fits (tfd s) (main_fds s) \<and> selectable (fst (g_pipe_to_plugin (gv s))) \<and>
     g_debug (gv s) \<le> 1 \<and> decoder_ok s \<and> \<not> g_complete s"

text \<open>A text on the wire is the encoding of a block.\<close>

definition block_text :: "byte list \<Rightarrow> bool" where
  "block_text v \<longleftrightarrow> v = b64 (frame_of v) \<and> frame_of v \<noteq> [] \<and> length (frame_of v) < BLOCK_SIZE"

definition sip_good :: "'w sip_env \<Rightarrow> nat \<Rightarrow> 'w sip_net \<Rightarrow> bool" where
  "sip_good E z n \<longleftrightarrow> z \<le> sizeof_int \<and> (\<forall>h. sip_laws E h (hosts n h) \<and> sip_host_ok (hosts n h)) \<and>
     (\<forall>d. list_all block_text (env_wire E (sip_world n) d))"

definition sip_live :: "'w sip_env \<Rightarrow> nat \<Rightarrow> 'w sip_net \<Rightarrow> bool" where
  "sip_live E z n \<longleftrightarrow> sip_good E z n \<and> (\<forall>h. sip_offers E h (hosts n h))"

text \<open>What a pass may change of a host, and what the laws look at.\<close>

definition host_like :: "('w, 'z) plugin_state_scheme \<Rightarrow> ('w, 'z) plugin_state_scheme \<Rightarrow> bool" where
  "host_like s s' \<longleftrightarrow> gv s' = gv s \<and> tfd s' = tfd s \<and> (decoder_ok s \<longrightarrow> decoder_ok s') \<and> g_complete s' = g_complete s"

lemma host_like_same_vars: "same_vars s s' \<Longrightarrow> host_like s s'"
  by (cases s; cases s') (simp add: same_vars_def host_like_def decoder_ok_def)

lemma host_like_world [simp]: "host_like (s\<lparr>world := w\<rparr>) s' = host_like s s'"
  by (simp add: host_like_def decoder_ok_def)

lemma host_like_laws:
  assumes "host_like s s'"
  shows "sip_laws E h s' = sip_laws E h s" "sip_offers E h s' = sip_offers E h s" "sip_host_ok s \<Longrightarrow> sip_host_ok s'"
  using assms by (auto simp: host_like_def sip_laws_def sip_offers_def sip_host_ok_def main_fds_def)

lemma laws_world [simp]:
  "sip_laws E h (s\<lparr>world := w\<rparr>) = sip_laws E h s" "sip_offers E h (s\<lparr>world := w\<rparr>) = sip_offers E h s"
  "sip_host_ok (s\<lparr>world := w\<rparr>) = sip_host_ok s"
  by (simp_all add: sip_laws_def sip_offers_def sip_host_ok_def main_fds_def decoder_ok_def)

subsection \<open>The main threads\<close>

text \<open>What no call of a pass but sending changes.\<close>

lemma pump_world:
  fixes s :: "('w, 'z) sys_state_scheme"
  assumes "pump k m (a, ra, wa) (b, rb, wb) (S, s) = Inr (S', s')" "\<And>c w. P c \<Longrightarrow> R (snd (k c w)) = R w"
    and "\<And>m S. P (Select m S)" "P ra" "P rb" "\<And>bs. P (wa bs)" "\<And>bs. P (wb bs)"
  shows "R (world s') = R (world s)"
proof -
  obtain T where T: "s' = (let (T', t) = do_select k m T s in
      if a \<in> T' then copy k ra wa t else if b \<in> T' then copy k rb wb t else t)"
    by (rule pump_run [OF assms(1)])
  have c: "R (world (copy k rd wr t)) = R (world t)" if "P rd" "\<And>bs. P (wr bs)" for rd wr and t :: "('w, 'z) sys_state_scheme"
    using that assms(2) by (simp add: copy_def Let_def split_beta sys_world)
  have "R (world (snd (do_select k m T s))) = R (world s)"
    using assms(2,3) by (simp add: do_select_def Let_def split_beta sys_world)
  then show ?thesis
    using c assms(4-7) by (simp add: T Let_def split_beta)
qed

lemma MainLoop_world:
  assumes "MainLoop k S 1 s = Inr (S', s')" "\<And>c w. c \<noteq> SendTransaction \<Longrightarrow> R (snd (k c w)) = R w"
  shows "R (world s') = R (world s)"
proof -
  obtain T where "pump k (if tfd s > fst (g_pipe_from_plugin (gv s)) then tfd s + 1 else fst (g_pipe_from_plugin (gv s)) + 1)
      (tfd s, Read (tfd s) (BLOCK_SIZE - 1), Write (snd (g_pipe_to_plugin (gv s))))
      (fst (g_pipe_from_plugin (gv s)), Read (fst (g_pipe_from_plugin (gv s))) BLOCK_SIZE, Write (tfd s)) (S, s) = Inr (T, s')"
    using MainLoop_pump [OF assms(1)] by blast
  then show ?thesis
    by (rule pump_world [where P = "\<lambda>c. c \<noteq> SendTransaction" and R = R]) (simp_all add: assms(2))
qed

lemma sip_main_moves:
  assumes "sip_thread_pass E z j (Sip_main h) S s = Inr (S', s')" "sip_laws E h s"
  shows "host_like s s'" "env_wire E (world s') = env_wire E (world s)"
    "hop\<^sup>=\<^sup>= (sip_queues E (world s)) (sip_queues E (world s'))"
    "\<lbrakk>sip_offers E h s; sip_queues E (world s) h Tap_in \<noteq> [] \<or> sip_queues E (world s) (other h) From_plugin \<noteq> []\<rbrakk>
      \<Longrightarrow> hop (sip_queues E (world s)) (sip_queues E (world s'))"
proof -
  have l: "MainLoop (env_kernel E h) S 1 s = Inr (S', s')"
    using assms(1) by simp
  have e: "waits (env_kernel E h) (sip_queues E)"
    "leg (env_kernel E h) (sip_queues E) (Read (tfd s) (BLOCK_SIZE - 1)) (Write (snd (g_pipe_to_plugin (gv s)))) h Tap_in"
    "leg (env_kernel E h) (sip_queues E) (Read (fst (g_pipe_from_plugin (gv s))) BLOCK_SIZE) (Write (tfd s)) (other h) From_plugin"
    and w: "wire_laws E h"
    using assms(2) by (simp_all add: sip_laws_def Let_def)
  show "host_like s s'"
    using MainLoop_keeps [OF l] host_like_same_vars by blast
  show "env_wire E (world s') = env_wire E (world s)"
    by (rule MainLoop_world [OF l]) (use w in \<open>simp add: wire_laws_def\<close>)
  show "hop\<^sup>=\<^sup>= (sip_queues E (world s)) (sip_queues E (world s'))"
    by (rule MainLoop_moves(1) [OF l e])
  show "\<lbrakk>sip_offers E h s; sip_queues E (world s) h Tap_in \<noteq> [] \<or> sip_queues E (world s) (other h) From_plugin \<noteq> []\<rbrakk>
      \<Longrightarrow> hop (sip_queues E (world s)) (sip_queues E (world s'))"
    using MainLoop_moves(2) [OF l e] by (simp add: sip_offers_def Let_def)
qed

lemma main_runs:
  assumes "sip_host_ok s"
  shows "\<exists>x. MainLoop k S 1 s = Inr x"
  using main_pass_runs [of "tfd s" s] assms
  by (simp add: sip_host_ok_def MainLoop_def tun_getFile_def Let_def)

subsection \<open>The threads that send\<close>

lemma sip_tun_pass_unfold:
  assumes "selectable (fst (g_pipe_to_plugin (gv s)))"
  shows "sip_tun_pass k z m (S, s) =
    (let pin = fst (g_pipe_to_plugin (gv s)); (T, s1) = do_select k m (insert pin S) s
     in if pin \<notin> T then Inr (T, s1)
     else let (r, s2) = sys k (Read pin (BLOCK_SIZE - 1)) s1
       in if r_ret r \<le> 0 then Inr (T, s2)
       else res_bind (sip_envia_datos k z (got r) s2) (\<lambda>(_, u). Inr (T, u)))"
  using assms by (simp add: sip_tun_pass_def FD_SET_def selectable_def Let_def split_beta do_select_tcp)

lemma block_text_b64: "\<lbrakk>f \<noteq> []; length f < BLOCK_SIZE\<rbrakk> \<Longrightarrow> block_text (b64 f)"
  by (simp add: block_text_def frame_of_b64)

text \<open>Sending a block: the rest of the world stays, the wire gets the block's text.\<close>

lemma send_block:
  assumes "wire_laws E h" "memory_left (env_kernel E h)" "pjsip_works (env_kernel E h)" "z \<le> sizeof_int"
    and "f \<noteq> []" "length f < BLOCK_SIZE"
  shows "\<exists>s'. sip_envia_datos (env_kernel E h) z f s = Inr (0, s') \<and> same_vars s s' \<and>
    env_wire E (world s') = (env_wire E (world s))(h := env_wire E (world s) h @ [b64 f]) \<and>
    sip_queues E (world s') = put h Wire (sip_queues E (world s) h Wire @ f) (sip_queues E (world s))"
proof -
  let ?k = "env_kernel E h"
  obtain s' n t g where s': "sip_envia_datos ?k z f s = Inr (0, s')" "same_vars s s'"
    "world s' = snd (?k SendTransaction (snd (?k (AddHeader ''Multivpn'' (b64 f))
      (snd (?k (Pjsip ''pjsip_tsx_create_uac'') (snd (?k (CreateOptionsRequest t g) (snd (?k (Malloc n) (world s))))))))))"
    using sip_envia_datos_world [OF assms(4,6,2,3)] by blast
  have w: "env_wire E (world s') = (env_wire E (world s))(h := env_wire E (world s) h @ [b64 f])"
    "env_queues E (world s') = env_queues E (world s)"
    using assms(1) by (simp_all add: s'(3) wire_laws_def)
  then have "sip_queues E (world s') = put h Wire (sip_queues E (world s) h Wire @ f) (sip_queues E (world s))"
    by (auto simp: fun_eq_iff sip_queues_def put_def frame_of_b64 [OF assms(5)])
  then show ?thesis
    using s'(1,2) w(1) by blast
qed

text \<open>A read from the pipe takes the front of its queue, and the wire stays.\<close>

lemma read_front:
  assumes "takes k q (Read fd n) d p" "r = fst (sys k (Read fd n) s)"
  shows "length (got r) \<le> length (q (world s) d p)" "got r = take (length (got r)) (q (world s) d p)"
    "q (world (snd (sys k (Read fd n) s))) = put d p (drop (length (got r)) (q (world s) d p)) (q (world s))"
  using assms by (simp_all add: takes_def Let_def split_beta sys_reply sys_world)

text \<open>A block that was read goes to the wire.\<close>

lemma block_leaves:
  assumes "wire_laws E h" "memory_left (env_kernel E h)" "pjsip_works (env_kernel E h)" "z \<le> sizeof_int"
    and "takes (env_kernel E h) (sip_queues E) (Read fd n) h To_plugin" "r = fst (sys (env_kernel E h) (Read fd n) s)"
    and "got r \<noteq> []" "length (got r) < BLOCK_SIZE" "\<forall>d. list_all block_text (env_wire E (world s) d)"
  shows "\<exists>s'. sip_envia_datos (env_kernel E h) z (got r) (snd (sys (env_kernel E h) (Read fd n) s)) = Inr (0, s') \<and>
    same_vars s s' \<and> (\<forall>d. list_all block_text (env_wire E (world s') d)) \<and> hop (sip_queues E (world s)) (sip_queues E (world s'))"
proof -
  let ?k = "env_kernel E h" and ?q = "sip_queues E"
  define s2 where "s2 = snd (sys ?k (Read fd n) s)"
  note rd = read_front [OF assms(5,6), folded s2_def]
  have w: "env_wire E (world s2) = env_wire E (world s)"
    using assms(1) by (simp add: s2_def sys_world wire_laws_def)
  obtain s' where s': "sip_envia_datos ?k z (got r) s2 = Inr (0, s')" "same_vars s2 s'"
    "env_wire E (world s') = (env_wire E (world s2))(h := env_wire E (world s2) h @ [b64 (got r)])"
    "?q (world s') = put h Wire (?q (world s2) h Wire @ got r) (?q (world s2))"
    using send_block [OF assms(1-4,7,8)] by blast
  have "?q (world s') = move h To_plugin (length (got r)) (?q (world s))"
    using rd(2,3) s'(4) by (simp add: move_def put_def)
  then have "hop (?q (world s)) (?q (world s'))"
    using hop.hop [of To_plugin "length (got r)" "?q (world s)" h] rd(1) assms(7) by simp
  moreover have "\<forall>d. list_all block_text (env_wire E (world s') d)"
    using assms(9) w s'(3) block_text_b64 [OF assms(7,8)] by simp
  moreover have "same_vars s s2"
    unfolding s2_def by (rule same_vars_sys)
  ultimately show ?thesis
    using s'(1) same_vars_trans [OF _ s'(2)] unfolding s2_def by blast
qed

lemma sip_tun_moves:
  assumes "sip_laws E h s" "sip_host_ok s" "z \<le> sizeof_int" "\<forall>d. list_all block_text (env_wire E (world s) d)"
  shows "\<exists>S' s'. sip_thread_pass E z j (Tun_events h) S s = Inr (S', s') \<and> host_like s s' \<and>
    (\<forall>d. list_all block_text (env_wire E (world s') d)) \<and>
    hop\<^sup>=\<^sup>= (sip_queues E (world s)) (sip_queues E (world s')) \<and>
    (sip_offers E h s \<and> sip_queues E (world s) h To_plugin \<noteq> [] \<longrightarrow> hop (sip_queues E (world s)) (sip_queues E (world s')))"
proof -
  let ?k = "env_kernel E h" and ?q = "sip_queues E" and ?pin = "fst (g_pipe_to_plugin (gv s))"
  have e: "waits ?k ?q" "takes ?k ?q (Read ?pin (BLOCK_SIZE - 1)) h To_plugin" "wire_laws E h" "memory_left ?k" "pjsip_works ?k"
    "reads_bounded ?k" "reads_bytes ?k"
    using assms(1) by (simp_all add: sip_laws_def Let_def)
  define T where "T = fst (do_select ?k (?pin + 1) (insert ?pin S) s)"
  define s1 where "s1 = snd (do_select ?k (?pin + 1) (insert ?pin S) s)"
  have s1: "same_vars s s1" "?q (world s1) = ?q (world s)" "env_wire E (world s1) = env_wire E (world s)"
    using do_select_effect(1) [of s ?k "?pin + 1" "insert ?pin S"] world_select [OF e(1)] e(3)
    by (simp_all add: s1_def do_select_def Let_def split_beta sys_world wire_laws_def)
  define r where "r = fst (sys ?k (Read ?pin (BLOCK_SIZE - 1)) s1)"
  define s2 where "s2 = snd (sys ?k (Read ?pin (BLOCK_SIZE - 1)) s1)"
  note rd = read_front [OF e(2) r_def, folded s2_def, unfolded s1(2)]
  have s2: "same_vars s s2" "env_wire E (world s2) = env_wire E (world s)"
    using same_vars_trans [OF s1(1) same_vars_sys] e(3) s1(3) by (simp_all add: s2_def sys_world wire_laws_def)
  have "sip_thread_pass E z j (Tun_events h) S s = sip_tun_pass ?k z (?pin + 1) (S, s)"
    by (cases "sip_tun_pass ?k z (?pin + 1) (S, s)") (simp_all add: sip_loop_tun_events_def Let_def)
  then have run: "sip_thread_pass E z j (Tun_events h) S s =
     (if ?pin \<notin> T then Inr (T, s1) else if r_ret r \<le> 0 then Inr (T, s2)
      else res_bind (sip_envia_datos ?k z (got r) s2) (\<lambda>(_, u). Inr (T, u)))"
    using assms(2)
    by (simp add: sip_host_ok_def sip_tun_pass_unfold Let_def split_beta T_def s1_def r_def s2_def)
  have ready: "?pin \<in> T \<longleftrightarrow> ?q (world s) h To_plugin \<noteq> []" "?q (world s) h To_plugin \<noteq> [] \<Longrightarrow> got r \<noteq> []" if "sip_offers E h s"
    using that s1(2) by (simp_all add: sip_offers_def offers_def Let_def T_def do_select_def split_beta sys_reply r_def
        not_less [symmetric])
  consider "?pin \<notin> T" | "?pin \<in> T" "r_ret r \<le> 0" | "?pin \<in> T" "0 < r_ret r" by linarith
  then show ?thesis
  proof cases
    case 1
    then show ?thesis
      using run s1 host_like_same_vars [OF s1(1)] ready(1) assms(4) by auto
  next
    case 2
    then have "got r = []" by simp
    then show ?thesis
      using 2 run s2 host_like_same_vars [OF s2(1)] ready assms(4) rd(3) by auto
  next
    case 3
    have g: "got r \<noteq> []" "length (got r) < BLOCK_SIZE"
      using 3 e(7) length_got [OF e(6), of ?pin "BLOCK_SIZE - 1" s1] by (auto simp: r_def reads_bytes_def sys_reply global_consts)
    have "\<forall>d. list_all block_text (env_wire E (world s1) d)"
      using assms(4) s1(3) by simp
    then obtain s3 where "sip_envia_datos ?k z (got r) s2 = Inr (0, s3)" "same_vars s1 s3"
      "\<forall>d. list_all block_text (env_wire E (world s3) d)" "hop (?q (world s)) (?q (world s3))"
      using block_leaves [OF e(3-5) assms(3) e(2) r_def g, folded s2_def, unfolded s1(2)] by blast
    then show ?thesis
      using 3 run host_like_same_vars [OF same_vars_trans [OF s1(1)]] by simp
  qed
qed

subsection \<open>The threads that receive\<close>

lemma decode_keeps_tfd:
  fixes s :: "('w, 'z) sip_state_scheme"
  assumes "base64_decode k cs s = Inr (d, s')"
  shows "tfd s' = tfd s"
proof -
  have "tfd (t :: ('w, 'z) sip_state_scheme) = tfd s" if "build_decoding_table k s = Inr t" for t
    using that by (auto simp: build_decoding_table_def Let_def split_beta split: if_splits)
  then show ?thesis
    using assms by (auto simp: base64_decode_def Let_def split_beta split: if_splits)
qed

lemma one_event:
  assumes "\<not> g_complete s" "on_rx_request k j r s = Inr (b, s')" "\<not> g_complete s'"
  shows "sip_loop_sip_events k j [Rx_Request r] s = Inr (False, s')"
  using assms by (simp add: sip_loop_sip_events.simps [of k j "[Rx_Request r]"] sip_loop_sip_events.simps [of k j "[]"] handle_event_simps)

text \<open>Accepting a block: the wire stays, and the block's bytes go to the pipe.\<close>

lemma accept_block:
  assumes "gives (env_kernel E h) (sip_queues E) (Write (snd (g_pipe_from_plugin (gv s)))) d From_plugin" "wire_laws E h"
    and "memory_left (env_kernel E h)" "sip_host_ok s" "f \<noteq> []" "length f < BLOCK_SIZE"
  shows "\<exists>s'. on_rx_request (env_kernel E h) j (tunnel_request f) s = Inr (True, s') \<and> host_like s s' \<and>
    env_wire E (world s') = env_wire E (world s) \<and>
    sip_queues E (world s') = put d From_plugin (sip_queues E (world s) d From_plugin @ f) (sip_queues E (world s))"
proof -
  let ?k = "env_kernel E h" and ?q = "sip_queues E" and ?pout = "snd (g_pipe_from_plugin (gv s))"
  have ok: "decoder_ok s" "\<not> prints_beyond (gv s) f"
    using assms(4) by (simp_all add: sip_host_ok_def prints_beyond_def)
  obtain s' s1 where r: "on_rx_request ?k j (tunnel_request f) s = Inr (True, s')" "decoder_ok s'" "gv s' = gv s"
      "g_complete s' = g_complete s"
    and d: "base64_decode ?k (b64 f) s = Inr (Decoded f (length f), s1)"
    and s': "s' = snd (sys ?k (RespondStateless 666 ''Traffic Accepted'') (snd (sys ?k (Write ?pout f) s1)))"
    using accept_frame_state [OF ok(1) assms(3,5) ok(2) assms(6), of j] by auto
  have m: "env_wire E (snd (?k c w)) = env_wire E w" "off_queues c \<Longrightarrow> ?q (snd (?k c w)) = ?q w" if "c \<noteq> SendTransaction" for c w
    using assms(2) that by (simp_all add: wire_laws_def fun_eq_iff sip_queues_def)
  have "env_wire E (world s1) = env_wire E (world s)" "?q (world s1) = ?q (world s)"
    using decode_world [OF d, of "env_wire E"] decode_world [OF d, of ?q] m by simp_all
  then have "env_wire E (world s') = env_wire E (world s)"
      "?q (world s') = put d From_plugin (?q (world s) d From_plugin @ f) (?q (world s))"
    using m assms(1) by (simp_all add: s' sys_world gives_def)
  moreover have "host_like s s'"
    using r(2-4) decode_keeps_tfd [OF d] by (simp add: host_like_def s')
  ultimately show ?thesis
    using r(1) by blast
qed

lemma sip_event_moves:
  assumes "sip_laws E h s" "sip_host_ok s" "\<forall>d. list_all block_text (env_wire E (world s) d)"
  shows "\<exists>S' s'. sip_thread_pass E z j (Sip_events h) S s = Inr (S', s') \<and> host_like s s' \<and>
    (\<forall>d. list_all block_text (env_wire E (world s') d)) \<and>
    hop\<^sup>=\<^sup>= (sip_queues E (world s)) (sip_queues E (world s')) \<and>
    (sip_queues E (world s) (other h) Wire \<noteq> [] \<longrightarrow> hop (sip_queues E (world s)) (sip_queues E (world s')))"
proof (cases "env_wire E (world s) (other h)")
  case Nil
  then show ?thesis
    using assms(3) by (simp add: host_like_def sip_queues_def)
next
  case (Cons v vs)
  let ?k = "env_kernel E h" and ?q = "sip_queues E" and ?o = "other h"
  have e: "gives ?k ?q (Write (snd (g_pipe_from_plugin (gv s)))) ?o From_plugin" "wire_laws E h" "memory_left ?k"
    using assms(1) by (simp_all add: sip_laws_def Let_def)
  define f where "f = frame_of v"
  have f: "v = b64 f" "f \<noteq> []" "length f < BLOCK_SIZE" "list_all block_text vs"
    using assms(3) Cons by (auto simp: f_def block_text_def dest!: spec [of _ ?o])
  define t where "t = s\<lparr>world := env_take E h (world s)\<rparr>"
  have t: "sip_host_ok t" "gv t = gv s" "\<not> g_complete t" "\<not> g_complete s"
    using assms(2) by (simp_all add: t_def) (simp_all add: sip_host_ok_def)
  have tk: "env_wire E (world t) = (env_wire E (world s))(?o := vs)" "env_queues E (world t) = env_queues E (world s)"
    using e(2) Cons by (simp_all add: wire_laws_def t_def)
  obtain s' where s': "on_rx_request ?k j (tunnel_request f) t = Inr (True, s')" "host_like t s'"
    "env_wire E (world s') = env_wire E (world t)"
    "?q (world s') = put ?o From_plugin (?q (world t) ?o From_plugin @ f) (?q (world t))"
    using accept_block [where s = t, unfolded t(2), OF e t(1) f(2,3)] by blast
  have q0: "?q (world s) ?o Wire = f @ concat (map frame_of vs)"
    by (simp add: sip_queues_def Cons f_def)
  have "?q (world t) = put ?o Wire (concat (map frame_of vs)) (?q (world s))"
    using tk by (auto simp: fun_eq_iff sip_queues_def put_def)
  then have "?q (world s') = move ?o Wire (length f) (?q (world s))"
    by (simp add: s'(4) move_def q0 put_def)
  then have "hop (?q (world s)) (?q (world s'))"
    using hop.hop [of Wire "length f" "?q (world s)" ?o] f(2) q0 by simp
  moreover have "sip_thread_pass E z j (Sip_events h) S s = Inr (S, s')"
    using one_event [OF t(3) s'(1)] s'(2) t(4) by (simp add: Cons t_def tunnel_request_def f(1) host_like_def)
  moreover have "host_like s s'"
    using s'(2) by (simp add: t_def host_like_def decoder_ok_def)
  ultimately show ?thesis
    using s'(3) tk(1) assms(3) f(4) by auto
qed

subsection \<open>The network moves bytes\<close>

fun sip_sources :: "sip_thread \<Rightarrow> (side \<times> place) set" where
  "sip_sources (Sip_main h) = {(h, Tap_in), (other h, From_plugin)}"
| "sip_sources (Tun_events h) = {(h, To_plugin)}"
| "sip_sources (Sip_events h) = {(other h, Wire)}"

abbreviation sip_content :: "'w sip_env \<Rightarrow> 'w sip_net \<Rightarrow> queues" where
  "sip_content E n \<equiv> sip_queues E (sip_world n)"

lemma sip_thread_moves:
  assumes "sip_laws E (sip_host th) s" "sip_host_ok s" "z \<le> sizeof_int" "\<forall>d. list_all block_text (env_wire E (world s) d)"
  shows "\<exists>S' s'. sip_thread_pass E z j th S s = Inr (S', s') \<and> host_like s s' \<and>
    (\<forall>d. list_all block_text (env_wire E (world s') d)) \<and>
    hop\<^sup>=\<^sup>= (sip_queues E (world s)) (sip_queues E (world s')) \<and>
    (sip_offers E (sip_host th) s \<and> (\<exists>(d, p) \<in> sip_sources th. sip_queues E (world s) d p \<noteq> [])
      \<longrightarrow> hop (sip_queues E (world s)) (sip_queues E (world s')))"
proof (cases th)
  case (Sip_main h)
  obtain S' s' where m: "sip_thread_pass E z j (Sip_main h) S s = Inr (S', s')"
    using main_runs [OF assms(2), of "env_kernel E h" S] by auto
  show ?thesis
    using sip_main_moves [OF m] m assms(1,4) by (simp add: Sip_main)
next
  case (Tun_events h)
  then show ?thesis
    using sip_tun_moves [of E h s z j S] assms by simp
next
  case (Sip_events h)
  then show ?thesis
    using sip_event_moves [of E h s z j S] assms by fastforce
qed

lemma sip_pass_moves:
  assumes "sip_good E z n"
  shows "\<exists>n'. sip_pass E z j th n = Inr n' \<and> sip_good E z n' \<and> (sip_live E z n \<longrightarrow> sip_live E z n') \<and>
    hop\<^sup>=\<^sup>= (sip_content E n) (sip_content E n') \<and>
    (sip_live E z n \<and> (\<exists>(d, p) \<in> sip_sources th. sip_content E n d p \<noteq> []) \<longrightarrow> hop (sip_content E n) (sip_content E n'))"
proof -
  let ?h = "sip_host th"
  let ?s = "(hosts n ?h)\<lparr>world := sip_world n\<rparr>"
  have g: "z \<le> sizeof_int" "sip_laws E h (hosts n h)" "sip_host_ok (hosts n h)" "list_all block_text (env_wire E (sip_world n) d)" for h d
    using assms by (simp_all add: sip_good_def)
  obtain S' s' where s': "sip_thread_pass E z j th (sip_sets n th) ?s = Inr (S', s')" "host_like (hosts n ?h) s'"
    "\<forall>d. list_all block_text (env_wire E (world s') d)" "hop\<^sup>=\<^sup>= (sip_content E n) (sip_queues E (world s'))"
    "sip_offers E ?h (hosts n ?h) \<and> (\<exists>(d, p) \<in> sip_sources th. sip_content E n d p \<noteq> []) \<longrightarrow>
      hop (sip_content E n) (sip_queues E (world s'))"
    using sip_thread_moves [of E th ?s z j "sip_sets n th"] g by auto
  define n' where "n' = \<lparr>sip_world = world s', hosts = (hosts n)(?h := s'), sip_sets = (sip_sets n)(th := S')\<rparr>"
  have p: "sip_pass E z j th n = Inr n'"
    by (simp add: sip_pass_def s'(1) n'_def)
  have "sip_good E z n'"
    using g s'(3) host_like_laws [OF s'(2)] by (simp add: sip_good_def n'_def)
  moreover have "sip_live E z n \<longrightarrow> sip_live E z n'"
    using calculation host_like_laws(2) [OF s'(2)] by (auto simp: sip_live_def n'_def)
  moreover have "sip_content E n' = sip_queues E (world s')"
    by (simp add: n'_def)
  ultimately show ?thesis
    using p s'(4,5) by (auto simp: sip_live_def)
qed

lemma sip_reader: "p \<noteq> Tap_out \<Longrightarrow> \<exists>th. (d, p) \<in> sip_sources th"
proof -
  have o: "other (other d) = d" by (cases d) simp_all
  have "(d, Tap_in) \<in> sip_sources (Sip_main d)" "(d, To_plugin) \<in> sip_sources (Tun_events d)"
    "(d, Wire) \<in> sip_sources (Sip_events (other d))" "(d, From_plugin) \<in> sip_sources (Sip_main (other d))"
    by (simp_all add: o)
  then show "p \<noteq> Tap_out \<Longrightarrow> ?thesis"
    by (cases p) blast+
qed

interpretation sip_system: queue_system "sip_pass E z j" "sip_content E" "sip_good E z" for E z j
proof unfold_locales
  show "sip_good E z n' \<and> hop\<^sup>=\<^sup>= (sip_content E n) (sip_content E n')"
    if "sip_good E z n" "sip_pass E z j th n = Inr n'" for n th n'
    using sip_pass_moves [OF that(1), of j th] that(2) by auto
qed

interpretation live_sip: live_system "sip_pass E z j" "sip_content E" "sip_live E z" sip_sources for E z j
proof unfold_locales
  have g: "sip_good E z n" if "sip_live E z n" for n
    using that by (simp add: sip_live_def)
  show "sip_live E z n' \<and> hop\<^sup>=\<^sup>= (sip_content E n) (sip_content E n')"
    if "sip_live E z n" "sip_pass E z j th n = Inr n'" for n th n'
    using sip_pass_moves [OF g [OF that(1)], of j th] that by auto
  show "\<exists>n'. sip_pass E z j th n = Inr n'" if "sip_live E z n" for n th
    using sip_pass_moves [OF g [OF that], of j th] by blast
  show "hop (sip_content E n) (sip_content E n')"
    if "sip_live E z n" "sip_pass E z j th n = Inr n'" "(d, p) \<in> sip_sources th" "sip_content E n d p \<noteq> []" for n th n' d p
    using sip_pass_moves [OF g [OF that(1)], of j th] that by auto
qed (rule sip_reader)



subsection \<open>An example\<close>

record sip_example_world =
  ex_queues :: queues
  ex_wire :: "side \<Rightarrow> byte list list"
  ex_header :: "side \<Rightarrow> byte list"

definition ex_read :: "side \<Rightarrow> place \<Rightarrow> nat \<Rightarrow> sip_example_world \<Rightarrow> reply \<times> sip_example_world" where
  "ex_read d p n w = (let (r, Q) = take_from d p n (ex_queues w) in (r, w\<lparr>ex_queues := Q\<rparr>))"

definition ex_write :: "side \<Rightarrow> place \<Rightarrow> byte list \<Rightarrow> sip_example_world \<Rightarrow> reply \<times> sip_example_world" where
  "ex_write d p bs w = (let (r, Q) = add_to d p bs (ex_queues w) in (r, w\<lparr>ex_queues := Q\<rparr>))"

definition ex_waiting :: "int \<Rightarrow> side \<Rightarrow> queues \<Rightarrow> int set" where
  "ex_waiting tap h Q = {fd. fd = tap \<and> Q h Tap_in \<noteq> [] \<or> fd = 3 \<and> Q (other h) From_plugin \<noteq> [] \<or> fd = 5 \<and> Q h To_plugin \<noteq> []}"

definition ex_kernel :: "int \<Rightarrow> side \<Rightarrow> sip_example_world kernel" where
  "ex_kernel tap h c w =
     (case c of
        Select m S \<Rightarrow> (reply_ready (S \<inter> ex_waiting tap h (ex_queues w)), w)
      | Read fd n \<Rightarrow>
          if fd = tap then ex_read h Tap_in n w
          else if fd = 3 then ex_read (other h) From_plugin n w
          else if fd = 5 then ex_read h To_plugin n w
          else (reply_ok (- 1), w)
      | Write fd bs \<Rightarrow>
          if fd = 6 then ex_write h To_plugin bs w
          else if fd = tap then ex_write (other h) Tap_out bs w
          else if fd = 4 then ex_write (other h) From_plugin bs w
          else (reply_ok (- 1), w)
      | Malloc n \<Rightarrow> (reply_ok 1, w)
      | AddHeader n v \<Rightarrow> (reply_ok 0, w\<lparr>ex_header := (ex_header w)(h := v)\<rparr>)
      | SendTransaction \<Rightarrow> (reply_ok 0, w\<lparr>ex_wire := (ex_wire w)(h := ex_wire w h @ [ex_header w h])\<rparr>)
      | _ \<Rightarrow> (reply_ok 0, w))"

definition ex_env :: "int \<Rightarrow> sip_example_world sip_env" where
  "ex_env tap = \<lparr>env_kernel = ex_kernel tap, env_queues = ex_queues, env_wire = ex_wire, env_header = ex_header,
     env_take = (\<lambda>h w. w\<lparr>ex_wire := (ex_wire w)(other h := tl (ex_wire w (other h)))\<rparr>)\<rparr>"

definition ex_world :: sip_example_world where
  "ex_world = \<lparr>ex_queues = (\<lambda>d p. if p = Tap_in then (case d of Client \<Rightarrow> [1, 2] | Server \<Rightarrow> [3]) else []),
     ex_wire = (\<lambda>d. []), ex_header = (\<lambda>d. [])\<rparr>"

definition ex_host :: "sip_example_world plugin_state" where
  "ex_host = (host_example CLIENT_MODE ex_world)\<lparr>gv := (example_globals CLIENT_MODE)\<lparr>g_debug := 0\<rparr>\<rparr>"

definition ex_net :: "sip_example_world sip_net" where
  "ex_net = \<lparr>sip_world = ex_world, hosts = (\<lambda>h. ex_host), sip_sets = (\<lambda>th. {})\<rparr>"

lemma ex_env_simps [simp]:
  "env_kernel (ex_env tap) = ex_kernel tap" "env_queues (ex_env tap) = ex_queues" "env_wire (ex_env tap) = ex_wire" "env_header (ex_env tap) = ex_header"
  by (simp_all add: ex_env_def)

lemma ex_queues_put: "p \<noteq> Wire \<Longrightarrow> sip_queues (ex_env tap) (w\<lparr>ex_queues := put d p bs (ex_queues w)\<rparr>) = put d p bs (sip_queues (ex_env tap) w)"
  by (auto simp: fun_eq_iff sip_queues_def put_def)

lemma ex_takes:
  assumes "\<And>w. ex_kernel tap h rd w = ex_read d p n w" "p \<noteq> Wire"
  shows "takes (ex_kernel tap h) (sip_queues (ex_env tap)) rd d p"
  using assms(2)
  by (simp add: takes_def assms(1) ex_read_def take_from_def got_bytes Let_def ex_queues_put sip_queues_def [of _ _ _ p])
    (simp add: put_def min_def)

lemma ex_gives:
  assumes "\<And>bs w. ex_kernel tap h (wr bs) w = ex_write d p bs w" "p \<noteq> Wire"
  shows "gives (ex_kernel tap h) (sip_queues (ex_env tap)) wr d p"
  using assms(2) by (simp add: gives_def assms(1) ex_write_def add_to_def ex_queues_put sip_queues_def [of _ _ _ p])

lemma ex_offers:
  assumes "\<And>w. ex_kernel tap h rd w = ex_read d p n w" "0 < n" "\<And>Q. fd \<in> ex_waiting tap h Q \<longleftrightarrow> Q d p \<noteq> []" "p \<noteq> Wire"
  shows "offers (ex_kernel tap h) (sip_queues (ex_env tap)) fd rd d p"
  using assms(2,4) unfolding offers_def assms(1) ex_read_def take_from_def
  by (simp add: ex_kernel_def reply_ready_def reply_ok_def assms(3) sip_queues_def got_bytes)

lemma ex_host_ok:
  "tfd ex_host = 9" "g_pipe_from_plugin (gv ex_host) = (3, 4)" "g_pipe_to_plugin (gv ex_host) = (5, 6)" "sip_host_ok ex_host"
  by (simp_all add: ex_host_def host_example_ok example_globals_def sip_host_ok_def main_fds_def main_fits_def selectable_def
      FD_SETSIZE_def decoder_ok_def host_example_def main_example_def sip_state.extend_def
      plugin_state.fields_def sip_example_def tcp_state.extend_def sip_state.fields_def tcp_start_state_def)

lemma ex_wire_laws: "wire_laws (ex_env tap) h"
  by (auto simp: wire_laws_def ex_env_def ex_kernel_def ex_read_def ex_write_def take_from_def add_to_def split: xcall.split)

text \<open>The laws hold for any host with these descriptors.\<close>

lemma ex_laws:
  assumes "tfd s = tap" "g_pipe_from_plugin (gv s) = (3, 4)" "g_pipe_to_plugin (gv s) = (5, 6)" "tap \<notin> {3, 4, 5, 6}"
  shows "sip_laws (ex_env tap) h s" "sip_offers (ex_env tap) h s"
proof -
  show "sip_laws (ex_env tap) h s"
    using assms(4) unfolding sip_laws_def Let_def assms(1-3) fst_conv snd_conv leg_def ex_env_simps
    by (intro conjI ex_takes ex_gives ex_wire_laws)
      (simp_all add: ex_kernel_def waits_def memory_left_def pjsip_works_def reads_bounded_def reads_bytes_def ex_read_def
        take_from_def reply_ok_def reply_bytes_def got_def PJ_SUCCESS_def)
  show "sip_offers (ex_env tap) h s"
    using assms(4) unfolding sip_offers_def Let_def assms(1-3) fst_conv snd_conv ex_env_simps
    by (intro conjI ex_offers) (simp_all add: ex_kernel_def ex_waiting_def, simp_all add: block_sizes)
qed

lemma ex_live: "sip_live (ex_env 9) 4 ex_net"
  using ex_laws [OF ex_host_ok(1-3)] ex_host_ok(4)
  by (simp add: sip_live_def sip_good_def ex_net_def ex_world_def sizeof_int_def)

definition ex_round :: "sip_thread list" where
  "ex_round = [Sip_main Client, Tun_events Client, Sip_events Server, Sip_main Server, Tun_events Server, Sip_events Client]"

lemma ex_round_all: "set ex_round = UNIV"
proof -
  have "th \<in> set ex_round" for th
    by (cases th; cases "sip_host th"; simp add: ex_round_def)
  then show ?thesis by blast
qed



end
