(* ===== verification/Boot.thy ===== *)
theory Boot
  imports Network
begin

text \<open>
  The step from \<open>main\<close> to the theorems about the loops: these ask for descriptors that are fit for
  \<open>select\<close> and different where they have to be (\<open>host_fits\<close>), and a host that booted has them when
  its kernel gives out descriptors as it should. The trace tells which descriptors are open
  (\<open>open_fds\<close>); \<open>fresh_from\<close> is what is asked of the kernel, call by call. At the end both example
  configurations boot on such a kernel.
\<close>

section \<open>From the command line to the data plane\<close>

subsection \<open>Descriptors\<close>

definition open_after :: "int list \<Rightarrow> xcall \<times> reply \<Rightarrow> int list" where
  "open_after F cr = (let (c, r) = cr in filter (\<lambda>fd. fd \<notin> set (closes c)) (F @ opens c r))"

lemma open_fds_open_after: "open_fds t = fold (\<lambda>cr F. open_after F cr) t []"
  unfolding open_fds_def by (intro fold_cong refl ext) (auto simp: open_after_def)

fun gives_fd :: "xcall \<Rightarrow> bool" where
  "gives_fd (Open p m) \<longleftrightarrow> True"
| "gives_fd (Socket d t) \<longleftrightarrow> True"
| "gives_fd (Accept d) \<longleftrightarrow> True"
| "gives_fd _ \<longleftrightarrow> False"

fun fresh_from :: "int list \<Rightarrow> (xcall \<times> reply) list \<Rightarrow> bool" where
  "fresh_from F [] \<longleftrightarrow> True"
| "fresh_from F ((c, r) # t) \<longleftrightarrow>
     (\<forall>fd \<in> set (opens c r). fd \<notin> set F \<and> selectable fd) \<and> distinct (opens c r) \<and>
     (gives_fd c \<longrightarrow> - 1 \<le> r_ret r) \<and> fresh_from (open_after F (c, r)) t"

lemma fresh_from_append:
  "fresh_from F (t @ u) \<longleftrightarrow> fresh_from F t \<and> fresh_from (fold (\<lambda>cr F. open_after F cr) t F) u"
proof (induction t arbitrary: F)
  case (Cons x t)
  then show ?case by (cases x) simp
qed simp

lemma tun_open_success:
  assumes "tun_open k s = Inr (0, s')" "posix_errno k"
  shows "\<exists>r q f. trace s' = trace s @ [(Open TUNDEV O_RDWR, r), (TunSetIff (r_ret r) f, q)] \<and> tfd s' = r_ret r \<and>
    0 \<le> r_ret r \<and> gv s' = gv s"
proof -
  define r where "r = fst (sys k (Open TUNDEV O_RDWR) s)"
  define s1 where "s1 = (snd (sys k (Open TUNDEV O_RDWR) s))\<lparr>tfd := r_ret r\<rparr>"
  define c where "c = TunSetIff (r_ret r) (IFF_TAP OR IFF_NO_PI)"
  have e: "0 < errno (snd (sys k (Close (r_ret r)) (snd (sys k c s1))))" if "r_ret (fst (sys k c s1)) < 0"
    by (rule errno_sys_pos [OF assms(2) posix_errno_sys [OF assms(2) that]])
  show ?thesis
    using assms(1) e
    by (auto simp: tun_open_def tun_alloc_def Let_def split_beta sys_trace r_def [symmetric] s1_def [symmetric] c_def [symmetric]
        split: if_splits) (auto simp: s1_def r_def c_def sys_trace)
qed

lemma tcp_build_client_trace:
  assumes "tcp_build k s = Inr (0, s')" "g_mode (gv s) = CLIENT_MODE" "tunnel_ok s" "posix_errno k"
  shows "\<exists>o1 r f c1 h m c2 c3 c4. trace s' = trace s @
      [(Open TUNDEV O_RDWR, o1), (TunSetIff (r_ret o1) f, r), (Socket AF_INET SOCK_STREAM, c1),
       (GetHostByName h, m), (Connect (r_ret c1) (r_addr m) (ucast (g_remote_port (gv s))), c2),
       (Socket AF_INET SOCK_STREAM, c3), (Socket AF_INET SOCK_STREAM, c4)] \<and>
    r_ret c1 \<noteq> - 1 \<and> 0 \<le> r_ret o1 \<and> tfd s' = r_ret o1 \<and> socketRemote s' = r_ret c1 \<and> gv s' = gv s"
proof -
  obtain s1 where s1: "tun_open k s = Inr (0, s1)" "same_device s1 s'"
    using tcp_build_device [OF assms(1)] by blast
  obtain o1 r f where o: "trace s1 = trace s @ [(Open TUNDEV O_RDWR, o1), (TunSetIff (r_ret o1) f, r)]" "tfd s1 = r_ret o1"
    "0 \<le> r_ret o1" "gv s1 = gv s"
    using tun_open_success [OF s1(1) assms(4)] by blast
  obtain c1 h c2 c3 c4 where c: "trace s' = trace s1 @ [(Socket AF_INET SOCK_STREAM, c1),
        (GetHostByName (c_str (g_remote_host (gv s))), h), (Connect (r_ret c1) (r_addr h) (ucast (g_remote_port (gv s))), c2),
        (Socket AF_INET SOCK_STREAM, c3), (Socket AF_INET SOCK_STREAM, c4)]"
    "r_ret c1 \<noteq> - 1" "gv s' = gv s" "socketRemote s' = r_ret c1"
    using tcp_build_client_result [OF assms(2) s1(1) assms(3,1)] by blast
  have "tfd s' = r_ret o1"
    using s1(2) o(2) by (simp add: same_device_def)
  then show ?thesis
    using o c by auto
qed

lemma tcp_buildServer_gv: "gv (snd (tcp_buildServer k p s)) = gv s"
  by (simp add: tcp_buildServer_def Let_def split_beta)

lemma tcp_build_server_trace:
  assumes "tcp_build k s = Inr (0, s')" "g_mode (gv s) = SERVER_MODE" "posix_errno k"
  shows "\<exists>o1 r f c1 c2 c3. trace s' = trace s @
      [(Open TUNDEV O_RDWR, o1), (TunSetIff (r_ret o1) f, r), (Socket AF_INET SOCK_STREAM, c1),
       (Bind (r_ret c1) 0 (ucast (g_local_port (gv s))), c2), (Listen (r_ret c1) 1, c3)] \<and>
    r_ret c1 \<noteq> - 1 \<and> 0 \<le> r_ret o1 \<and> tfd s' = r_ret o1 \<and> socketServer s' = r_ret c1 \<and> gv s' = gv s"
proof -
  obtain s1 where s1: "tun_open k s = Inr (0, s1)" "same_device s1 s'"
    using tcp_build_device [OF assms(1)] by blast
  obtain o1 r f where o: "trace s1 = trace s @ [(Open TUNDEV O_RDWR, o1), (TunSetIff (r_ret o1) f, r)]" "tfd s1 = r_ret o1"
    "0 \<le> r_ret o1" "gv s1 = gv s"
    using tun_open_success [OF s1(1) assms(3)] by blast
  have b: "tcp_buildServer k (g_local_port (gv s)) s1 = (0, s')"
    using assms(1,2) o(4) by (simp add: tcp_build_def s1(1))
  then obtain c1 c2 c3 where c: "- 1 \<notin> {r_ret c1, r_ret c2, r_ret c3}"
    "trace s' = trace s1 @ setup_trace [(Socket AF_INET SOCK_STREAM, c1), (Bind (r_ret c1) 0 (ucast (g_local_port (gv s))), c2), (Listen (r_ret c1) 1, c3)]"
    "socketServer s' = r_ret c1"
    using tcp_buildServer_result [of k "g_local_port (gv s)" s1] by (auto split: if_splits)
  have "gv s' = gv s" "tfd s' = r_ret o1"
    using tcp_buildServer_gv [of k "g_local_port (gv s)" s1] b o s1(2) by (simp_all add: same_device_def)
  then show ?thesis
    using o c by auto
qed

lemma plugin_build_phases:
  assumes "plugin_build k s = Inr (0, s')"
  shows "\<exists>p1 p2 s1. trace s1 = trace s @ [(Pipe, p1), (Pipe, p2)] \<and> r_ret p1 = 0 \<and> r_ret p2 = 0 \<and>
    gv s1 = (gv s)\<lparr>g_pipe_from_plugin := r_pipe p1, g_pipe_to_plugin := r_pipe p2\<rparr> \<and>
    sys_state.more s1 = sys_state.more s \<and> call_build (active_plugin_build s1) k s1 = Inr (0, s')"
proof -
  define t where "t = (snd (sys k Pipe s))\<lparr>gv := (gv s)\<lparr>g_pipe_from_plugin := r_pipe (fst (sys k Pipe s))\<rparr>\<rparr>"
  define s1 where "s1 = (snd (sys k Pipe t))\<lparr>gv := (gv t)\<lparr>g_pipe_to_plugin := r_pipe (fst (sys k Pipe t))\<rparr>\<rparr>"
  have c: "call_build (active_plugin_build s1) k s1 = Inr (0, s')" "r_ret (fst (sys k Pipe s)) = 0" "r_ret (fst (sys k Pipe t)) = 0"
    using assms by (auto simp: plugin_build_def Let_def split_beta s1_def t_def split: if_splits)
  show ?thesis
    by (rule exI [of _ "fst (sys k Pipe s)"], rule exI [of _ "fst (sys k Pipe t)"], rule exI [of _ s1])
      (use c in \<open>simp add: s1_def t_def sys_trace\<close>)
qed

text \<open>The variables of the components that no step of the boot but a build changes.\<close>

definition same_tables :: "('w, 'z) sip_state_scheme \<Rightarrow> ('w, 'z) sip_state_scheme \<Rightarrow> bool" where
  "same_tables s s' \<longleftrightarrow> plugindata s' = plugindata s \<and> decoding_table s' = decoding_table s \<and>
     g_complete s' = g_complete s"

lemma plugin_checkConfig_more:
  assumes "plugin_checkConfig s = Inr (rc, s')"
  shows "same_tables s s' \<and> trace s' = trace s \<and> iface_name s' = iface_name s"
  using assms by (auto simp: plugin_checkConfig_def same_tables_def Let_def split: if_splits)

lemma same_vars_all:
  fixes s :: "('w, 'z) plugin_state_scheme"
  assumes "same_vars s s'"
  shows "gv s' = gv s" "tfd s' = tfd s" "socketRemote s' = socketRemote s" "socketServer s' = socketServer s"
    "iface_name s' = iface_name s" "active_plugin_start s' = active_plugin_start s"
  using assms by (cases s; cases s'; simp add: same_vars_def)+

text \<open>
  From the command line to the first pass of the main loop, whichever plugin is selected: the two
  pipes are made first, then the plugin is built, and nothing but its thread is created between
  the build and the loop.
\<close>

lemma boot_entry:
  assumes "main k files argv S n s = Inr (InMainLoop S', s')" "posix_errno k" "short_names k"
    "buf_ok 100 (iface_name s)" "trace s = []" "active_plugin_start s' = Some f"
  shows "\<exists>p1 p2 sb s2 r t. trace sb = [(Pipe, p1), (Pipe, p2)] \<and> r_ret p1 = 0 \<and> r_ret p2 = 0 \<and>
    g_pipe_from_plugin (gv sb) = r_pipe p1 \<and> g_pipe_to_plugin (gv sb) = r_pipe p2 \<and> same_tables s sb \<and>
    call_build (Some (case f of Tcp_start \<Rightarrow> Tcp_build | Sip_start \<Rightarrow> Sip_build)) k sb = Inr (0, s2) \<and> iface_ok s2 \<and>
    same_vars s2 s' \<and> trace s' = trace s2 @ (PthreadCreate (thread_name f), r) # t \<and> (n = 0 \<longrightarrow> t = [])"
proof -
  obtain g s1 s2 where p: "plugin_checkConfig (s\<lparr>gv := g\<rparr>) = Inr (0, s1)" "plugin_build k s1 = Inr (0, s2)"
    and l: "MainLoop k S n (snd (plugin_start k s2)) = Inr (S', s')"
    using main_reaches_run [OF assms(1)] main_run_phases by fastforce
  obtain f' where f: "plugin_selected f' s1"
    using plugin_checkConfig_result [OF p(1)] by blast
  have c: "trace s1 = []" "same_tables s s1" "iface_name s1 = iface_name s"
    using plugin_checkConfig_more [OF p(1)] assms(5) by (simp_all add: same_tables_def)
  have s2: "plugin_selected f' s2" "iface_ok s2"
    using plugin_build_result [OF p(2) f assms(2,3)] assms(4) c(3) by simp_all
  let ?th = "(PthreadCreate (thread_name f'), fst (sys k (PthreadCreate (thread_name f')) s2))"
  have s3: "snd (plugin_start k s2) = snd (sys k (PthreadCreate (thread_name f')) s2)"
    by (simp add: plugin_start_selected [OF s2(1)])
  obtain t where t: "same_vars s2 s'" "trace s' = trace s2 @ ?th # t"
    using MainLoop_keeps [OF l]
      same_vars_trans [OF same_vars_sys [where s = s2 and k = k and c = "PthreadCreate (thread_name f')"]]
    by (auto simp: s3 sys_trace)
  have t0: "n = 0 \<longrightarrow> t = []"
    using l t(2) by (auto simp: MainLoop_def Let_def s3 sys_trace)
  have "f' = f"
    using s2(1) same_vars_all(6) [OF t(1)] assms(6) by (simp add: plugin_selected_def)
  moreover obtain p1 p2 sb where b: "trace sb = [(Pipe, p1), (Pipe, p2)]" "r_ret p1 = 0" "r_ret p2 = 0"
    "gv sb = (gv s1)\<lparr>g_pipe_from_plugin := r_pipe p1, g_pipe_to_plugin := r_pipe p2\<rparr>"
    "sys_state.more sb = sys_state.more s1" "call_build (active_plugin_build sb) k sb = Inr (0, s2)"
    using plugin_build_phases [OF p(2)] c(1) by auto
  moreover have "same_tables s sb" "active_plugin_build sb = active_plugin_build s1"
    using b(5) c(2) by (cases sb; cases s1; simp add: same_tables_def)+
  ultimately show ?thesis
    using f s2(2) t t0 by (intro exI [of _ p1] exI [of _ p2] exI [of _ sb] exI [of _ s2] exI [of _ "snd ?th"] exI [of _ t])
      (simp add: plugin_selected_def)
qed

text \<open>
  The calls up to the first pass of the main loop of a TCP host: the two pipes, the device, the
  plugin's first socket, and then calls that close nothing.
\<close>

lemma tcp_entry:
  assumes "main k files argv S n s = Inr (InMainLoop S', s')" "posix_errno k" "short_names k"
    "buf_ok 100 (iface_name s)" "trace s = []" "tunnel_ok s" "active_plugin_start s' = Some Tcp_start"
  shows "\<exists>p1 p2 o1 r f c1 rest t.
    trace s' = (Pipe, p1) # (Pipe, p2) # (Open TUNDEV O_RDWR, o1) # (TunSetIff (r_ret o1) f, r) #
      (Socket AF_INET SOCK_STREAM, c1) # rest @ t \<and>
    (\<forall>cr \<in> set rest. closes (fst cr) = []) \<and> (n = 0 \<longrightarrow> t = []) \<and>
    r_ret p1 = 0 \<and> r_ret p2 = 0 \<and> 0 \<le> r_ret o1 \<and> r_ret c1 \<noteq> - 1 \<and>
    g_pipe_from_plugin (gv s') = r_pipe p1 \<and> g_pipe_to_plugin (gv s') = r_pipe p2 \<and> tfd s' = r_ret o1 \<and>
    (g_mode (gv s') = CLIENT_MODE \<longrightarrow> socketRemote s' = r_ret c1) \<and> iface_ok s'"
proof -
  obtain p1 p2 sb s2 r t where b: "trace sb = [(Pipe, p1), (Pipe, p2)]" "r_ret p1 = 0" "r_ret p2 = 0"
    "g_pipe_from_plugin (gv sb) = r_pipe p1" "g_pipe_to_plugin (gv sb) = r_pipe p2" "same_tables s sb"
    and tb: "tcp_build k sb = Inr (0, s2)" and ok: "iface_ok s2" and t: "same_vars s2 s'"
    "trace s' = trace s2 @ (PthreadCreate (thread_name Tcp_start), r) # t" "n = 0 \<longrightarrow> t = []"
    using boot_entry [OF assms(1-5,7)] by auto
  note v = same_vars_all [OF t(1)]
  have ok': "iface_ok s'"
    using iface_ok_same_vars [OF t(1) ok] .
  have sb: "tunnel_ok sb"
    using b(6) assms(6) by (simp add: same_tables_def tunnel_ok_def)
  have m: "g_mode (gv sb) = CLIENT_MODE \<or> g_mode (gv sb) = SERVER_MODE"
    using tb by (auto simp: tcp_build_def dest!: tun_open_keeps split: if_splits)
  show ?thesis
  proof (cases "g_mode (gv sb) = CLIENT_MODE")
    case True
    from tcp_build_client_trace [OF tb True sb assms(2)] show ?thesis
      using t v b ok'
      by (elim exE conjE) (rule exI, rule exI, rule exI, rule exI, rule exI, rule exI, rule exI, rule exI [of _ t], auto)
  next
    case False
    then have "g_mode (gv sb) = SERVER_MODE" using m by simp
    from tcp_build_server_trace [OF tb this assms(2)] show ?thesis
      using t v b ok' \<open>g_mode (gv sb) = SERVER_MODE\<close>
      by (elim exE conjE)
        (rule exI, rule exI, rule exI, rule exI, rule exI, rule exI, rule exI, rule exI [of _ t], auto simp: global_consts)
  qed
qed

text \<open>What the first calls settle about the descriptors, when each is a new one.\<close>

lemma fresh_device:
  assumes "fresh_from [] ((Pipe, p1) # (Pipe, p2) # (Open TUNDEV O_RDWR, o1) # (TunSetIff (r_ret o1) f, r) # rest)"
    and "r_ret p1 = 0" "r_ret p2 = 0" "0 \<le> r_ret o1"
  shows "selectable (fst (r_pipe p1)) \<and> selectable (fst (r_pipe p2)) \<and> selectable (r_ret o1) \<and>
    r_ret o1 \<notin> {fst (r_pipe p1), snd (r_pipe p1), fst (r_pipe p2), snd (r_pipe p2)} \<and>
    fresh_from [fst (r_pipe p1), snd (r_pipe p1), fst (r_pipe p2), snd (r_pipe p2), r_ret o1] rest"
  using assms by (auto simp: open_after_def)

lemma fresh_prefix:
  assumes "fresh_from [] ((Pipe, p1) # (Pipe, p2) # (Open TUNDEV O_RDWR, o1) # (TunSetIff (r_ret o1) f, r) #
      (Socket AF_INET SOCK_STREAM, c1) # rest)"
    and "r_ret p1 = 0" "r_ret p2 = 0" "0 \<le> r_ret o1" "r_ret c1 \<noteq> - 1"
  shows "selectable (fst (r_pipe p1)) \<and> selectable (fst (r_pipe p2)) \<and> selectable (r_ret o1) \<and> selectable (r_ret c1) \<and>
    r_ret o1 \<notin> {fst (r_pipe p1), snd (r_pipe p1), fst (r_pipe p2), snd (r_pipe p2)} \<and>
    r_ret c1 \<notin> {fst (r_pipe p1), snd (r_pipe p1), fst (r_pipe p2), snd (r_pipe p2)} \<and>
    fresh_from [fst (r_pipe p1), snd (r_pipe p1), fst (r_pipe p2), snd (r_pipe p2), r_ret o1, r_ret c1] rest"
proof -
  have "- 1 \<le> r_ret c1"
    using assms(1) by simp
  then have "0 \<le> r_ret c1"
    using assms(5) by linarith
  then show ?thesis
    using fresh_device [OF assms(1-4)] by (auto simp: open_after_def)
qed

lemma host_fits_iff:
  "host_fits h s \<longleftrightarrow>
     selectable (fst (g_pipe_from_plugin (gv s))) \<and> selectable (tfd s) \<and>
     tfd s \<noteq> fst (g_pipe_from_plugin (gv s)) \<and> tfd s \<noteq> snd (g_pipe_to_plugin (gv s)) \<and>
     selectable (fst (g_pipe_to_plugin (gv s))) \<and> selectable (socket_of h s) \<and>
     socket_of h s \<noteq> fst (g_pipe_to_plugin (gv s)) \<and> socket_of h s \<noteq> snd (g_pipe_from_plugin (gv s))"
  by (auto simp: host_fits_def main_fits_def main_fds_def plugin_fits_def)

text \<open>
  A booted client is ready for the data plane: when the kernel hands out descriptors that
  are not open and below 1024, the descriptors with which the loops of a client run are fit for
  select and different where they have to be, so that every theorem about the loops applies.
\<close>

lemma client_boot_ready:
  assumes "main k files argv S n s = Inr (InMainLoop S', s')" "posix_errno k" "short_names k"
    "buf_ok 100 (iface_name s)" "trace s = []" "tunnel_ok s"
    and "active_plugin_start s' = Some Tcp_start" "g_mode (gv s') = CLIENT_MODE" "fresh_from [] (trace s')"
  shows "host_fits Client s' \<and>
    (\<exists>s2 new. run_start Tcp_start kt z T m s' = Inr (None, s2) \<and> same_vars s' s2 \<and> trace s2 = trace s' @ new \<and>
      submitted (snd (g_pipe_from_plugin (gv s'))) new = received (socketRemote s') new \<and>
      submitted (socketRemote s') new = received (fst (g_pipe_to_plugin (gv s'))) new)"
proof -
  obtain p1 p2 o1 r f c1 rest t where e:
    "trace s' = (Pipe, p1) # (Pipe, p2) # (Open TUNDEV O_RDWR, o1) # (TunSetIff (r_ret o1) f, r) #
      (Socket AF_INET SOCK_STREAM, c1) # rest @ t"
    "r_ret p1 = 0" "r_ret p2 = 0" "0 \<le> r_ret o1" "r_ret c1 \<noteq> - 1"
    "g_pipe_from_plugin (gv s') = r_pipe p1" "g_pipe_to_plugin (gv s') = r_pipe p2" "tfd s' = r_ret o1"
    "socketRemote s' = r_ret c1" "iface_ok s'"
    using tcp_entry [OF assms(1-7)] assms(8) by blast
  have "host_fits Client s'"
    using fresh_prefix [OF assms(9) [unfolded e(1)] e(2-5)] e(6-9) by (simp add: host_fits_iff socket_of_def)
  moreover from this have "plugin_fits (client_fds s')"
    by (simp add: host_fits_iff client_fds_def plugin_fits_def socket_of_def)
  ultimately show ?thesis
    using client_start_relays [OF assms(8) e(10), of _ _ _ kt T m] by (simp add: client_fds_def)
qed

subsection \<open>The thread of a server\<close>

text \<open>Configuring the device opens and closes control sockets only.\<close>

definition keeps_open :: "(xcall \<times> reply) list \<Rightarrow> bool" where
  "keeps_open t \<longleftrightarrow> (\<forall>F. fresh_from F t \<longrightarrow> set F \<subseteq> set (fold (\<lambda>cr F. open_after F cr) t F))"

lemma keeps_open_append: "\<lbrakk>keeps_open t; keeps_open u\<rbrakk> \<Longrightarrow> keeps_open (t @ u)"
  by (auto simp: keeps_open_def fresh_from_append)

lemma tun_config_keeps_open:
  "tun_setIP k ip s = Inr (rc, s') \<Longrightarrow> \<exists>t. trace s' = trace s @ t \<and> keeps_open t"
  "tun_setNETMASK k ip s = Inr (rc, s') \<Longrightarrow> \<exists>t. trace s' = trace s @ t \<and> keeps_open t"
  "tun_UP k s = Inr (rc, s') \<Longrightarrow> \<exists>t. trace s' = trace s @ t \<and> keeps_open t"
  by (auto simp: tun_setIP_def tun_setNETMASK_def tun_UP_def Let_def split_beta sys_trace keeps_open_def open_after_def
      split: if_splits)

lemma server_passes_keep:
  assumes "passes n (server_pass k m) (S, s) = Inr (S', s')"
  shows "same_vars s s' \<and> (\<exists>t. trace s' = trace s @ t)"
proof -
  have step: "same_vars u v \<and> (\<exists>t. trace v = trace u @ t)"
    if "server_pass k m (T, u) = Inr (T', v)" for T T' and u v :: "('a, 'b) tcp_state_scheme"
    using pump_effect [OF that [unfolded server_pass_pump]] by blast
  have "passes n (server_pass k m) x = Inr y \<Longrightarrow>
      same_vars s (snd x) \<and> (\<exists>t. trace (snd x) = trace s @ t) \<Longrightarrow>
      same_vars s (snd y) \<and> (\<exists>t. trace (snd y) = trace s @ t)" for x y
    by (erule passes_invariant [rotated]) (auto dest!: step intro: same_vars_trans)
  from this [OF assms] show ?thesis by simp
qed

lemma server_thread_accepts:
  assumes "tcp_startServer k S n s = Inr (S', s')" "0 < n"
  shows "\<exists>r t. trace s' = trace s @ (Accept (socketServer s), r) # t \<and> 0 \<le> r_ret r \<and>
    socketConnected s' = r_ret r \<and> gv s' = gv s \<and> tfd s' = tfd s"
proof -
  define a where "a = server_accept k s"
  define r where "r = fst (sys k (Accept (socketServer s)) s)"
  have a: "trace a = trace s @ [(Accept (socketServer s), r)]" "socketConnected a = r_ret r" "gv a = gv s" "tfd a = tfd s"
    by (simp_all add: a_def r_def server_accept_def Let_def split_beta sys_trace)
  have p: "passes n (server_pass k (server_maxfd a)) (S, a) = Inr (S', s')"
    using assms(1) by (simp add: tcp_startServer_def a_def Let_def)
  then obtain x where "server_pass k (server_maxfd a) (S, a) = Inr x"
    using assms(2) by (cases n) auto
  then have "0 \<le> socketConnected a"
    by (auto simp: server_pass_def FD_SET_def Let_def split: if_splits)
  moreover obtain t where "same_vars a s'" "trace s' = trace a @ t"
    using server_passes_keep [OF p] by blast
  ultimately show ?thesis
    using a same_vars_tcp [of a s'] same_vars_tun [of a s'] by auto
qed

lemma tcp_start_server:
  assumes "tcp_start k S n s = Inr (rc, s')" "g_mode (gv s) = SERVER_MODE" "0 < n"
  shows "\<exists>cfg fd r t. trace s' = trace s @ cfg @ (Accept fd, r) # t \<and> keeps_open cfg \<and> 0 \<le> r_ret r \<and>
    socketConnected s' = r_ret r \<and> gv s' = gv s \<and> tfd s' = tfd s"
proof -
  obtain r1 r2 r3 s1 s2 s3 S' where c: "tun_setIP k (c_str (g_local_ip (gv s))) s = Inr (r1, s1)"
    "tun_setNETMASK k ''255.255.255.0'' s1 = Inr (r2, s2)" "tun_UP k s2 = Inr (r3, s3)"
    and l: "(if g_mode (gv s3) = SERVER_MODE then res_bind (tcp_startServer k S n s3) (\<lambda>(_, s). Inr (None, s))
       else if g_mode (gv s3) = CLIENT_MODE then res_bind (tcp_startClient k S n s3) (\<lambda>(_, s). Inr (None, s))
       else Inr (Some 0, s3)) = Inr (rc, s')"
    using assms(1) by (auto simp: tcp_start_def)
  obtain t1 t2 t3 where t: "trace s1 = trace s @ t1" "keeps_open t1" "trace s2 = trace s1 @ t2" "keeps_open t2"
    "trace s3 = trace s2 @ t3" "keeps_open t3"
    using tun_config_keeps_open(1) [OF c(1)] tun_config_keeps_open(2) [OF c(2)] tun_config_keeps_open(3) [OF c(3)] by blast
  have v: "same_vars s s3"
    using tun_config_same_vars(1) [OF c(1)] tun_config_same_vars(2) [OF c(2)] tun_config_same_vars(3) [OF c(3)]
      same_vars_trans by blast
  have g: "gv s3 = gv s" "tfd s3 = tfd s"
    using same_vars_tun [OF v] by simp_all
  obtain S' where "tcp_startServer k S n s3 = Inr (S', s')"
    using l assms(2) g(1) by auto
  from server_thread_accepts [OF this assms(3)] obtain r t where
    "trace s' = trace s @ (t1 @ t2 @ t3) @ (Accept (socketServer s3), r) # t" "0 \<le> r_ret r"
    "socketConnected s' = r_ret r" "gv s' = gv s" "tfd s' = tfd s"
    using t g by auto
  moreover have "keeps_open (t1 @ t2 @ t3)"
    using t by (intro keeps_open_append)
  ultimately show ?thesis
    by blast
qed

text \<open>
  A booted server is ready for the data plane as soon as its thread has made a pass: the
  thread has configured the device and accepted a connection, and the descriptors of the loops,
  the accepted one among them, are fit for select and different where they have to be.
\<close>

lemma server_boot_fits:
  assumes "main k files argv S 0 s = Inr (InMainLoop S', s1)" "posix_errno k" "short_names k"
    "buf_ok 100 (iface_name s)" "trace s = []" "tunnel_ok s"
    and "active_plugin_start s1 = Some Tcp_start" "g_mode (gv s1) = SERVER_MODE"
    and "run_start Tcp_start kt z T n s1 = Inr (rc, s2)" "0 < n" "fresh_from [] (trace s2)"
  shows "host_fits Server s2"
proof -
  obtain p1 p2 o1 r f c1 rest where e:
    "trace s1 = (Pipe, p1) # (Pipe, p2) # (Open TUNDEV O_RDWR, o1) # (TunSetIff (r_ret o1) f, r) #
      (Socket AF_INET SOCK_STREAM, c1) # rest"
    "\<forall>cr \<in> set rest. closes (fst cr) = []"
    "r_ret p1 = 0" "r_ret p2 = 0" "0 \<le> r_ret o1" "r_ret c1 \<noteq> - 1"
    "g_pipe_from_plugin (gv s1) = r_pipe p1" "g_pipe_to_plugin (gv s1) = r_pipe p2" "tfd s1 = r_ret o1"
    using tcp_entry [OF assms(1-7)] by auto
  have st: "tcp_start kt T n s1 = Inr (rc, s2)"
    using assms(9) by simp
  obtain cfg fd a t where a: "trace s2 = trace s1 @ cfg @ (Accept fd, a) # t" "keeps_open cfg" "0 \<le> r_ret a"
    "socketConnected s2 = r_ret a" "gv s2 = gv s1" "tfd s2 = tfd s1"
    using tcp_start_server [OF st assms(8,10)] by blast
  let ?F = "[fst (r_pipe p1), snd (r_pipe p1), fst (r_pipe p2), snd (r_pipe p2), r_ret o1, r_ret c1]"
  have tr: "trace s2 = (Pipe, p1) # (Pipe, p2) # (Open TUNDEV O_RDWR, o1) # (TunSetIff (r_ret o1) f, r) #
      (Socket AF_INET SOCK_STREAM, c1) # (rest @ cfg @ (Accept fd, a) # t)"
    by (simp add: a(1) e(1))
  note fr = fresh_prefix [OF assms(11) [unfolded tr] e(3-6)]
  have kr: "set F \<subseteq> set (fold (\<lambda>cr F. open_after F cr) rest F)" for F
    using e(2)
  proof (induction rest arbitrary: F)
    case (Cons x rest)
    then have "set F \<subseteq> set (open_after F x)"
      by (auto simp: open_after_def split_beta)
    then show ?case
      using Cons by fastforce
  qed simp
  have "r_ret a \<notin> set ?F" "selectable (r_ret a)"
    using fr kr [of ?F] a(2,3) unfolding keeps_open_def fresh_from_append by (simp_all, fastforce)
  then show ?thesis
    using fr e(7-9) a(4-6) by (simp add: host_fits_iff socket_of_def)
qed

subsection \<open>The example configurations boot\<close>

text \<open>A kernel that gives out descriptors in order and lets every other call succeed; its state counts them.\<close>

definition fd_kernel :: "nat kernel" where
  "fd_kernel c w =
     (case c of
        Pipe \<Rightarrow> ((reply_ok 0)\<lparr>r_pipe := (int w + 3, int w + 4)\<rparr>, w + 2)
      | _ \<Rightarrow> if gives_fd c then (reply_ok (int w + 3), Suc w) else (reply_ok 1, w))"

lemma fd_calls:
  "fd_kernel Pipe w = ((reply_ok 0)\<lparr>r_pipe := (int w + 3, int w + 4)\<rparr>, w + 2)"
  "gives_fd c \<Longrightarrow> fd_kernel c w = (reply_ok (int w + 3), Suc w)"
  "\<lbrakk>c \<noteq> Pipe; \<not> gives_fd c\<rbrakk> \<Longrightarrow> fd_kernel c w = (reply_ok 1, w)"
  by (cases c; simp add: fd_kernel_def)+

lemma reply_ok_fields [simp]: "r_ret (reply_ok n) = n" "r_pipe (reply_ok n) = (0, 0)" "r_name (reply_ok n) = []" "r_ready (reply_ok n) = {}"
  by (simp_all add: reply_ok_def)

lemma fd_kernel_documented: "posix_errno fd_kernel" "short_names fd_kernel"
  by (simp_all add: posix_errno_def short_names_def fd_kernel_def c_str_def IFNAMSIZ_def reply_ok_def split: xcall.split)

lemma find_first:
  assumes "plugindata t = plugindata_zero"
  shows "find_slot 0 (Suc 0) t = Inr (Suc 0)"
  using assms
  by (simp add: find_slot.simps [of 0 "Suc 0"] connection_at_def plugindata_zero_def tnconnection_zero_def global_consts MAXINT_def)

text \<open>
  What a boot on that kernel leaves: the pipes are 3 to 6, the device is 7; and for TCP no
  descriptor has been closed.
\<close>

definition wired :: "(nat, 'z) tun_state_scheme \<Rightarrow> bool" where
  "wired s \<longleftrightarrow> fresh_from [] (trace s) \<and> g_pipe_from_plugin (gv s) = (3, 4) \<and> g_pipe_to_plugin (gv s) = (5, 6) \<and> tfd s = 7"

definition built :: "(nat, 'z) tcp_state_scheme \<Rightarrow> bool" where
  "built s \<longleftrightarrow> wired s \<and> open_fds (trace s) = map int [3..<world s + 3] \<and> 6 \<le> world s \<and> world s \<le> 8 \<and>
     (g_mode (gv s) = CLIENT_MODE \<longrightarrow> socketRemote s = 8)"

lemma active_start_sys: "active_plugin_start (snd (sys k c s)) = active_plugin_start s"
  by (simp add: sys_def Let_def split_beta)

lemma built_thread: "built s \<Longrightarrow> built (snd (sys fd_kernel (PthreadCreate n) s))"
  and wired_thread: "wired s \<Longrightarrow> wired (snd (sys fd_kernel (PthreadCreate n) s))"
  by (simp_all add: built_def wired_def sys_def fd_calls fresh_from_append open_fds_open_after open_after_def)

lemma upt_boot: "[3..<9] = [3, 4, 5, 6, 7, 8]" "[3..<11] = [3, 4, 5, 6, 7, 8, 9, 10]"
  by code_simp+

lemma example_builds:
  assumes "world s = 0" "trace s = []" "plugindata s = plugindata_zero" "buf_ok 100 (iface_name s)"
    "active_plugin_build s = Some Tcp_build" "g_mode (gv s) \<in> {SERVER_MODE, CLIENT_MODE}"
  shows "\<exists>s2. plugin_build fd_kernel s = Inr (0, s2) \<and> g_mode (gv s2) = g_mode (gv s) \<and> built s2"
proof -
  obtain b where n: "strncpy (iface_name s) (Some (c_str [])) 100 = Inr b"
    using strncpy_total [OF assms(4) order_refl] by auto
  have "g_mode (gv s) = CLIENT_MODE \<or> g_mode (gv s) = SERVER_MODE"
    using assms(6) by auto
  then show ?thesis
    by (rule disjE)
      (use assms in \<open>simp add: plugin_build_def sys_def fd_calls Let_def tcp_build_def tun_open_def tun_alloc_def n global_consts
        tcp_buildClient_def tcp_buildServer_def StoreConnectionInformation_def find_first MAXINT_def set_connection_def
        open_after_def open_fds_open_after selectable_def FD_SETSIZE_def built_def wired_def upt_boot\<close>)+
qed

definition client_files :: "string \<Rightarrow> string option" where
  "client_files name = (if name = ''vpn.conf'' then Some (unlines test_config_client) else None)"

lemma example_boots:
  assumes "main_options prog (getopt_all ws) globals_init = Inr (Inr g)" "c_str (g_configfile g) = name"
    "wf_globals g" "view g = view globals_init"
    and "files name = Some (unlines ls)" "plain_lines ls" "run_shows ls ks vs" "\<not> prefix ''none'' name"
    and sel: "\<And>g'. \<lbrakk>map (view g') ks = vs; g_debug g' = g_debug g\<rbrakk> \<Longrightarrow>
      \<exists>s1 s2. plugin_checkConfig ((program_start 0)\<lparr>gv := g'\<rparr>) = Inr (0, s1) \<and> plugin_selected f s1 \<and>
        plugin_build fd_kernel s1 = Inr (0, s2) \<and> P s2"
  shows "\<exists>s. main fd_kernel files (prog # ws) {} 0 (program_start 0)
      = Inr (InMainLoop {}, snd (sys fd_kernel (PthreadCreate (thread_name f)) s)) \<and> plugin_selected f s \<and> P s"
proof -
  obtain g' where g': "map (view g') ks = vs" "g_debug g' = g_debug g"
    and run: "main fd_kernel files (prog # ws) {} 0 (program_start 0) =
    res_bind (plugin_checkConfig ((program_start 0)\<lparr>gv := g'\<rparr>)) (\<lambda>(rc, s).
      if rc \<noteq> 0 then Inr (Exited (- 1), s)
      else res_bind (plugin_build fd_kernel s) (\<lambda>(rc, s).
        if rc \<noteq> 0 then Inr (Exited (- 1), s)
        else
          let (_, s) = plugin_start fd_kernel s
          in res_bind (MainLoop fd_kernel {} 0 s) (\<lambda>(S, s). Inr (InMainLoop S, s))))"
    using main_options_parse [where files = files and k = fd_kernel and S = "{}" and n = 0 and w = 0, OF assms(1-8)]
    by (elim exE conjE) (rule that)
  obtain s1 s2 where s: "plugin_checkConfig ((program_start 0)\<lparr>gv := g'\<rparr>) = Inr (0, s1)" "plugin_selected f s1"
    "plugin_build fd_kernel s1 = Inr (0, s2)" "P s2"
    using sel [OF g'] by blast
  have "plugin_selected f s2"
    using plugin_build_result [OF s(3,2) fd_kernel_documented] plugin_checkConfig_more [OF s(1)]
    by (simp add: program_start_fields)
  then show ?thesis
    using s(4) by (intro exI [of _ s2]) (simp add: run s(1,3) plugin_start_selected MainLoop_def Let_def)
qed

lemma tcp_example_boots:
  assumes "files ''vpn.conf'' = Some (unlines ls)" "plain_lines ls" "run_shows ls ks vs" "m \<in> {SERVER_MODE, CLIENT_MODE}"
    and acc: "\<And>g. map (view g) ks = vs \<Longrightarrow>
      g_mode g = m \<and> c_str (g_plugin_name g) = ''tcp'' \<and> fst (tcp_checkParameters (g\<lparr>g_plugin := TCP_PLUGIN\<rparr>)) = 0"
  shows "\<exists>s. main fd_kernel files [''multivpn'', ''-c'', ''vpn.conf''] {} 0 (program_start 0) = Inr (InMainLoop {}, s) \<and>
    active_plugin_start s = Some Tcp_start \<and> g_mode (gv s) = m \<and> built s"
proof -
  have nm: "\<not> prefix ''none'' ''vpn.conf''" "''vpn.conf'' \<noteq> []" "hd ''vpn.conf'' \<noteq> CHR ''-''" "NUL \<notin> set ''vpn.conf''"
    "length ''vpn.conf'' \<le> 200"
    by simp_all
  obtain g where g: "main_options ''multivpn'' [(CHR ''c'', Some ''vpn.conf'')] globals_init = Inr (Inr g)"
    "c_str (g_configfile g) = ''vpn.conf''" "wf_globals g" "view g = view globals_init"
    using configfile_option [OF wf_globals_init nm(2-5)] by blast
  have o: "main_options ''multivpn'' (getopt_all [''-c'', ''vpn.conf'']) globals_init = Inr (Inr g)"
    using config_words_option [OF config_words.short, of "''vpn.conf''" "[]"] g(1) by (simp only: append_Nil2 getopt_all_Nil)
  have "\<exists>s1 s2. plugin_checkConfig ((program_start 0)\<lparr>gv := g'\<rparr>) = Inr (0, s1) \<and> plugin_selected Tcp_start s1 \<and>
      plugin_build fd_kernel s1 = Inr (0, s2) \<and> g_mode (gv s2) = m \<and> built s2" if v: "map (view g') ks = vs" for g'
  proof -
    obtain s1 where s1: "plugin_checkConfig ((program_start (0 :: nat))\<lparr>gv := g'\<rparr>) = Inr (0, s1)" "plugin_selected Tcp_start s1"
      "gv s1 = g'\<lparr>g_plugin := TCP_PLUGIN\<rparr>" "iface_name s1 = iface_name (program_start (0 :: nat))" "world s1 = 0"
      "trace s1 = []" "plugindata s1 = plugindata_zero"
      using tcp_check_selects [of g' "program_start (0 :: nat)"] acc [OF v] by (auto simp: program_start_fields)
    have "buf_ok 100 (iface_name s1)" "g_mode (gv s1) = m" "active_plugin_build s1 = Some Tcp_build"
      using acc [OF v] s1(2) by (simp_all add: s1(3,4) plugin_selected_def program_start_fields)
    then show ?thesis
      using example_builds [OF s1(5-7)] assms(4) s1(1,2) by auto
  qed
  then obtain s where "main fd_kernel files [''multivpn'', ''-c'', ''vpn.conf''] {} 0 (program_start 0)
      = Inr (InMainLoop {}, snd (sys fd_kernel (PthreadCreate (thread_name Tcp_start)) s))"
    "plugin_selected Tcp_start s" "g_mode (gv s) = m" "built s"
    using example_boots [where files = files and f = Tcp_start and P = "\<lambda>s. g_mode (gv s) = m \<and> built s", OF o g(2-4) assms(1-3) nm(1)]
    by blast
  then show ?thesis
    by (intro exI [of _ "snd (sys fd_kernel (PthreadCreate (thread_name Tcp_start)) s)"])
      (simp add: plugin_selected_def built_thread active_start_sys)
qed

lemma example_accepts:
  "map (view g) [Mode, PluginName] = [ModeNo 1, Text ''tcp''] \<Longrightarrow>
     g_mode g = CLIENT_MODE \<and> c_str (g_plugin_name g) = ''tcp'' \<and> fst (tcp_checkParameters (g\<lparr>g_plugin := TCP_PLUGIN\<rparr>)) = 0"
  "map (view g) [Mode, PluginName, LocalPort, LocalIp, RemoteIp]
      = [ModeNo 0, Text ''tcp'', Port 3005, Text ''10.200.200.2'', Text ''10.200.200.1''] \<Longrightarrow>
     g_mode g = SERVER_MODE \<and> c_str (g_plugin_name g) = ''tcp'' \<and> fst (tcp_checkParameters (g\<lparr>g_plugin := TCP_PLUGIN\<rparr>)) = 0"
  by (simp_all add: view_def tcp_checkParameters_def tcp_checkMode_def tcp_checkLocalPort_def tcp_checkLocalIP_def
      tcp_checkRemoteIP_def none_str_def global_consts)

lemma client_example_boots:
  "\<exists>s. main fd_kernel client_files [''multivpn'', ''-c'', ''vpn.conf''] {} 0 (program_start 0) = Inr (InMainLoop {}, s) \<and>
    active_plugin_start s = Some Tcp_start \<and> g_mode (gv s) = CLIENT_MODE \<and> built s"
proof -
  have p: "plain_lines test_config_client"
    by code_simp
  have r: "run_shows test_config_client [Mode, PluginName] [ModeNo 1, Text ''tcp'']"
    by code_simp
  have f: "client_files ''vpn.conf'' = Some (unlines test_config_client)"
    by (simp only: client_files_def refl if_True)
  show ?thesis
    by (rule tcp_example_boots [where files = client_files, OF f p r _ example_accepts(1)]) simp_all
qed

lemma server_example_boots:
  "\<exists>s. main fd_kernel server_files [''multivpn'', ''-c'', ''vpn.conf''] {} 0 (program_start 0) = Inr (InMainLoop {}, s) \<and>
    active_plugin_start s = Some Tcp_start \<and> g_mode (gv s) = SERVER_MODE \<and> built s"
proof -
  have p: "plain_lines test_config_server"
    by code_simp
  have r: "run_shows test_config_server [Mode, PluginName, LocalPort, LocalIp, RemoteIp]
      [ModeNo 0, Text ''tcp'', Port 3005, Text ''10.200.200.2'', Text ''10.200.200.1'']"
    by code_simp
  have f: "server_files ''vpn.conf'' = Some (unlines test_config_server)"
    by (simp only: server_files_def refl if_True)
  show ?thesis
    by (rule tcp_example_boots [where files = server_files, OF f p r _ example_accepts(2)]) simp_all
qed

text \<open>The thread of the server accepts and makes a pass.\<close>

lemma example_server_thread:
  assumes "iface_ok s" "built s" "g_mode (gv s) = SERVER_MODE"
  shows "\<exists>s2. run_start Tcp_start fd_kernel z {} 1 s = Inr (None, s2) \<and> fresh_from [] (trace s2) \<and>
    socketConnected s2 = int (world s) + 6 \<and> gv s2 = gv s \<and> tfd s2 = tfd s"
proof -
  have i: "ifrn_name s = Inr (c_str (iface_name s))"
    by (rule iface_ok_name [OF assms(1)])
  have p: "length (c_str (iface_name s)) < IFNAMSIZ" "6 + int (world s) < FD_SETSIZE"
    using assms by (auto simp: iface_ok_def built_def FD_SETSIZE_def)
  note b = assms(2) [unfolded built_def wired_def open_fds_open_after]
  show ?thesis
    using p b assms(3)
    by (simp add: tcp_start_def tun_setIP_def tun_setNETMASK_def tun_UP_def sys_def fd_calls Let_def ifrn_name_def
        tcp_startServer_def server_accept_def global_consts server_pass_def FD_SET_def FD_SETSIZE_def do_select_def)
      (auto simp: fresh_from_append open_after_def selectable_def FD_SETSIZE_def)
qed

lemma program_start_tunnel: "tunnel_ok (program_start w)"
  by (simp add: tunnel_ok_def program_start_fields plugindata_zero_def global_consts)

lemma client_boot_ready_witness:
  "\<exists>s. main fd_kernel client_files [''multivpn'', ''-c'', ''vpn.conf''] {} 0 (program_start 0) = Inr (InMainLoop {}, s) \<and>
    host_fits Client s"
proof -
  obtain s where s: "main fd_kernel client_files [''multivpn'', ''-c'', ''vpn.conf''] {} 0 (program_start 0) = Inr (InMainLoop {}, s)"
    "active_plugin_start s = Some Tcp_start" "g_mode (gv s) = CLIENT_MODE" "fresh_from [] (trace s)"
    using client_example_boots by (auto simp: built_def wired_def)
  have "host_fits Client s"
    by (rule conjunct1 [OF client_boot_ready [OF s(1) fd_kernel_documented _ _ _ s(2-4)]])
      (simp_all add: program_start_fields program_start_tunnel)
  with s(1) show ?thesis by blast
qed

lemma server_boot_fits_witness:
  "\<exists>s1 s2. main fd_kernel server_files [''multivpn'', ''-c'', ''vpn.conf''] {} 0 (program_start 0) = Inr (InMainLoop {}, s1) \<and>
    run_start Tcp_start fd_kernel 0 {} 1 s1 = Inr (None, s2) \<and> host_fits Server s2"
proof -
  obtain s1 where s1: "main fd_kernel server_files [''multivpn'', ''-c'', ''vpn.conf''] {} 0 (program_start 0) = Inr (InMainLoop {}, s1)"
    "active_plugin_start s1 = Some Tcp_start" "g_mode (gv s1) = SERVER_MODE" "built s1"
    using server_example_boots by blast
  have st: "buf_ok 100 (iface_name (program_start (0 :: nat)))" "trace (program_start (0 :: nat)) = []"
    "tunnel_ok (program_start (0 :: nat))"
    by (simp_all add: program_start_fields program_start_tunnel)
  have "iface_ok s1"
    using tcp_entry [OF s1(1) fd_kernel_documented st s1(2)] by blast
  then obtain s2 where s2: "run_start Tcp_start fd_kernel 0 {} 1 s1 = Inr (None, s2)" "fresh_from [] (trace s2)"
    using example_server_thread [OF _ s1(4,3)] by blast
  have "host_fits Server s2"
    by (rule server_boot_fits [OF s1(1) fd_kernel_documented st s1(2,3) s2(1) _ s2(2)]) simp
  with s1(1) s2(1) show ?thesis by blast
qed

end
