(* ===== verification/Sip_Boot.thy ===== *)
theory Sip_Boot
  imports Boot Sip_Network
begin

section \<open>A SIP host, from the command line to its loops\<close>

text \<open>
  What \<open>Boot\<close> does for TCP hosts: a host that booted with the SIP plugin is a host of
  \<open>Sip_Network\<close>, and its plugin's thread sends what it reads.
\<close>

lemma tun_open_tables: "tun_open k s = Inr (rc, s') \<Longrightarrow> same_tables s s'"
  by (auto simp: tun_open_def tun_alloc_def same_tables_def Let_def split_beta split: if_splits)

lemma same_vars_tables: "same_vars s s' \<Longrightarrow> same_tables s s'"
  by (cases s; cases s') (simp add: same_vars_def same_tables_def)

lemma same_tables_trans: "\<lbrakk>same_tables s t; same_tables t u\<rbrakk> \<Longrightarrow> same_tables s u"
  by (simp add: same_tables_def)

lemma sip_build_trace:
  assumes "sip_build k s = Inr (0, s')" "posix_errno k"
  shows "\<exists>o1 r f cfg. trace s' = trace s @ (Open TUNDEV O_RDWR, o1) # (TunSetIff (r_ret o1) f, r) # cfg \<and>
    0 \<le> r_ret o1 \<and> tfd s' = r_ret o1 \<and> gv s' = gv s \<and> same_tables s s'"
proof -
  obtain s1 s2 s3 rc rc' where c: "tun_open k s = Inr (0, s1)" "tun_UP k s1 = Inr (0, s2)"
    "tun_setIP k (c_str (g_local_ip (gv s2))) s2 = Inr (rc, s3)"
    "tun_setNETMASK k (c_str (g_local_netmask (gv s3))) s3 = Inr (rc', s')"
    using assms(1) by (auto simp: sip_build_def split: if_splits)
  obtain o1 r f where o: "trace s1 = trace s @ [(Open TUNDEV O_RDWR, o1), (TunSetIff (r_ret o1) f, r)]" "tfd s1 = r_ret o1"
    "0 \<le> r_ret o1" "gv s1 = gv s"
    using tun_open_success [OF c(1) assms(2)] by blast
  have v: "same_vars s1 s'"
    using tun_config_same_vars(3) [OF c(2)] tun_config_same_vars(1) [OF c(3)] tun_config_same_vars(2) [OF c(4)]
      same_vars_trans by blast
  obtain t1 t2 t3 where "trace s2 = trace s1 @ t1" "trace s3 = trace s2 @ t2" "trace s' = trace s3 @ t3"
    using tun_config_keeps_open(3) [OF c(2)] tun_config_keeps_open(1) [OF c(3)] tun_config_keeps_open(2) [OF c(4)] by blast
  then show ?thesis
    using o v same_vars_tun [OF v] same_tables_trans [OF tun_open_tables [OF c(1)] same_vars_tables [OF v]] by auto
qed

lemma sip_entry:
  assumes "main k files argv S n s = Inr (InMainLoop S', s')" "posix_errno k" "short_names k"
    "buf_ok 100 (iface_name s)" "trace s = []" "active_plugin_start s' = Some Sip_start"
  shows "\<exists>p1 p2 o1 r f rest.
    trace s' = (Pipe, p1) # (Pipe, p2) # (Open TUNDEV O_RDWR, o1) # (TunSetIff (r_ret o1) f, r) # rest \<and>
    r_ret p1 = 0 \<and> r_ret p2 = 0 \<and> 0 \<le> r_ret o1 \<and>
    g_pipe_from_plugin (gv s') = r_pipe p1 \<and> g_pipe_to_plugin (gv s') = r_pipe p2 \<and> tfd s' = r_ret o1 \<and> same_tables s s'"
proof -
  obtain p1 p2 sb s2 r t where b: "trace sb = [(Pipe, p1), (Pipe, p2)]" "r_ret p1 = 0" "r_ret p2 = 0"
    "g_pipe_from_plugin (gv sb) = r_pipe p1" "g_pipe_to_plugin (gv sb) = r_pipe p2" "same_tables s sb"
    and sb: "sip_build k sb = Inr (0, s2)" and t: "same_vars s2 s'"
    "trace s' = trace s2 @ (PthreadCreate (thread_name Sip_start), r) # t"
    using boot_entry [OF assms] by auto
  note T = same_tables_trans
  from sip_build_trace [OF sb assms(2)] show ?thesis
    using b same_vars_tun [OF t(1)] t(2) T [OF T [OF b(6)] same_vars_tables [OF t(1)]]
    by (elim exE conjE) (rule exI, rule exI, rule exI, rule exI, rule exI, rule exI, auto)
qed

text \<open>The descriptors and the decoder of a booted host.\<close>

lemma booted_sip_ok:
  assumes "main k files argv S n s = Inr (InMainLoop S', s')" "posix_errno k" "short_names k"
    "buf_ok 100 (iface_name s)" "trace s = []" "active_plugin_start s' = Some Sip_start"
    and "decoding_table s = Null" "\<not> g_complete s" "fresh_from [] (trace s')"
  shows "sip_host_ok s' \<longleftrightarrow> g_debug (gv s') \<le> 1"
proof -
  obtain p1 p2 o1 r f rest where e:
    "trace s' = (Pipe, p1) # (Pipe, p2) # (Open TUNDEV O_RDWR, o1) # (TunSetIff (r_ret o1) f, r) # rest"
    "r_ret p1 = 0" "r_ret p2 = 0" "0 \<le> r_ret o1"
    "g_pipe_from_plugin (gv s') = r_pipe p1" "g_pipe_to_plugin (gv s') = r_pipe p2" "tfd s' = r_ret o1" "same_tables s s'"
    using sip_entry [OF assms(1-6)] by blast
  show ?thesis
    using fresh_device [OF assms(9) [unfolded e(1)] e(2-4)] e(5-8) assms(7,8)
    by (auto simp: sip_host_ok_def main_fits_def main_fds_def decoder_ok_def same_tables_def)
qed

subsection \<open>The plugin's thread\<close>

text \<open>The calls that start PJSIP.\<close>

definition pjsip_boot_calls :: "xcall list" where
  "pjsip_boot_calls = map (\<lambda>f. Pjsip (fst f)) pj_boot @ [PthreadCreate ''sip_loop_sip_events'']"

lemma pj_run_works:
  "pjsip_works k \<Longrightarrow> \<exists>s' t. pj_run k fs s = (None, s') \<and> same_vars s s' \<and> trace s' = trace s @ t \<and>
    map fst t = map (\<lambda>f. Pjsip (fst f)) fs"
proof (induction fs arbitrary: s)
  case (Cons f fs)
  obtain g r where f: "f = (g, r)" by (cases f)
  let ?s = "snd (sys k (Pjsip g) s)"
  obtain s' t where s': "pj_run k fs ?s = (None, s')" "same_vars ?s s'" "trace s' = trace ?s @ t"
    "map fst t = map (\<lambda>f. Pjsip (fst f)) fs"
    using Cons by blast
  have "pj_run k (f # fs) s = (None, s')"
    using s'(1) pjsip_worksD(2) [OF Cons.prems, of g s] by (simp add: f Let_def split_beta split: option.split)
  moreover have "same_vars s s'"
    using same_vars_trans [OF same_vars_sys s'(2)] .
  ultimately show ?case
    using s'(3,4) by (simp add: f sys_trace)
qed simp

lemma sip_start_sends:
  assumes "z \<le> sizeof_int" "memory_left k" "pjsip_works k" "reads_bounded k" "selectable (fst (g_pipe_to_plugin (gv s)))"
  shows "\<exists>s' u t. sip_start k z S n s = Inr (None, s') \<and> same_vars s s' \<and> trace s' = trace s @ u @ t \<and>
    map fst u = pjsip_boot_calls \<and> headers t = map b64 (blocks (fst (g_pipe_to_plugin (gv s))) t)"
proof -
  obtain s1 u where s1: "pj_run k pj_boot s = (None, s1)" "same_vars s s1" "trace s1 = trace s @ u"
    "map fst u = map (\<lambda>f. Pjsip (fst f)) pj_boot"
    using pj_run_works [OF assms(3)] by blast
  let ?c = "PthreadCreate ''sip_loop_sip_events''"
  define s2 where "s2 = snd (sys k ?c s1)"
  have s2: "same_vars s s2" "trace s2 = trace s @ u @ [(?c, fst (sys k ?c s1))]"
    using same_vars_trans [OF s1(2) same_vars_sys] by (simp_all add: s2_def sys_trace s1(3))
  have g: "gv s2 = gv s"
    using s2(1) by (simp add: same_vars_iff)
  obtain S' s' t where s': "passes n (sip_tun_pass k z (fst (g_pipe_to_plugin (gv s2)) + 1)) (S, s2) = Inr (S', s')"
    "same_vars s2 s'" "trace s' = trace s2 @ t" "headers t = map b64 (blocks (fst (g_pipe_to_plugin (gv s2))) t)"
    using sip_loop_result [OF assms(1-4), of s2] assms(5) g by metis
  have "sip_start k z S n s = Inr (None, s')"
    using s'(1) by (simp add: sip_start_def s1(1) sip_loop_tun_events_def s2_def Let_def split_beta)
  moreover have "same_vars s s'"
    using same_vars_trans [OF s2(1) s'(2)] .
  ultimately show ?thesis
    using s'(3,4) s1(4) s2(2) g
    by (intro exI [of _ s'] exI [of _ "u @ [(?c, fst (sys k ?c s1))]"] exI [of _ t]) (simp add: pjsip_boot_calls_def)
qed


subsection \<open>The example configurations boot\<close>

definition sip_config_bob :: "string list" where
  "sip_config_bob =
     [''# Sample config for SIP Plugin (BOB Side)'', ''plugin sip'', ''sip_port 4060'',
      ''sip_transport udp'', ''sip_remoteuri sip:bob@10.10.0.180'',
      ''sip_fromuri sip:alice@10.10.1.76'', ''local_ip 10.200.200.2'',
      ''local_netmask 255.255.255.0'']"

definition sip_files :: "string \<Rightarrow> string option" where
  "sip_files name =
     (if name = ''alice'' then Some (unlines sip_config_alice)
      else if name = ''bob'' then Some (unlines sip_config_bob) else None)"

lemma sip_check_selects:
  assumes "c_str (g_plugin_name g) = ''sip''" "g_sip_port g \<noteq> 0"
  shows "\<exists>s'. plugin_checkConfig (s\<lparr>gv := g\<rparr>) = Inr (0, s') \<and> plugin_selected Sip_start s' \<and>
    gv s' = g\<lparr>g_plugin := SIP_PLUGIN\<rparr> \<and> world s' = world s"
  using assms by (simp add: plugin_checkConfig_def plugin_selected_def sip_getters Let_def sip_checkParameters_def array_at_null_def)

lemma sip_example_builds:
  fixes s :: "nat plugin_state"
  assumes "world s = 0" "trace s = []" "buf_ok 100 (iface_name s)" "active_plugin_build s = Some Sip_build"
  shows "\<exists>s2. plugin_build fd_kernel s = Inr (0, s2) \<and> g_debug (gv s2) = g_debug (gv s) \<and> wired s2"
proof -
  obtain b where n: "strncpy (iface_name s) (Some (c_str [])) 100 = Inr b"
    using strncpy_total [OF assms(3) order_refl] by auto
  have i: "ifrn_name t = Inr (c_str (iface_name t))" if "iface_name t = b" for t :: "nat plugin_state"
    by (rule iface_ok_name)
      (use iface_ok_strncpy [OF assms(3) n, of s] that in \<open>simp add: iface_ok_def IFNAMSIZ_def c_str_def\<close>)
  show ?thesis
    using assms i
    by (simp add: plugin_build_def sys_def fd_calls Let_def sip_build_def tun_open_def tun_alloc_def n
        tun_UP_def tun_setIP_def tun_setNETMASK_def open_after_def selectable_def FD_SETSIZE_def wired_def)
qed

lemma quiet_options:
  assumes "name \<noteq> []" "hd name \<noteq> CHR ''-''" "NUL \<notin> set name" "length name \<le> 200"
  shows "\<exists>g. main_options argv0 (getopt_all [''-d'', ''1'', ''-c'', name]) globals_init = Inr (Inr g) \<and>
    c_str (g_configfile g) = name \<and> wf_globals g \<and> view g = view globals_init \<and> g_debug g = 1"
proof -
  let ?g0 = "globals_init\<lparr>g_debug := 1\<rparr>"
  have a: "atoi (Some ''1'') = Inr 1"
    by code_simp
  have w: "wf_globals ?g0" "view ?g0 = view globals_init"
    using wf_globals_init by (simp_all add: wf_globals_def view_def fun_eq_iff split: setting.splits)
  have o: "getopt_all [''-d'', ''1'', ''-c'', name] = [(CHR ''d'', Some ''1''), (CHR ''c'', Some name)]"
    using config_words_option [OF config_words.short, of name "[]"] by (simp add: debug_word)
  have "main_options argv0 (getopt_all [''-d'', ''1'', ''-c'', name]) globals_init = main_options argv0 [(CHR ''c'', Some name)] ?g0"
    unfolding o by (simp add: main_option_def [of _ "CHR ''d''"] bad_optarg_def a)
  then show ?thesis
    using configfile_option [OF w(1) assms, of argv0] w(2) by simp
qed

lemma sip_boots:
  assumes "sip_files name = Some (unlines ls)" "plain_lines ls" "run_shows ls [PluginName, SipPort] [Text ''sip'', Port 4060]"
    and "\<not> prefix ''none'' name" "name \<noteq> []" "hd name \<noteq> CHR ''-''" "NUL \<notin> set name" "length name \<le> 200"
  shows "\<exists>s. main fd_kernel sip_files [''multivpn'', ''-d'', ''1'', ''-c'', name] {} 0 (program_start 0) = Inr (InMainLoop {}, s) \<and>
    active_plugin_start s = Some Sip_start \<and> g_debug (gv s) = 1 \<and> wired s"
proof -
  obtain g where g: "main_options ''multivpn'' (getopt_all [''-d'', ''1'', ''-c'', name]) globals_init = Inr (Inr g)"
    "c_str (g_configfile g) = name" "wf_globals g" "view g = view globals_init" "g_debug g = 1"
    using quiet_options [OF assms(5-8)] by blast
  have "\<exists>s1 s2. plugin_checkConfig ((program_start 0)\<lparr>gv := g'\<rparr>) = Inr (0, s1) \<and> plugin_selected Sip_start s1 \<and>
      plugin_build fd_kernel s1 = Inr (0, s2) \<and> g_debug (gv s2) = 1 \<and> wired s2"
    if v: "map (view g') [PluginName, SipPort] = [Text ''sip'', Port 4060]" "g_debug g' = g_debug g" for g'
  proof -
    have "c_str (g_plugin_name g') = ''sip''" "g_sip_port g' \<noteq> 0"
      using v(1) by (auto simp: view_def)
    then obtain s1 where s1: "plugin_checkConfig ((program_start (0 :: nat))\<lparr>gv := g'\<rparr>) = Inr (0, s1)" "plugin_selected Sip_start s1"
      "gv s1 = g'\<lparr>g_plugin := SIP_PLUGIN\<rparr>" "world s1 = 0"
      using sip_check_selects [of g' "program_start (0 :: nat)"] by (auto simp: program_start_fields)
    have "trace s1 = []" "buf_ok 100 (iface_name s1)" "active_plugin_build s1 = Some Sip_build" "g_debug (gv s1) = 1"
      using plugin_checkConfig_more [OF s1(1)] s1(2) v(2) g(5) by (simp_all add: s1(3) plugin_selected_def program_start_fields)
    then show ?thesis
      using sip_example_builds [OF s1(4)] s1(1,2) by auto
  qed
  then obtain s where "main fd_kernel sip_files [''multivpn'', ''-d'', ''1'', ''-c'', name] {} 0 (program_start 0)
      = Inr (InMainLoop {}, snd (sys fd_kernel (PthreadCreate (thread_name Sip_start)) s))"
    "plugin_selected Sip_start s" "g_debug (gv s) = 1" "wired s"
    using example_boots [where files = sip_files and f = Sip_start and P = "\<lambda>s. g_debug (gv s) = 1 \<and> wired s",
        OF g(1-4) assms(1-4)] by blast
  then show ?thesis
    by (intro exI [of _ "snd (sys fd_kernel (PthreadCreate (thread_name Sip_start)) s)"])
      (simp add: plugin_selected_def wired_thread active_start_sys)
qed

lemma sip_example_boots:
  assumes "name \<in> {''alice'', ''bob''}"
  shows "\<exists>s. main fd_kernel sip_files [''multivpn'', ''-d'', ''1'', ''-c'', name] {} 0 (program_start 0) = Inr (InMainLoop {}, s) \<and>
    active_plugin_start s = Some Sip_start \<and> g_debug (gv s) = 1 \<and> wired s"
proof -
  have p: "plain_lines sip_config_alice" "plain_lines sip_config_bob"
    by code_simp+
  have r: "run_shows sip_config_alice [PluginName, SipPort] [Text ''sip'', Port 4060]"
    "run_shows sip_config_bob [PluginName, SipPort] [Text ''sip'', Port 4060]"
    by code_simp+
  have f: "sip_files ''alice'' = Some (unlines sip_config_alice)" "sip_files ''bob'' = Some (unlines sip_config_bob)"
    by (simp_all only: sip_files_def refl if_True) simp
  show ?thesis
    using assms sip_boots [OF f(1) p(1) r(1)] sip_boots [OF f(2) p(2) r(2)] by auto
qed

lemma program_start_clean:
  "decoding_table (program_start w) = Null" "\<not> g_complete (program_start w)" "tunnel_ok (program_start w)"
  "buf_ok 100 (iface_name (program_start w))" "trace (program_start w) = []"
  by (simp_all add: program_start_tunnel program_start_fields)
    (simp_all add: program_start_def main_example_def sip_state.extend_def plugin_state.fields_def sip_example_def
      tcp_state.extend_def sip_state.fields_def tcp_start_state_def)

text \<open>A kernel for the thread: every call succeeds and no bytes arrive.\<close>

definition still_kernel :: "nat kernel" where
  "still_kernel c w = (reply_ok (case c of Malloc n \<Rightarrow> 1 | _ \<Rightarrow> 0), w)"

lemma still_kernel_laws: "memory_left still_kernel" "pjsip_works still_kernel" "reads_bounded still_kernel"
  by (simp_all add: memory_left_def pjsip_works_def reads_bounded_def still_kernel_def reply_ok_def PJ_SUCCESS_def)


end
