(* ===== verification/Deployment.thy ===== *)
theory Deployment
  imports Sip_Boot
begin

section \<open>From two command lines to delivery\<close>

text \<open>
  Everything together: two freshly loaded programs are given their command lines and
  configuration files, each reaches its main loop with its plugin's thread started, and the
  theorems about the network hold for the loops of these two programs. What is asked of the
  kernels is stated of the calls in their traces and of the environment of the loops.
\<close>

subsection \<open>A booted host in the network\<close>

text \<open>
  The variables of a program that booted, in the outside world that the two hosts share. A boot
  may be described with a kernel on a state of its own.
\<close>

definition in_world :: "'v \<Rightarrow> 'w plugin_state \<Rightarrow> 'v plugin_state" where
  "in_world w s = sys_state.extend \<lparr>world = w, trace = trace s, errno = errno s, gv = gv s\<rparr> (sys_state.more s)"

lemma in_world_vars [simp]:
  "world (in_world w s) = w" "gv (in_world w s) = gv s" "tfd (in_world w s) = tfd s"
  "decoding_table (in_world w s) = decoding_table s" "g_complete (in_world w s) = g_complete s"
  "socketRemote (in_world w s) = socketRemote s" "socketConnected (in_world w s) = socketConnected s"
  by (cases s; simp add: in_world_def sys_state.extend_def)+

lemma in_world_hosts [simp]:
  "sip_host_ok (in_world w s) = sip_host_ok s" "host_fits h (in_world w s) = host_fits h s"
  "socket_of h (in_world w s) = socket_of h s"
  by (simp_all add: sip_host_ok_def host_fits_def main_fds_def decoder_ok_def socket_of_def split: side.split)

subsection \<open>A booted program\<close>

text \<open>
  A freshly loaded program that, given its command line and files, has reached its main loop
  with the thread \<open>f\<close> created.
\<close>

definition booted ::
    "'w kernel \<Rightarrow> (string \<Rightarrow> string option) \<Rightarrow> string list \<Rightarrow> 'w \<Rightarrow> start_fn \<Rightarrow> 'w plugin_state \<Rightarrow> bool" where
  "booted k files argv w f s \<longleftrightarrow> posix_errno k \<and> short_names k \<and>
     main k files argv {} 0 (program_start w) = Inr (InMainLoop {}, s) \<and> active_plugin_start s = Some f"

lemma host_fits_same_vars: "same_vars s s' \<Longrightarrow> host_fits Client s' = host_fits Client s"
  by (simp add: host_fits_def main_fds_def socket_of_def same_vars_all)

lemma booted_client_fits:
  assumes "booted k files argv w Tcp_start s" "g_mode (gv s) = CLIENT_MODE" "fresh_from [] (trace s)"
    and "run_start Tcp_start kt z T m s = Inr (rc, s')"
  shows "host_fits Client s'"
proof -
  have b: "main k files argv {} 0 (program_start w) = Inr (InMainLoop {}, s)" "posix_errno k" "short_names k"
    "active_plugin_start s = Some Tcp_start"
    using assms(1) by (simp_all add: booted_def)
  have "host_fits Client s \<and> (\<exists>s2. run_start Tcp_start kt z T m s = Inr (None, s2) \<and> same_vars s s2)"
    using client_boot_ready [OF b(1-3) program_start_clean(4,5,3) b(4) assms(2,3), of kt z T m] by blast
  then show ?thesis
    using assms(4) host_fits_same_vars by auto
qed

lemma booted_server_ready:
  assumes "booted k files argv w Tcp_start s" "g_mode (gv s) = SERVER_MODE"
    and "run_start Tcp_start kt z T m s = Inr (rc, s')" "0 < m" "fresh_from [] (trace s')"
  shows "host_fits Server s'"
proof -
  have b: "main k files argv {} 0 (program_start w) = Inr (InMainLoop {}, s)" "posix_errno k" "short_names k"
    "active_plugin_start s = Some Tcp_start"
    using assms(1) by (simp_all add: booted_def)
  show ?thesis
    by (rule server_boot_fits [OF b(1-3) program_start_clean(4,5,3) b(4) assms(2-5)])
qed


subsection \<open>Over SIP\<close>

lemma pj_run_keeps: "pj_run k fs s = (rc, s') \<Longrightarrow> same_vars s s'"
proof (induction fs arbitrary: s)
  case (Cons f fs)
  have "same_vars s s'" if "pj_run k fs (snd (sys k (Pjsip (fst f)) s)) = (rc, s')"
    using same_vars_trans [OF same_vars_sys Cons.IH [OF that]] .
  then show ?case
    using Cons.prems by (cases f; cases "snd f") (auto simp: Let_def split_beta split: if_splits)
qed simp

lemma booted_sip_host:
  assumes "booted k files argv w Sip_start s" "g_debug (gv s) \<le> 1" "fresh_from [] (trace s)"
    and "run_start Sip_start kt z T 0 s = Inr (None, s')"
  shows "sip_host_ok s'"
proof -
  have b: "main k files argv {} 0 (program_start w) = Inr (InMainLoop {}, s)" "posix_errno k" "short_names k"
    "active_plugin_start s = Some Sip_start"
    using assms(1) by (simp_all add: booted_def)
  have "sip_host_ok s"
    using booted_sip_ok [OF b(1-3) program_start_clean(4,5) b(4) program_start_clean(1,2) assms(3)] assms(2) by simp
  moreover obtain s1 where "pj_run kt pj_boot s = (None, s1)" "s' = snd (sys kt (PthreadCreate ''sip_loop_sip_events'') s1)"
    using assms(4) by (cases "pj_run kt pj_boot s")
      (auto simp: sip_start_def sip_loop_tun_events_def Let_def split_beta split: option.splits)
  moreover from this have "same_vars s s'"
    using same_vars_trans [OF pj_run_keeps same_vars_sys] by simp
  ultimately show ?thesis
    using host_like_laws(3) [OF host_like_same_vars] by blast
qed


subsection \<open>The example programs\<close>

lemma tcp_example_booted:
  "\<exists>s. booted fd_kernel client_files [''multivpn'', ''-c'', ''vpn.conf''] 0 Tcp_start s \<and> g_mode (gv s) = CLIENT_MODE \<and> built s"
  "\<exists>s. booted fd_kernel server_files [''multivpn'', ''-c'', ''vpn.conf''] 0 Tcp_start s \<and> g_mode (gv s) = SERVER_MODE \<and> built s"
  using client_example_boots server_example_boots by (auto simp: booted_def fd_kernel_documented)

lemma example_client_up:
  assumes "booted fd_kernel client_files argv 0 Tcp_start s" "g_mode (gv s) = CLIENT_MODE" "built s"
  shows "\<exists>c. run_start Tcp_start fd_kernel 0 {} 0 s = Inr (None, c) \<and> tfd c = 7 \<and> gv c = gv s \<and> socketRemote c = 8"
proof -
  have b: "main fd_kernel client_files argv {} 0 (program_start 0) = Inr (InMainLoop {}, s)"
    "active_plugin_start s = Some Tcp_start"
    using assms(1) by (simp_all add: booted_def)
  have "fresh_from [] (trace s)"
    using assms(3) by (simp add: built_def wired_def)
  then obtain c where "run_start Tcp_start fd_kernel 0 {} 0 s = Inr (None, c)" "same_vars s c"
    using client_boot_ready [OF b(1) fd_kernel_documented program_start_clean(4,5,3) b(2) assms(2), of fd_kernel 0 "{}" 0] by blast
  then show ?thesis
    using assms(2,3) same_vars_all [of s c] by (simp add: built_def wired_def)
qed


text \<open>Both shipped SIP configurations, with messages at level 1.\<close>

lemma sip_thread_boots:
  assumes "pjsip_works k"
  shows "\<exists>s'. run_start Sip_start k z S 0 s = Inr (None, s') \<and> same_vars s s'"
proof -
  obtain s1 where s1: "pj_run k pj_boot s = (None, s1)" "same_vars s s1"
    using pj_run_works [OF assms, of pj_boot s] by blast
  have "same_vars s (snd (sys k (PthreadCreate ''sip_loop_sip_events'') s1))"
    using same_vars_trans [OF s1(2) same_vars_sys] .
  then show ?thesis
    by (simp add: sip_start_def s1(1) sip_loop_tun_events_def Let_def split_beta)
qed

fun sip_name :: "side \<Rightarrow> string" where
  "sip_name Client = ''alice''"
| "sip_name Server = ''bob''"

lemma example_sip_up:
  "\<exists>s up. booted fd_kernel sip_files [''multivpn'', ''-d'', ''1'', ''-c'', sip_name h] 0 Sip_start s \<and> g_debug (gv s) \<le> 1 \<and>
    fresh_from [] (trace s) \<and> run_start Sip_start still_kernel 4 {} 0 s = Inr (None, up) \<and>
    tfd up = 7 \<and> g_pipe_from_plugin (gv up) = (3, 4) \<and> g_pipe_to_plugin (gv up) = (5, 6)"
proof -
  obtain s where s: "booted fd_kernel sip_files [''multivpn'', ''-d'', ''1'', ''-c'', sip_name h] 0 Sip_start s"
    "g_debug (gv s) = 1" "wired s"
    using sip_example_boots [of "sip_name h"] by (cases h) (auto simp: booted_def fd_kernel_documented)
  obtain up where "run_start Sip_start still_kernel 4 {} 0 s = Inr (None, up)" "same_vars s up"
    using sip_thread_boots still_kernel_laws(2) by blast
  then show ?thesis
    using s same_vars_all [of s up] by (auto simp: wired_def)
qed


end
