(* ===== verification/Spec2Isabelle.thy ===== *)
theory Spec2Isabelle
  imports Parser Parser_Spec Parser_Facts Tunnel Tuntap
    Base64 Base64_Encoder Base64_Decoder Base64_Codec Tcp_Plugin Tcp_Facts Sip_Plugin Sip_Transfer Plugin Options Main_Loop
    Queues Dataplane Sip_Dataplane Network Frames Frame_Transport Sip_Network Boot Sip_Boot Deployment
begin

text \<open>
  \<^bold>\<open>MultiVPN\<close>: a model of the program and the theorems that make it correct.

  \<^bold>\<open>The program.\<close> \<open>main\<close> (main.c) reads the command line and a configuration file
  (parser.c) into the global variables (globals.c), lets the dispatcher (plugin.c) select the
  TCP or the SIP plugin by name and check its parameters, makes the two pipes, and has the
  plugin built: the plugin opens the TAP device (tuntap.c) and, for TCP, a connection
  (tcp\_plugin.c, which keeps it in the table of generictunel.c too). Then a thread runs the
  plugin and \<open>MainLoop\<close> runs in the first thread. \<open>MainLoop\<close> carries what it reads from the
  device to one pipe and what comes from the other pipe to the device; the plugin's thread does
  the same between the pipes and its transport: the connection for TCP, and for SIP (sip\_plugin.c)
  OPTIONS requests with the Base64 text (base64.c) of a block in a header.

  \<^bold>\<open>Theories, from the bottom up.\<close>
  \<^item> \<open>Prelude\<close>: bytes, the kinds of undefined behaviour, results \<open>'a res\<close>, lemmas on both.
  \<^item> \<open>CString\<close>: character arrays and the string functions of the C library that are used.
  \<^item> \<open>Globals\<close>: globals.h, globals.c, debug.c. The structure \<open>t_global_v\<close> is a record,
    \<open>wf_globals\<close> its invariant.
  \<^item> \<open>Parser\<close>: parser.c. \<open>ParseOption\<close> test for test, \<open>ParseConfigFile\<close> over the bytes
    of the file. \<open>Parser_Spec\<close>: \<open>spec_line\<close> and \<open>spec_run\<close> are the abstract parser, a table of
    keywords and a map from settings to values, and the code refines it. \<open>Parser_Facts\<close>: the
    invariant, single options, and the lines that crash.
  \<^item> \<open>Sys\<close>: everything that leaves the program as one parameter, the kernel, with a trace of
    calls and replies; descriptors and their sets.
  \<^item> \<open>Tunnel\<close>: generictunel.c. The connection table, with the interface of a table as the locale
    \<open>slot_table\<close>, interpreted on the code's operations.
  \<^item> \<open>Tuntap\<close>: tuntap.c. The device's name and descriptor, and the calls made for each operation.
  \<^item> \<open>Base64\<close>: base64.c. Both loops and the table. \<open>Base64_Encoder\<close>: \<open>b64\<close> is RFC 4648, and the
    encoder's loops compute it; \<open>Base64_Decoder\<close>: the decoder inverts it; \<open>Base64_Codec\<close>: the
    properties of both.
  \<^item> \<open>Relay\<close>: what the forwarding loops share. The locale \<open>relay\<close> says that a pass submits to
    each sink what it received from its source, \<open>safe_relay\<close> adds that a pass never leaves
    defined behaviour; both have their consequences for any number of passes.
  \<^item> \<open>Tcp_Plugin\<close>: tcp\_plugin.c. Both threads are interpretations of \<open>safe_relay\<close>. \<open>Tcp_Facts\<close>: what
    a started thread, a build and the checks do.
  \<^item> \<open>Sip_Plugin\<close>: sip\_plugin.c. Sending, receiving, the two loops, the modules, the start.
  \<^item> \<open>Sip_Transfer\<close>: what these operations do: the calls made, what a receiver writes for what a
    sender read, what hostile requests do, when the event loop returns.
  \<^item> \<open>Plugin\<close>: plugin.c and the getters of both plugins. The locale \<open>plugin_builder\<close> is what the
    dispatcher relies on, interpreted on the build of each plugin.
  \<^item> \<open>Options\<close>: the option tables and texts of main.c, and \<open>getopt_long\<close> on them.
  \<^item> \<open>Main_Loop\<close>: main.c. \<open>main\<close> and \<open>MainLoop\<close>, the latter a third \<open>safe_relay\<close>.
  \<^item> \<open>Dataplane\<close>, \<open>Sip_Dataplane\<close>: the threads of two hosts joined by channels, over TCP and over
    SIP, in any interleaving of their calls.
  \<^item> \<open>Queues\<close>: the abstract tunnel, ten queues of bytes, and the documented laws of the calls on
    them. The locales \<open>queue_system\<close> and \<open>live_system\<close> say when a system of threads moves bytes and
    when it gets all of them through; conservation and delivery are proved there once.
  \<^item> \<open>Network\<close>: two hosts over TCP as a state machine of passes, an instance of both locales.
  \<^item> \<open>Frames\<close>, \<open>Frame_Transport\<close>: a TAP device hands over frames, not a stream. What the main loop's
    buffer cuts off, how the network's laws hold for such a device, and when frames stay apart.
  \<^item> \<open>Sip_Network\<close>: two hosts over SIP, six threads and requests on their way, the other instance.
  \<^item> \<open>Boot\<close>, \<open>Sip_Boot\<close>: from \<open>main\<close> to the descriptors and variables that the theorems about the
    loops ask for; the four shipped configurations boot.
  \<^item> \<open>Deployment\<close>: from two command lines to delivery, over TCP and over SIP.

  \<^bold>\<open>State.\<close> The static variables of each C file are the fields of a record that extends the
  one of the component below: \<open>sys_state\<close> (the outside world, the trace, \<open>errno\<close>, the global
  variables), \<open>tunnel_state\<close>, \<open>tun_state\<close>, \<open>base64_state\<close>, \<open>tcp_state\<close>, \<open>sip_state\<close>,
  \<open>plugin_state\<close>. An operation is a function of such a state, for any extension of it.
  Undefined behaviour is the value \<open>Inl\<close> of the first such operation: a NULL dereference, an
  access out of bounds, a use or a second free of freed memory, an overflow. Errors that the
  code reports are its return values.

  \<^bold>\<open>What the theorems show.\<close>
  Configuration: parsing keeps the invariant, refines the abstract parser, sets what a line
  says, stores and reads back ports, and crashes on exactly the lines given; the shipped
  configurations boot, and the main loop is only entered set up. A booted host, whatever its
  plugin, has the descriptors with which the forwarding theorems hold.
  Base64: the encoder computes RFC 4648 whatever malloc returned, the decoder inverts it, and
  is safe on exactly the texts given.
  Connections: stored ones do not disturb each other; the table's bound is not the array's; a
  removed slot is not used again and can be freed twice.
  Device: the calls of each operation and what they leave open.
  Forwarding: each loop, whatever the kernel answers, hands on exactly the bytes it received.
  The bytes written to one device are a prefix of those read from the other, over TCP and over
  SIP, in any interleaving of single calls. In the state machines of both nothing is lost
  between the devices, every pass moves bytes from one queue to the next or none, and every fair
  schedule delivers everything; this holds for two programs that booted from their command lines.
  Frames: the main loop reads the first 1504 bytes of each, so what arrives is the frames cut to
  that length; frame boundaries are kept when frames travel one after the other, and lost when two
  wait together. SIP requests that are repeated or reordered repeat or reorder their blocks.
  Short writes lose bytes, a closed peer starves the other direction, and hostile requests can do
  what the theorems say.

  \<^bold>\<open>Bounds and fuel.\<close> The loops that do not end (\<open>while (1)\<close>) are given as the state after
  \<open>n\<close> passes, for every \<open>n\<close>; theorems about them hold for every \<open>n\<close>, and that the passes
  return is part of each. The event loop of the SIP plugin is a function of the events that
  arrive, and says whether it returned. The search for a free connection goes up to
  \<open>MAXINT\<close> as in the code, and ends at the end of the array at the latest. Lengths that take an
  \<open>int\<close> counter past \<open>INT_MAX\<close> are overflows. All other recursion is structural or has a measure.

  \<^bold>\<open>Parameters.\<close> The kernel (system calls, name resolution, malloc, PJSIP), the files by name,
  the size of \<open>size_t\<close>, the first content of the descriptor sets and of \<open>lenDecoded\<close>, which the
  code does not initialise. Hypotheses about them are named: \<open>posix_errno\<close>, \<open>short_names\<close>,
  \<open>memory_left\<close>, \<open>reads_bounded\<close>, \<open>pjsip_works\<close>, \<open>calls_succeed\<close>, \<open>peer_closed\<close>,
  \<open>carries\<close>, \<open>full_write\<close>, \<open>fresh_from\<close>; and, for the network, \<open>net_env\<close>, \<open>net_ready\<close>, \<open>sip_laws\<close>,
  \<open>sip_offers\<close>: what a read takes, a write adds and select reports, and that PJSIP hands over each
  request sent, once and in order. The laws are about the calls that the program makes, with its
  buffer sizes; the queue at a device is what such a read can get of its frames, and
  \<open>frame_device\<close>, \<open>frame_host\<close> and \<open>whole_host\<close> state the laws frame by frame. Over SIP they also ask for messages at level 1 or less, since
  one message reads beyond short blocks; the program's own default is 10.

  \<^bold>\<open>Not modelled.\<close> What messages print, other than whether printing them reads out of bounds;
  line numbers for messages; how PJSIP builds, sends and parses messages; memory that is leaked
  (blocks that are never freed are not tracked, but for connection data); address structures
  beyond address and port. The state machines of \<open>Network\<close> and \<open>Sip_Network\<close> interleave whole
  passes; \<open>Dataplane\<close> and \<open>Sip_Dataplane\<close> have the interleavings of single calls. The build files are generated.
\<close>

end
